theory Spec2Isabelle
  imports Main
begin

section \<open>Granular access control: the data model\<close>

text \<open>
  The development embeds the granular access engine (class \<open>GranularAccess\<close> and its
  companions \<open>Ruler\<close>, \<open>RecordView\<close>, \<open>RecordEditor\<close>, \<open>AccessCheck\<close>,
  \<open>CensorshipInfo\<close> and \<open>scanActionsRecursively\<close>). Exceptions are values of type
  \<open>error\<close>; a method that can throw returns \<open>error + 'a\<close>, and a method that also
  assigns to fields of the engine returns the engine next to its result.
\<close>

subsection \<open>Errors\<close>

datatype error =
    ACL_DENY string "string list"
  | NEED_RELOAD string
  | Error string
  | ApiError string nat
  | TypeError string
  | RuleError string

subsection \<open>Cells, document actions and user actions\<close>

datatype cell = CNull | CUndefined | CBool bool | CNum int | CStr string

text \<open>
  \<open>ColValues\<close> and \<open>BulkColValues\<close> are JavaScript objects; \<open>Object.keys\<close> lists the
  columns in insertion order, so they are association lists with distinct keys.
\<close>

type_synonym col_values = "(string \<times> cell) list"
type_synonym bulk_col_values = "(string \<times> cell list) list"

datatype doc_action =
    AddRecord string int col_values
  | BulkAddRecord string "int list" bulk_col_values
  | UpdateRecord string int col_values
  | BulkUpdateRecord string "int list" bulk_col_values
  | RemoveRecord string int
  | BulkRemoveRecord string "int list"
  | ReplaceTableData string "int list" bulk_col_values
  | TableData string "int list" bulk_col_values
  | AddTable string
  | RemoveTable string
  | RenameTable string string
  | AddColumn string string col_values
  | RemoveColumn string string
  | RenameColumn string string string
  | ModifyColumn string string col_values

text \<open>
  A \<open>TableDataAction\<close> is the tuple \<open>['TableData', tableId, rowIds, columns]\<close>; the
  snapshots \<open>rowsBefore\<close>, \<open>rowsAfter\<close> and the metadata tables have this type.
\<close>

record table_data =
  td_tableId :: string
  td_rowIds :: "int list"
  td_columns :: bulk_col_values

definition asAction :: "table_data \<Rightarrow> doc_action" where
  "asAction d = TableData (td_tableId d) (td_rowIds d) (td_columns d)"

text \<open>
  A \<open>UserAction\<close> is an array \<open>[name, ...args]\<close> of values that come from a client. The
  engine reads element 0 and element 1 of it, compares them with strings, converts them
  with \<open>String\<close> and iterates over element 1. The values are those of JSON, and
  \<open>undefined\<close>; a number is an integer here, and an object is the list of its own
  properties.
\<close>

datatype jsval =
    JUndefined | JNull | JBool bool | JNum int | JStr string
  | JArr "jsval list" | JObj "(string \<times> jsval) list"

text \<open>The decimal text of an integer, as \<open>String\<close> and a template literal print it.\<close>

fun showNat :: "nat \<Rightarrow> string" where
  "showNat n =
     (if n < 10 then [char_of (48 + n)] else showNat (n div 10) @ [char_of (48 + n mod 10)])"

declare showNat.simps [simp del]

definition showInt :: "int \<Rightarrow> string" where
  "showInt i = (if i < 0 then CHR ''-'' # showNat (nat (- i)) else showNat (nat i))"

text \<open>\<open>parts.join(sep)\<close>, and the first exception of a list of results.\<close>

fun joinWith :: "string \<Rightarrow> string list \<Rightarrow> string" where
  "joinWith sep [] = []"
| "joinWith sep [s] = s"
| "joinWith sep (s # t # rest) = s @ sep @ joinWith sep (t # rest)"

fun sequenceE :: "(error + 'a) list \<Rightarrow> error + 'a list" where
  "sequenceE [] = Inr []"
| "sequenceE (x # xs) =
     (case x of Inl e \<Rightarrow> Inl e
      | Inr v \<Rightarrow> (case sequenceE xs of Inl e \<Rightarrow> Inl e | Inr vs \<Rightarrow> Inr (v # vs)))"

text \<open>
  \<open>String(v)\<close>. An array is the texts of its elements joined by commas, \<open>null\<close> and
  \<open>undefined\<close> elements counting as empty. A plain object is \<open>[object Object]\<close>; an
  object with an own property \<open>toString\<close>, which is not a function when it comes from
  JSON, cannot be converted, and \<open>String\<close> throws.
\<close>

fun js_String :: "jsval \<Rightarrow> error + string" where
  "js_String JUndefined = Inr ''undefined''"
| "js_String JNull = Inr ''null''"
| "js_String (JBool b) = Inr (if b then ''true'' else ''false'')"
| "js_String (JNum n) = Inr (showInt n)"
| "js_String (JStr s) = Inr s"
| "js_String (JArr xs) =
     (case sequenceE (map (\<lambda>x. if x = JUndefined \<or> x = JNull then Inr [] else js_String x) xs) of
        Inl e \<Rightarrow> Inl e
      | Inr parts \<Rightarrow> Inr (joinWith '','' parts))"
| "js_String (JObj ps) =
     (if ''toString'' \<in> set (map fst ps)
      then Inl (TypeError ''Cannot convert object to primitive value'')
      else Inr ''[object Object]'')"

text \<open>
  \<open>a[i]\<close>: an element of an array, a character of a string, the property of that name
  of an object, \<open>undefined\<close> where there is none; reading a property of \<open>undefined\<close> or
  \<open>null\<close> throws.
\<close>

definition js_index :: "jsval \<Rightarrow> nat \<Rightarrow> error + jsval" where
  "js_index a i =
     (case a of
        JUndefined \<Rightarrow> Inl (TypeError ''Cannot read properties of undefined'')
      | JNull \<Rightarrow> Inl (TypeError ''Cannot read properties of null'')
      | JArr xs \<Rightarrow> Inr (if i < length xs then xs ! i else JUndefined)
      | JStr s \<Rightarrow> Inr (if i < length s then JStr [s ! i] else JUndefined)
      | JObj ps \<Rightarrow> Inr (case map_of ps (showNat i) of None \<Rightarrow> JUndefined | Some v \<Rightarrow> v)
      | _ \<Rightarrow> Inr JUndefined)"

text \<open>\<open>set.has(v)\<close> for a set of strings, and the text of a value that is a string.\<close>

definition hasName :: "string list \<Rightarrow> jsval \<Rightarrow> bool" where
  "hasName names v = (case v of JStr n \<Rightarrow> n \<in> set names | _ \<Rightarrow> False)"

definition nameText :: "jsval \<Rightarrow> string" where
  "nameText v = (case v of JStr n \<Rightarrow> n | _ \<Rightarrow> [])"

subsection \<open>Helpers imported from \<open>app/common/DocActions\<close>, \<open>RowAccess\<close> and \<open>gutil\<close>\<close>

text \<open>
  Modelled from the spec: \<open>getTableId\<close> (the module \<open>app/common/DocActions\<close> is not
  part of the sources; "every action carries a tableId recoverable by a pure function",
  which is element 1 of the action).
\<close>

fun getTableId :: "doc_action \<Rightarrow> string" where
  "getTableId (AddRecord t r c) = t"
| "getTableId (BulkAddRecord t rs c) = t"
| "getTableId (UpdateRecord t r c) = t"
| "getTableId (BulkUpdateRecord t rs c) = t"
| "getTableId (RemoveRecord t r) = t"
| "getTableId (BulkRemoveRecord t rs) = t"
| "getTableId (ReplaceTableData t rs c) = t"
| "getTableId (TableData t rs c) = t"
| "getTableId (AddTable t) = t"
| "getTableId (RemoveTable t) = t"
| "getTableId (RenameTable t n) = t"
| "getTableId (AddColumn t c i) = t"
| "getTableId (RemoveColumn t c) = t"
| "getTableId (RenameColumn t c n) = t"
| "getTableId (ModifyColumn t c i) = t"

text \<open>
  Modelled from the spec: \<open>isSchemaAction\<close> (module \<open>app/common/DocActions\<close>): the
  schema operations are \<open>AddTable\<close>, \<open>RemoveTable\<close>, \<open>RenameTable\<close>, \<open>AddColumn\<close>,
  \<open>RemoveColumn\<close>, \<open>RenameColumn\<close> and \<open>ModifyColumn\<close>.
\<close>

fun isSchemaAction :: "doc_action \<Rightarrow> bool" where
  "isSchemaAction (AddTable t) = True"
| "isSchemaAction (RemoveTable t) = True"
| "isSchemaAction (RenameTable t n) = True"
| "isSchemaAction (AddColumn t c i) = True"
| "isSchemaAction (RemoveColumn t c) = True"
| "isSchemaAction (RenameColumn t c n) = True"
| "isSchemaAction (ModifyColumn t c i) = True"
| "isSchemaAction a = False"

text \<open>
  Modelled from the spec: \<open>getRowIdsFromDocAction\<close> (module \<open>app/server/lib/RowAccess\<close>):
  the row ids an action touches, element 2 of a row operation, a single id counting as
  a list of one. The source calls it on row operations only; for a schema operation the
  model answers the empty list.
\<close>

fun getRowIdsFromDocAction :: "doc_action \<Rightarrow> int list" where
  "getRowIdsFromDocAction (AddRecord t r c) = [r]"
| "getRowIdsFromDocAction (BulkAddRecord t rs c) = rs"
| "getRowIdsFromDocAction (UpdateRecord t r c) = [r]"
| "getRowIdsFromDocAction (BulkUpdateRecord t rs c) = rs"
| "getRowIdsFromDocAction (RemoveRecord t r) = [r]"
| "getRowIdsFromDocAction (BulkRemoveRecord t rs) = rs"
| "getRowIdsFromDocAction (ReplaceTableData t rs c) = rs"
| "getRowIdsFromDocAction (TableData t rs c) = rs"
| "getRowIdsFromDocAction a = []"

text \<open>The name of an action, element 0 of the array.\<close>

fun actionName :: "doc_action \<Rightarrow> string" where
  "actionName (AddRecord t r c) = ''AddRecord''"
| "actionName (BulkAddRecord t rs c) = ''BulkAddRecord''"
| "actionName (UpdateRecord t r c) = ''UpdateRecord''"
| "actionName (BulkUpdateRecord t rs c) = ''BulkUpdateRecord''"
| "actionName (RemoveRecord t r) = ''RemoveRecord''"
| "actionName (BulkRemoveRecord t rs) = ''BulkRemoveRecord''"
| "actionName (ReplaceTableData t rs c) = ''ReplaceTableData''"
| "actionName (TableData t rs c) = ''TableData''"
| "actionName (AddTable t) = ''AddTable''"
| "actionName (RemoveTable t) = ''RemoveTable''"
| "actionName (RenameTable t n) = ''RenameTable''"
| "actionName (AddColumn t c i) = ''AddColumn''"
| "actionName (RemoveColumn t c) = ''RemoveColumn''"
| "actionName (RenameColumn t c n) = ''RenameColumn''"
| "actionName (ModifyColumn t c i) = ''ModifyColumn''"

subsection \<open>The constant sets of the module\<close>

definition ACTION_WITH_TABLE_ID :: "string list" where
  "ACTION_WITH_TABLE_ID =
     [''AddRecord'', ''BulkAddRecord'', ''UpdateRecord'', ''BulkUpdateRecord'',
      ''RemoveRecord'', ''BulkRemoveRecord'', ''ReplaceTableData'', ''TableData'']"

definition isDataActionName :: "string \<Rightarrow> bool" where
  "isDataActionName n = (n \<in> set ACTION_WITH_TABLE_ID)"

definition isDataAction :: "doc_action \<Rightarrow> bool" where
  "isDataAction a = isDataActionName (actionName a)"

definition isAclTable :: "string \<Rightarrow> bool" where
  "isAclTable tableId = (tableId \<in> set [''_grist_ACLRules'', ''_grist_ACLResources''])"

definition STRUCTURAL_TABLES :: "string list" where
  "STRUCTURAL_TABLES =
     [''_grist_Tables'', ''_grist_Tables_column'', ''_grist_Views'',
      ''_grist_Views_section'', ''_grist_Views_section_field'',
      ''_grist_ACLResources'', ''_grist_ACLRules'']"

definition SPECIAL_ACTIONS :: "string list" where
  "SPECIAL_ACTIONS =
     [''InitNewDoc'', ''EvalCode'', ''SetDisplayFormula'', ''UpdateSummaryViewSection'',
      ''DetachSummaryViewSection'', ''GenImporterView'', ''TransformAndFinishImport'',
      ''AddView'', ''CopyFromColumn'', ''AddHiddenColumn'']"

definition SURPRISING_ACTIONS :: "string list" where
  "SURPRISING_ACTIONS = [''RemoveView'', ''AddViewSection'']"

definition OK_ACTIONS :: "string list" where
  "OK_ACTIONS = [''Calculate'']"

subsection \<open>\<open>scanActionsRecursively\<close>\<close>

text \<open>
  The loop of the source returns from inside its body: at the first element that is an
  \<open>ApplyUndoActions\<close> or \<open>ApplyDocActions\<close> container the answer is that of the
  container's payload, and the rest of the list is not looked at. The payload is
  iterated with \<open>for ... of\<close>: an array gives its elements, a string its characters
  (none of which is a container, so each is handed to the check), and any other value
  is not iterable. An exception of the check is passed on.
\<close>

definition isContainer :: "jsval \<Rightarrow> bool" where
  "isContainer name = (name = JStr ''ApplyUndoActions'' \<or> name = JStr ''ApplyDocActions'')"

fun scanChars :: "string \<Rightarrow> (jsval \<Rightarrow> error + bool) \<Rightarrow> error + bool" where
  "scanChars [] check = Inr False"
| "scanChars (c # rest) check =
     (case check (JStr [c]) of
        Inl e \<Rightarrow> Inl e
      | Inr found \<Rightarrow> if found then Inr True else scanChars rest check)"

function (sequential) scanActionsRecursively ::
  "jsval list \<Rightarrow> (jsval \<Rightarrow> error + bool) \<Rightarrow> error + bool" where
  "scanActionsRecursively [] check = Inr False"
| "scanActionsRecursively (a # rest) check =
     (case js_index a 0 of
        Inl e \<Rightarrow> Inl e
      | Inr name \<Rightarrow>
          if isContainer name then
            (case js_index a 1 of
               Inl e \<Rightarrow> Inl e
             | Inr (JArr actions) \<Rightarrow> scanActionsRecursively actions check
             | Inr (JStr s) \<Rightarrow> scanChars s check
             | Inr other \<Rightarrow> Inl (TypeError ''actions is not iterable''))
          else
            (case check a of
               Inl e \<Rightarrow> Inl e
             | Inr found \<Rightarrow> if found then Inr True else scanActionsRecursively rest check))"
  by pat_completeness auto

termination
proof -
  have lookup: "size v < Suc (size_list (size_prod (\<lambda>_. 0) size) ps)"
    if "map_of ps k = Some v" for ps :: "(string \<times> jsval) list" and k v
    using that by (induction ps) (auto split: if_splits)
  have element: "size v \<le> size a" if idx: "js_index a i = Inr v" for a i v
  proof (cases a)
    case (JArr xs)
    have "v = (if i < length xs then xs ! i else JUndefined)"
      using idx JArr by (simp add: js_index_def)
    then show ?thesis using JArr
      by (auto simp: less_Suc_eq_le
          intro!: le_SucI size_list_estimation'[where f = size and y = "size (xs ! i)" and x = "xs ! i"])
  next
    case (JObj ps)
    then show ?thesis using idx lookup[of ps "showNat i" v]
      by (auto simp: js_index_def split: option.splits)
  qed (use idx in \<open>auto simp: js_index_def split: if_splits\<close>)
  show ?thesis
  proof (relation "measure (\<lambda>(actions, check). size_list size actions)")
    show "wf (measure (\<lambda>(actions, check). size_list size actions))" by simp
  next
    fix a :: jsval and rest :: "jsval list" and check :: "jsval \<Rightarrow> error + bool"
      and v actions
    assume "js_index a 1 = Inr v" "v = JArr actions"
    then have "size (JArr actions) \<le> size a" using element by blast
    then show "((actions, check), a # rest, check)
                 \<in> measure (\<lambda>(actions, check). size_list size actions)"
      by simp
  next
    fix a :: jsval and rest :: "jsval list" and check :: "jsval \<Rightarrow> error + bool"
    show "((rest, check), a # rest, check)
            \<in> measure (\<lambda>(actions, check). size_list size actions)"
      by simp
  qed
qed


section \<open>Sessions, users, rules and the engine\<close>

subsection \<open>Sessions and users\<close>

datatype role = Owners | Editors | Viewers | Guests | Members

text \<open>\<open>FullUser\<close>: the fields the engine reads.\<close>

record full_user =
  fu_id :: nat
  fu_email :: string
  fu_name :: string

text \<open>\<open>UserOverride\<close>: the identity an owner views the document as.\<close>

record user_override =
  ov_access :: "role option"
  ov_user :: "full_user option"

text \<open>
  An \<open>OptDocSession\<close>, as far as the engine reads it. The session caches are
  \<open>WeakMap\<close>s keyed by the session object; \<open>sid\<close> stands for the object's identity.
  \<open>linkParameters\<close> is \<open>docSession.authorizer?.getLinkParameters()\<close> (\<open>None\<close> when
  there is no authorizer), \<open>sessAccess\<close> is \<open>getDocSessionAccess(docSession)\<close>,
  \<open>sessUser\<close> is \<open>getDocSessionUser(docSession)\<close> and \<open>reqOrigin\<close> is
  \<open>docSession.req?.get('origin')\<close>; the functions belong to \<open>app/server/lib/DocSession\<close>,
  outside the sources, and their results are taken as data of the session.
\<close>

record session =
  sid :: nat
  linkParameters :: "(string \<times> string) list option"
  sessAccess :: role
  sessUser :: "full_user option"
  reqOrigin :: "string option"

text \<open>
  \<open>RecordView\<close>: a row-shaped view of a columnar table, with an index that may be
  \<open>undefined\<close>; \<open>EmptyRecordView\<close> has no data at all.
\<close>

datatype info_view = RecordView table_data "nat option" | EmptyRecordView

text \<open>\<open>UserAttributes\<close>: the cache of user attributes of one session.\<close>

record user_attributes =
  ua_rows :: "(string \<times> info_view) list"
  ua_override :: "user_override option"

definition newUserAttributes :: user_attributes where
  "newUserAttributes = \<lparr>ua_rows = [], ua_override = None\<rparr>"

text \<open>
  \<open>UserInfo\<close>: the six built-in fields, and the attributes added by user-attribute
  rules, in the order in which they were added.
\<close>

record user_info =
  u_Access :: "role option"
  u_UserID :: "nat option"
  u_Email :: "string option"
  u_Name :: "string option"
  u_LinkKey :: "(string \<times> string) list"
  u_Origin :: "string option"
  u_attrs :: "(string \<times> info_view) list"

text \<open>\<open>AclMatchInput\<close>: what a rule predicate is evaluated on.\<close>

record acl_input =
  in_user :: user_info
  in_rec :: "info_view option"
  in_newRec :: "info_view option"

subsection \<open>Permissions and rules\<close>

datatype perm = Allow | Deny | Mixed | MixedColumns

datatype access_kind = AccRead | AccUpdate | AccCreate | AccDelete | AccSchemaEdit

record perm_set =
  p_read :: perm
  p_update :: perm
  p_create :: perm
  p_delete :: perm
  p_schemaEdit :: perm

text \<open>\<open>PermissionSetWithContext\<close>: the verdicts, the rule type and the memos.\<close>

record perm_ctx =
  perms :: perm_set
  ruleType :: string
  getMemos :: "access_kind \<Rightarrow> string list"

text \<open>A user-attribute rule \<open>{name, tableId, lookupColId, charId}\<close>.\<close>

record user_attr_rule =
  uar_name :: string
  uar_tableId :: string
  uar_lookupColId :: string
  uar_charId :: string

text \<open>
  \<open>ACLRuleCollection\<close> and \<open>PermissionInfo\<close> are imported by the source and are not
  part of it. A rule collection is taken as given: whether it has rules, its rule error,
  its user-attribute rules, and the verdicts that \<open>new PermissionInfo(ruleCollection,
  input)\<close> computes for a table, a column and the whole document (the memoisation
  inside \<open>PermissionInfo\<close> does not change a verdict).
\<close>

record rule_collection =
  rc_haveRules :: bool
  rc_ruleError :: "string option"
  rc_userAttributeRules :: "user_attr_rule list"
  rc_tableAccess :: "acl_input \<Rightarrow> string \<Rightarrow> perm_ctx"
  rc_columnAccess :: "acl_input \<Rightarrow> string \<Rightarrow> string \<Rightarrow> perm_ctx"
  rc_fullAccess :: "acl_input \<Rightarrow> perm_ctx"

text \<open>A \<open>PermissionInfo\<close> object: the rule collection and the input it was built on.\<close>

record permission_info =
  pi_rules :: rule_collection
  pi_input :: acl_input

definition getTableAccess :: "permission_info \<Rightarrow> string \<Rightarrow> perm_ctx" where
  "getTableAccess pinfo tableId = rc_tableAccess (pi_rules pinfo) (pi_input pinfo) tableId"

definition getColumnAccess :: "permission_info \<Rightarrow> string \<Rightarrow> string \<Rightarrow> perm_ctx" where
  "getColumnAccess pinfo tableId colId =
     rc_columnAccess (pi_rules pinfo) (pi_input pinfo) tableId colId"

definition getFullAccess :: "permission_info \<Rightarrow> perm_ctx" where
  "getFullAccess pinfo = rc_fullAccess (pi_rules pinfo) (pi_input pinfo)"

text \<open>
  \<open>Ruler\<close>: a rule collection and the cache of \<open>PermissionInfo\<close> per session. The
  cache holds promises, and a promise that was rejected stays in the cache: an entry is
  an error or a \<open>PermissionInfo\<close>.
\<close>

record ruler =
  ruleCollection :: rule_collection
  permissionInfoMap :: "session \<Rightarrow> (error + permission_info) option"

subsection \<open>Bundles, steps and the engine\<close>

record active_bundle =
  b_docSession :: session
  b_userActions :: "jsval list"
  b_docActions :: "doc_action list"
  b_undo :: "doc_action list"
  b_applied :: bool
  b_hasDeliberateRuleChange :: bool

text \<open>
  \<open>ActionStep\<close>. A step's ruler is kept as its rule collection; the cache of a step's
  ruler only saves recomputation and is not modelled.
\<close>

record action_step =
  st_action :: doc_action
  st_rowsBefore :: "table_data option"
  st_rowsAfter :: "table_data option"
  st_rowsLast :: "table_data option"
  st_metaBefore :: "(string \<times> table_data) list option"
  st_metaAfter :: "(string \<times> table_data) list option"
  st_ruler :: "rule_collection option"

text \<open>A query \<open>{tableId, filters}\<close> for \<open>fetchQueryFromDB\<close>.\<close>

record query =
  q_tableId :: string
  q_filters :: "(string \<times> cell list) list"

text \<open>
  The engine: the private fields of \<open>GranularAccess\<close>. \<open>eng_steps\<close> is a promise or
  \<open>null\<close>; a promise is settled with an error or with the steps. \<open>docData\<close>, the home
  database and the document clients are collaborators outside the sources: the document
  data is an opaque snapshot of tables, and of the home database the engine keeps the
  one lookup it makes, from the link parameters to the overriding identity.
\<close>

record engine =
  eng_ruler :: ruler
  userAttributesMap :: "session \<Rightarrow> user_attributes option"
  prevUserAttributesMap :: "(session \<Rightarrow> user_attributes option) option"
  eng_steps :: "(error + action_step list) option"
  activeBundle :: "active_bundle option"
  docData :: "(string \<times> table_data) list"
  fetchQueryFromDB :: "query \<Rightarrow> error + table_data"
  recoveryMode :: bool
  homeDbManager :: "((string \<times> string) list \<Rightarrow> error + user_override) option"
  docId :: string

section \<open>The bundle lifecycle\<close>

subsection \<open>\<open>getGranularAccessForBundle\<close>\<close>

text \<open>
  The bundle is stored with the flag \<open>false\<close> first; the scan runs after the
  assignment, so an exception of the scan leaves that bundle in place.
\<close>

definition getGranularAccessForBundle ::
  "engine \<Rightarrow> session \<Rightarrow> doc_action list \<Rightarrow> doc_action list \<Rightarrow> jsval list
   \<Rightarrow> (error + unit) \<times> engine" where
  "getGranularAccessForBundle g docSession docActions undo userActions =
     (case activeBundle g of
        Some b \<Rightarrow> (Inl (Error ''Cannot start a bundle while one is already in progress''), g)
      | None \<Rightarrow>
          (let b = \<lparr>b_docSession = docSession, b_userActions = userActions,
                    b_docActions = docActions, b_undo = undo, b_applied = False,
                    b_hasDeliberateRuleChange = False\<rparr>;
               g1 = g\<lparr>activeBundle := Some b\<rparr>
           in case scanActionsRecursively userActions
                     (\<lambda>a. case js_index a 1 of
                             Inl e \<Rightarrow> Inl e
                           | Inr v \<Rightarrow> (case js_String v of
                                         Inl e \<Rightarrow> Inl e
                                       | Inr tableId \<Rightarrow> Inr (isAclTable tableId))) of
                Inl e \<Rightarrow> (Inl e, g1)
              | Inr flag \<Rightarrow>
                  (Inr (), g1\<lparr>activeBundle := Some (b\<lparr>b_hasDeliberateRuleChange := flag\<rparr>)\<rparr>)))"

text \<open>
  The reading of the specification: some user action of the list targets an ACL table,
  where the payload of every \<open>ApplyUndoActions\<close> and \<open>ApplyDocActions\<close> container is
  searched too, at any depth and at any position of the list.
\<close>

fun spec_targetsAclTable :: "jsval \<Rightarrow> bool" where
  "spec_targetsAclTable (JArr (name # payload # rest)) =
     (if isContainer name then
        (case payload of JArr actions \<Rightarrow> list_ex spec_targetsAclTable actions | _ \<Rightarrow> False)
      else (case js_String payload of Inl e \<Rightarrow> False | Inr tableId \<Rightarrow> isAclTable tableId))"
| "spec_targetsAclTable a = False"

definition spec_hasDeliberateRuleChange :: "jsval list \<Rightarrow> bool" where
  "spec_hasDeliberateRuleChange userActions = list_ex spec_targetsAclTable userActions"

section \<open>Users and permissions of a session\<close>

subsection \<open>Collaborators outside the sources\<close>

text \<open>
  Code the engine calls and the sources do not contain, taken as parameters:
  \<open>canView\<close> is the function of that name of \<open>app/common/roles\<close>; \<open>aclUpdate\<close> is \<open>ACLRuleCollection.update(docData, ...)\<close>, the rule collection read from
  the document data (Modelled from the spec: it "must expose a ruleError field rather
  than throwing", so the update always returns); \<open>buildSteps\<close> is the body of
  \<open>_getUncachedSteps\<close> after its check for an active bundle, which replays the actions on
  \<open>DocData\<close> objects; \<open>lodashGet\<close> is lodash's \<open>get(user, path)\<close>; \<open>JSON_stringify\<close> is
  \<open>JSON.stringify\<close> on the object a \<open>toJSON\<close> method returns; \<open>firstRejection\<close>
  is the scheduler of promises, as far as \<open>Promise.all\<close> depends on it: of the
  exceptions of the promises that are rejected, given in the order of the array, it
  picks the one that is thrown first in time.
\<close>

record collaborators =
  canView :: "role option \<Rightarrow> bool"
  aclUpdate :: "(string \<times> table_data) list \<Rightarrow> rule_collection"
  buildSteps :: "engine \<Rightarrow> active_bundle \<Rightarrow> error + action_step list"
  lodashGet :: "user_info \<Rightarrow> string \<Rightarrow> cell"
  JSON_stringify :: "(string \<times> cell) list \<Rightarrow> string"
  firstRejection :: "error list \<Rightarrow> error"

subsection \<open>\<open>RecordView\<close>\<close>

text \<open>\<open>xs[i]\<close> on a JavaScript array: \<open>undefined\<close> outside the array.\<close>

definition js_nth :: "cell list \<Rightarrow> nat \<Rightarrow> cell" where
  "js_nth xs i = (if i < length xs then xs ! i else CUndefined)"

text \<open>\<open>RecordView.get\<close> and \<open>EmptyRecordView.get\<close>.\<close>

fun view_get :: "info_view \<Rightarrow> string \<Rightarrow> cell" where
  "view_get EmptyRecordView colId = CNull"
| "view_get (RecordView d None) colId = CNull"
| "view_get (RecordView d (Some i)) colId =
     (if colId = ''id'' then
        (if i < length (td_rowIds d) then CNum (td_rowIds d ! i) else CUndefined)
      else (case map_of (td_columns d) colId of
              None \<Rightarrow> CUndefined
            | Some vs \<Rightarrow> js_nth vs i))"

text \<open>\<open>RecordView.toJSON\<close> and \<open>EmptyRecordView.toJSON\<close>.\<close>

fun view_toJSON :: "info_view \<Rightarrow> (string \<times> cell) list" where
  "view_toJSON EmptyRecordView = []"
| "view_toJSON (RecordView d None) = []"
| "view_toJSON (RecordView d (Some i)) = map (\<lambda>(key, vs). (key, js_nth vs i)) (td_columns d)"

subsection \<open>\<open>_getUserAttributes\<close> and \<open>_getUser\<close>\<close>

text \<open>
  \<open>getSetMapValue\<close> on the attribute cache: the entry of the session, created empty
  when there is none. The source then mutates the entry in place; the model writes the
  changed entry back with \<open>setUserAttributes\<close>.
\<close>

definition getUserAttributes :: "engine \<Rightarrow> session \<Rightarrow> user_attributes \<times> engine" where
  "getUserAttributes g docSession =
     (case userAttributesMap g docSession of
        Some a \<Rightarrow> (a, g)
      | None \<Rightarrow>
          (newUserAttributes,
           g\<lparr>userAttributesMap := (userAttributesMap g)(docSession \<mapsto> newUserAttributes)\<rparr>))"

definition setUserAttributes :: "engine \<Rightarrow> session \<Rightarrow> user_attributes \<Rightarrow> engine" where
  "setUserAttributes g docSession a =
     g\<lparr>userAttributesMap := (userAttributesMap g)(docSession \<mapsto> a)\<rparr>"

text \<open>A string that JavaScript counts as true: present and not empty.\<close>

definition truthy :: "string option \<Rightarrow> bool" where
  "truthy v = (case v of None \<Rightarrow> False | Some s \<Rightarrow> s \<noteq> [])"

text \<open>
  \<open>clause.name in user\<close>: the six built-in fields, the attributes added so far, and the
  properties every object inherits from \<open>Object.prototype\<close>.
\<close>

definition objectPrototypeNames :: "string list" where
  "objectPrototypeNames =
     [''constructor'', ''toString'', ''toLocaleString'', ''valueOf'', ''hasOwnProperty'',
      ''isPrototypeOf'', ''propertyIsEnumerable'', ''__proto__'', ''__defineGetter__'',
      ''__defineSetter__'', ''__lookupGetter__'', ''__lookupSetter__'']"

definition inUser :: "string \<Rightarrow> user_info \<Rightarrow> bool" where
  "inUser name user =
     (name \<in> set [''Access'', ''UserID'', ''Email'', ''Name'', ''LinkKey'', ''Origin'']
      \<or> name \<in> set (map fst (u_attrs user))
      \<or> name \<in> set objectPrototypeNames)"

text \<open>
  The loop of \<open>_getUser\<close> over the user-attribute rules. A query that throws is logged
  and leaves the attribute an empty record.
\<close>

fun attributeLoop ::
  "collaborators \<Rightarrow> engine \<Rightarrow> user_attr_rule list \<Rightarrow> user_info \<Rightarrow> user_attributes
   \<Rightarrow> user_info \<times> user_attributes" where
  "attributeLoop X g [] user attrs = (user, attrs)"
| "attributeLoop X g (clause # rest) user attrs =
     (if inUser (uar_name clause) user then attributeLoop X g rest user attrs
      else
        (case map_of (ua_rows attrs) (uar_name clause) of
           Some r \<Rightarrow>
             attributeLoop X g rest (user\<lparr>u_attrs := u_attrs user @ [(uar_name clause, r)]\<rparr>) attrs
         | None \<Rightarrow>
             (let rows = fetchQueryFromDB g
                    \<lparr>q_tableId = uar_tableId clause,
                     q_filters = [(uar_lookupColId clause, [lodashGet X user (uar_charId clause)])]\<rparr>;
                  r = (case rows of
                         Inl e \<Rightarrow> EmptyRecordView
                       | Inr d \<Rightarrow> if length (td_rowIds d) > 0 then RecordView d (Some 0)
                                 else EmptyRecordView)
              in attributeLoop X g rest
                   (user\<lparr>u_attrs := u_attrs user @ [(uar_name clause, r)]\<rparr>)
                   (attrs\<lparr>ua_rows := ua_rows attrs @ [(uar_name clause, r)]\<rparr>))))"

text \<open>
  The second half of \<open>_getUser\<close>, from \<open>const user: UserInfo = {}\<close> on. \<open>x || null\<close>
  turns the id 0 and the empty string into \<open>null\<close>.
\<close>

definition buildUser ::
  "collaborators \<Rightarrow> engine \<Rightarrow> session \<Rightarrow> user_attributes \<Rightarrow> role option
   \<Rightarrow> full_user option \<Rightarrow> (error + user_info) \<times> engine" where
  "buildUser X g docSession attrs access fullUser =
     (let user =
            \<lparr>u_Access = access,
             u_UserID = (case fullUser of None \<Rightarrow> None
                         | Some f \<Rightarrow> if fu_id f = 0 then None else Some (fu_id f)),
             u_Email = (case fullUser of None \<Rightarrow> None
                        | Some f \<Rightarrow> if fu_email f = [] then None else Some (fu_email f)),
             u_Name = (case fullUser of None \<Rightarrow> None
                       | Some f \<Rightarrow> if fu_name f = [] then None else Some (fu_name f)),
             u_LinkKey = (case linkParameters docSession of None \<Rightarrow> [] | Some p \<Rightarrow> p),
             u_Origin = (case reqOrigin docSession of None \<Rightarrow> None
                         | Some p \<Rightarrow> if p = [] then None else Some p),
             u_attrs = []\<rparr>
      in case rc_ruleError (ruleCollection (eng_ruler g)) of
           Some m \<Rightarrow>
             if \<not> recoveryMode g then (Inl (RuleError m), g)
             else (case attributeLoop X g (rc_userAttributeRules (ruleCollection (eng_ruler g)))
                          user attrs of
                     (user', attrs') \<Rightarrow> (Inr user', setUserAttributes g docSession attrs'))
         | None \<Rightarrow>
             (case attributeLoop X g (rc_userAttributeRules (ruleCollection (eng_ruler g)))
                     user attrs of
                (user', attrs') \<Rightarrow> (Inr user', setUserAttributes g docSession attrs')))"

text \<open>
  \<open>_getUser\<close>. With \<open>aclAsUserId\<close> or \<open>aclAsUser\<close> among the link parameters the user
  is overridden: only for an owner, from the cached override when there is one, else by
  the lookup in the home database, whose result is cached.
\<close>

definition getUser ::
  "collaborators \<Rightarrow> engine \<Rightarrow> session \<Rightarrow> (error + user_info) \<times> engine" where
  "getUser X g0 docSession =
     (let lp = (case linkParameters docSession of None \<Rightarrow> [] | Some p \<Rightarrow> p) in
      case getUserAttributes g0 docSession of
        (attrs, g) \<Rightarrow>
          if truthy (map_of lp ''aclAsUserId'') \<or> truthy (map_of lp ''aclAsUser'') then
            (if sessAccess docSession \<noteq> Owners then
               (Inl (Error ''only an owner can override user''), g)
             else
               (case ua_override attrs of
                  Some ov \<Rightarrow> buildUser X g docSession attrs (ov_access ov) (ov_user ov)
                | None \<Rightarrow>
                    (case homeDbManager g of
                       None \<Rightarrow> (Inl (Error ''database required''), g)
                     | Some db \<Rightarrow>
                         (case db lp of
                            Inl e \<Rightarrow> (Inl e, g)
                          | Inr ov \<Rightarrow>
                              buildUser X
                                (setUserAttributes g docSession (attrs\<lparr>ua_override := Some ov\<rparr>))
                                docSession (attrs\<lparr>ua_override := Some ov\<rparr>)
                                (ov_access ov) (ov_user ov)))))
          else buildUser X g docSession attrs (Some (sessAccess docSession)) (sessUser docSession))"

subsection \<open>\<open>Ruler.getAccess\<close>, \<open>_getAccess\<close> and the role of a session\<close>

text \<open>
  \<open>_getAccess\<close> is \<open>this._ruler.getAccess(docSession)\<close>: the cached entry of the
  session, or a new \<open>PermissionInfo\<close> on the user that \<open>_getUser\<close> resolves, cached
  whether the promise is fulfilled or rejected.
\<close>

definition getAccess ::
  "collaborators \<Rightarrow> engine \<Rightarrow> session \<Rightarrow> (error + permission_info) \<times> engine" where
  "getAccess X g docSession =
     (case permissionInfoMap (eng_ruler g) docSession of
        Some r \<Rightarrow> (r, g)
      | None \<Rightarrow>
          (case getUser X g docSession of
             (res, g1) \<Rightarrow>
               (let r = (case res of
                           Inl e \<Rightarrow> Inl e
                         | Inr user \<Rightarrow>
                             Inr \<lparr>pi_rules = ruleCollection (eng_ruler g1),
                                  pi_input = \<lparr>in_user = user, in_rec = None, in_newRec = None\<rparr>\<rparr>)
                in (r, g1\<lparr>eng_ruler := (eng_ruler g1)
                          \<lparr>permissionInfoMap :=
                             (permissionInfoMap (eng_ruler g1))(docSession \<mapsto> r)\<rparr>\<rparr>))))"

definition getNominalAccess ::
  "collaborators \<Rightarrow> engine \<Rightarrow> session \<Rightarrow> (error + role option) \<times> engine" where
  "getNominalAccess X g docSession =
     (let lp = (case linkParameters docSession of None \<Rightarrow> [] | Some p \<Rightarrow> p) in
      if truthy (map_of lp ''aclAsUserId'') \<or> truthy (map_of lp ''aclAsUser'') then
        (case getUser X g docSession of
           (Inl e, g1) \<Rightarrow> (Inl e, g1)
         | (Inr info, g1) \<Rightarrow> (Inr (u_Access info), g1))
      else (Inr (Some (sessAccess docSession)), g))"

definition isOwner :: "collaborators \<Rightarrow> engine \<Rightarrow> session \<Rightarrow> (error + bool) \<times> engine" where
  "isOwner X g docSession =
     (case getNominalAccess X g docSession of
        (Inl e, g1) \<Rightarrow> (Inl e, g1)
      | (Inr access, g1) \<Rightarrow> (Inr (access = Some Owners), g1))"

definition hasFullAccess :: "collaborators \<Rightarrow> engine \<Rightarrow> session \<Rightarrow> (error + bool) \<times> engine" where
  "hasFullAccess X g docSession = isOwner X g docSession"

definition haveRules :: "engine \<Rightarrow> bool" where
  "haveRules g = rc_haveRules (ruleCollection (eng_ruler g))"

definition hasNuancedAccess ::
  "collaborators \<Rightarrow> engine \<Rightarrow> session \<Rightarrow> (error + bool) \<times> engine" where
  "hasNuancedAccess X g docSession =
     (if \<not> haveRules g then (Inr False, g)
      else (case hasFullAccess X g docSession of
              (Inl e, g1) \<Rightarrow> (Inl e, g1)
            | (Inr full, g1) \<Rightarrow> (Inr (\<not> full), g1)))"

text \<open>
  Modelled from the spec: \<open>SPECIAL_RULES_TABLE_ID\<close>, a constant of
  \<open>app/common/ACLRuleCollection\<close>: the table id under which the special permissions
  (\<open>AccessRules\<close>, \<open>FullCopies\<close>) are looked up. No property depends on its value.
\<close>

definition SPECIAL_RULES_TABLE_ID :: string where
  "SPECIAL_RULES_TABLE_ID = ''*SPECIAL''"

definition hasAccessRulesPermission ::
  "collaborators \<Rightarrow> engine \<Rightarrow> session \<Rightarrow> (error + bool) \<times> engine" where
  "hasAccessRulesPermission X g docSession =
     (case getAccess X g docSession of
        (Inl e, g1) \<Rightarrow> (Inl e, g1)
      | (Inr permInfo, g1) \<Rightarrow>
          (Inr (p_read (perms (getColumnAccess permInfo SPECIAL_RULES_TABLE_ID ''AccessRules''))
                = Allow), g1))"

subsection \<open>\<open>AccessCheck\<close>\<close>

datatype severity = Check | Fatal

record access_check =
  ac_access :: access_kind
  ac_severity :: severity

fun permOf :: "perm_set \<Rightarrow> access_kind \<Rightarrow> perm" where
  "permOf ps AccRead = p_read ps"
| "permOf ps AccUpdate = p_update ps"
| "permOf ps AccCreate = p_create ps"
| "permOf ps AccDelete = p_delete ps"
| "permOf ps AccSchemaEdit = p_schemaEdit ps"

definition throwIfDenied :: "access_check \<Rightarrow> perm_ctx \<Rightarrow> error + unit" where
  "throwIfDenied ac ps =
     (if permOf (perms ps) (ac_access ac) \<noteq> Deny then Inr ()
      else Inl (ACL_DENY (''Blocked by '' @ ruleType ps @ '' access rules'')
                  (getMemos ps (ac_access ac))))"

definition AccessCheck_get :: "access_check \<Rightarrow> perm_ctx \<Rightarrow> error + perm" where
  "AccessCheck_get ac ps =
     (let result = permOf (perms ps) (ac_access ac) in
      if result \<noteq> Deny \<or> ac_severity ac \<noteq> Fatal then Inr result
      else (case throwIfDenied ac ps of Inl e \<Rightarrow> Inl e | Inr u \<Rightarrow> Inr result))"

definition readAccessCheck :: access_check where
  "readAccessCheck = \<lparr>ac_access = AccRead, ac_severity = Check\<rparr>"

text \<open>\<open>getAccessForActionType\<close>, on the name and the table id of the action.\<close>

definition getAccessForActionType :: "string \<Rightarrow> string \<Rightarrow> severity \<Rightarrow> access_check" where
  "getAccessForActionType name tableId sev =
     (if tableId \<in> set STRUCTURAL_TABLES then \<lparr>ac_access = AccSchemaEdit, ac_severity = sev\<rparr>
      else if name = ''UpdateRecord'' \<or> name = ''BulkUpdateRecord''
        then \<lparr>ac_access = AccUpdate, ac_severity = sev\<rparr>
      else if name = ''RemoveRecord'' \<or> name = ''BulkRemoveRecord''
        then \<lparr>ac_access = AccDelete, ac_severity = sev\<rparr>
      else if name = ''AddRecord'' \<or> name = ''BulkAddRecord''
        then \<lparr>ac_access = AccCreate, ac_severity = sev\<rparr>
      else \<lparr>ac_access = AccSchemaEdit, ac_severity = sev\<rparr>)"

subsection \<open>The ingress check on user actions\<close>

definition startsWith :: "string \<Rightarrow> string \<Rightarrow> bool" where
  "startsWith s p = (take (length p) s = p)"

text \<open>
  \<open>assertCanMaybeApplyUserAction\<close> and \<open>assertCanMaybeApplyUserActions\<close>. The three
  sets are asked for element 0 itself, \<open>isDataAction\<close> for its \<open>String\<close>. The payload
  of a container is iterated with \<open>for ... of\<close>: the first character of a string
  payload is an action the check does not know, so the answer is \<open>false\<close> unless the
  string is empty, and a payload that is not iterable throws. The table id of a data
  action is element 1; calling \<open>startsWith\<close> on something that is not a string throws.
\<close>

function (sequential) assertCanMaybeApplyUserAction ::
    "collaborators \<Rightarrow> engine \<Rightarrow> session \<Rightarrow> jsval \<Rightarrow> (error + bool) \<times> engine"
  and assertCanMaybeApplyUserActions ::
    "collaborators \<Rightarrow> engine \<Rightarrow> session \<Rightarrow> jsval list \<Rightarrow> (error + bool) \<times> engine"
  where
  "assertCanMaybeApplyUserActions X g docSession [] = (Inr True, g)"
| "assertCanMaybeApplyUserActions X g docSession (a # rest) =
     (case assertCanMaybeApplyUserAction X g docSession a of
        (Inl e, g1) \<Rightarrow> (Inl e, g1)
      | (Inr ok, g1) \<Rightarrow>
          if \<not> ok then (Inr False, g1)
          else assertCanMaybeApplyUserActions X g1 docSession rest)"
| "assertCanMaybeApplyUserAction X g docSession a =
     (case js_index a 0 of
        Inl e \<Rightarrow> (Inl e, g)
      | Inr name \<Rightarrow>
          if hasName OK_ACTIONS name then (Inr True, g)
          else if hasName SPECIAL_ACTIONS name then
            (case hasNuancedAccess X g docSession of
               (Inl e, g1) \<Rightarrow> (Inl e, g1)
             | (Inr nuanced, g1) \<Rightarrow>
                 if nuanced then
                   (Inl (ACL_DENY (''Blocked by access rules: '' @ [CHR 0x27] @ nameText name
                                    @ [CHR 0x27] @ '' actions need uncomplicated access'') []), g1)
                 else (Inr True, g1))
          else if hasName SURPRISING_ACTIONS name then
            (case hasFullAccess X g docSession of
               (Inl e, g1) \<Rightarrow> (Inl e, g1)
             | (Inr full, g1) \<Rightarrow>
                 if \<not> full then
                   (Inl (ACL_DENY (''Blocked by access rules: '' @ [CHR 0x27] @ nameText name
                                    @ [CHR 0x27] @ '' actions need full access'') []), g1)
                 else (Inr True, g1))
          else if isContainer name then
            (case js_index a 1 of
               Inl e \<Rightarrow> (Inl e, g)
             | Inr (JArr actions) \<Rightarrow> assertCanMaybeApplyUserActions X g docSession actions
             | Inr (JStr s) \<Rightarrow> (Inr (s = []), g)
             | Inr other \<Rightarrow> (Inl (TypeError ''actions is not iterable''), g))
          else
            (case js_String name of
               Inl e \<Rightarrow> (Inl e, g)
             | Inr n \<Rightarrow>
                 if isDataActionName n then
                   (case js_index a 1 of
                      Inl e \<Rightarrow> (Inl e, g)
                    | Inr (JStr tableId) \<Rightarrow>
                        if startsWith tableId ''_grist_'' then (Inr False, g)
                        else
                          (case getAccess X g docSession of
                             (Inl e, g1) \<Rightarrow> (Inl e, g1)
                           | (Inr permInfo, g1) \<Rightarrow>
                               (case AccessCheck_get
                                       (getAccessForActionType (nameText name) tableId Fatal)
                                       (getTableAccess permInfo tableId) of
                                  Inl e \<Rightarrow> (Inl e, g1)
                                | Inr p \<Rightarrow> (Inr True, g1)))
                    | Inr other \<Rightarrow>
                        (Inl (TypeError ''tableId.startsWith is not a function''), g))
                 else (Inr False, g)))"
  by pat_completeness auto

termination
proof -
  have lookup: "size v < Suc (size_list (size_prod (\<lambda>_. 0) size) ps)"
    if "map_of ps k = Some v" for ps :: "(string \<times> jsval) list" and k v
    using that by (induction ps) (auto split: if_splits)
  have element: "size v \<le> size a" if idx: "js_index a i = Inr v" for a i v
  proof (cases a)
    case (JArr xs)
    have "v = (if i < length xs then xs ! i else JUndefined)"
      using idx JArr by (simp add: js_index_def)
    then show ?thesis using JArr
      by (auto simp: less_Suc_eq_le
          intro!: le_SucI size_list_estimation'[where f = size and y = "size (xs ! i)" and x = "xs ! i"])
  next
    case (JObj ps)
    then show ?thesis using idx lookup[of ps "showNat i" v]
      by (auto simp: js_index_def split: option.splits)
  qed (use idx in \<open>auto simp: js_index_def split: if_splits\<close>)
  show ?thesis
  proof (relation "measure (\<lambda>x. case x of
            Inl (X, g, docSession, a) \<Rightarrow> size a
          | Inr (X, g, docSession, actions) \<Rightarrow> size_list size actions)")
    show "wf (measure (\<lambda>x. case x of
            Inl (X, g, docSession, a) \<Rightarrow> size a
          | Inr (X, g, docSession, actions) \<Rightarrow> size_list size (actions :: jsval list)))"
      by simp
  next
    fix X :: collaborators and g :: engine and docSession :: session and a :: jsval
      and v actions
    assume "js_index a 1 = Inr v" "v = JArr actions"
    then have "size (JArr actions) \<le> size a" using element by blast
    then show "(Inr (X, g, docSession, actions), Inl (X, g, docSession, a))
         \<in> measure (\<lambda>x. case x of
            Inl (X, g, docSession, a) \<Rightarrow> size a
          | Inr (X, g, docSession, actions) \<Rightarrow> size_list size actions)"
      by simp
  qed simp_all
qed

subsection \<open>\<open>appliedBundle\<close>, \<open>finishedBundle\<close> and the rule updates\<close>

definition clearCache :: "ruler \<Rightarrow> ruler" where
  "clearCache r = r\<lparr>permissionInfoMap := (\<lambda>s. None)\<rparr>"

text \<open>\<open>Ruler.update\<close>: read the rules from the document data, then clear the cache.\<close>

definition Ruler_update :: "collaborators \<Rightarrow> ruler \<Rightarrow> (string \<times> table_data) list \<Rightarrow> ruler" where
  "Ruler_update X r dd = clearCache (r\<lparr>ruleCollection := aclUpdate X dd\<rparr>)"

text \<open>\<open>GranularAccess.update\<close>.\<close>

definition update :: "collaborators \<Rightarrow> engine \<Rightarrow> engine" where
  "update X g =
     g\<lparr>eng_ruler := Ruler_update X (eng_ruler g) (docData g),
       userAttributesMap := (\<lambda>s. None)\<rparr>"

definition updateRules :: "collaborators \<Rightarrow> engine \<Rightarrow> doc_action list \<Rightarrow> engine" where
  "updateRules X g docActions =
     (if list_ex (\<lambda>docAction. isAclTable (getTableId docAction)) docActions then update X g
      else if \<not> haveRules g then g
      else if list_ex isSchemaAction docActions then update X g
      else g)"

text \<open>
  The two tests of \<open>appliedBundle\<close>: some action is on a table that a user-attribute
  rule looks up, and some action is a schema action.
\<close>

definition attrChange :: "engine \<Rightarrow> doc_action list \<Rightarrow> bool" where
  "attrChange g docActions =
     (let attrs = map uar_tableId (rc_userAttributeRules (ruleCollection (eng_ruler g)))
      in list_ex (\<lambda>docAction. getTableId docAction \<in> set attrs) docActions)"

definition schemaChange :: "doc_action list \<Rightarrow> bool" where
  "schemaChange docActions = list_ex isSchemaAction docActions"

definition appliedBundle :: "engine \<Rightarrow> (error + unit) \<times> engine" where
  "appliedBundle g =
     (case activeBundle g of
        None \<Rightarrow> (Inl (Error ''no active bundle''), g)
      | Some b \<Rightarrow>
          (let docActions = b_docActions b;
               g1 = g\<lparr>activeBundle := Some (b\<lparr>b_applied := True\<rparr>)\<rparr>
           in if \<not> haveRules g1 then (Inr (), g1)
              else
                (let g2 = (if attrChange g1 docActions
                           then g1\<lparr>prevUserAttributesMap := Some (userAttributesMap g1),
                                   userAttributesMap := (\<lambda>s. None)\<rparr>
                           else g1)
                 in if attrChange g1 docActions \<or> schemaChange docActions
                    then (Inr (), g2\<lparr>eng_ruler := clearCache (eng_ruler g2)\<rparr>)
                    else (Inr (), g2))))"

definition finishedBundle :: "collaborators \<Rightarrow> engine \<Rightarrow> engine" where
  "finishedBundle X g =
     (case activeBundle g of
        None \<Rightarrow> g
      | Some b \<Rightarrow>
          (let g1 = (if b_applied b then updateRules X g (b_docActions b) else g)
           in g1\<lparr>eng_steps := None, prevUserAttributesMap := None, activeBundle := None\<rparr>))"

subsection \<open>Steps\<close>

text \<open>
  \<open>_getUncachedSteps\<close> throws when there is no active bundle; the rest of its body is
  the collaborator \<open>buildSteps\<close>. \<open>_getSteps\<close> stores the promise in \<open>_steps\<close> before
  it settles, so a rejected promise is stored too.
\<close>

definition getUncachedSteps :: "collaborators \<Rightarrow> engine \<Rightarrow> error + action_step list" where
  "getUncachedSteps X g =
     (case activeBundle g of
        None \<Rightarrow> Inl (Error ''no active bundle'')
      | Some b \<Rightarrow> buildSteps X g b)"

definition getSteps :: "collaborators \<Rightarrow> engine \<Rightarrow> (error + action_step list) \<times> engine" where
  "getSteps X g =
     (case eng_steps g of
        Some p \<Rightarrow> (p, g)
      | None \<Rightarrow> (getUncachedSteps X g, g\<lparr>eng_steps := Some (getUncachedSteps X g)\<rparr>))"

text \<open>
  \<open>_getStep\<close>: \<open>steps[cursor.actionIdx]\<close>, which is \<open>undefined\<close> (here \<open>None\<close>) beyond
  the end of the array. Reading a field of \<open>undefined\<close> throws a \<open>TypeError\<close> in the
  callers.
\<close>

definition getStep ::
  "collaborators \<Rightarrow> engine \<Rightarrow> nat option \<Rightarrow> (error + action_step option) \<times> engine" where
  "getStep X g actionIdx =
     (case actionIdx of
        None \<Rightarrow> (Inl (Error ''No step available''), g)
      | Some i \<Rightarrow>
          (case getSteps X g of
             (Inl e, g1) \<Rightarrow> (Inl e, g1)
           | (Inr steps, g1) \<Rightarrow>
               (Inr (if i < length steps then Some (steps ! i) else None), g1)))"

text \<open>\<open>_getRuler\<close>; the callers read the rule collection of the ruler only.\<close>

definition getRuler ::
  "collaborators \<Rightarrow> engine \<Rightarrow> nat option \<Rightarrow> (error + rule_collection) \<times> engine" where
  "getRuler X g actionIdx =
     (case actionIdx of
        None \<Rightarrow> (Inr (ruleCollection (eng_ruler g)), g)
      | Some i \<Rightarrow>
          (case eng_steps g of
             None \<Rightarrow> (Inl (Error ''No steps available''), g)
           | Some p \<Rightarrow>
               (case getStep X g actionIdx of
                  (Inl e, g1) \<Rightarrow> (Inl e, g1)
                | (Inr None, g1) \<Rightarrow> (Inl (TypeError ''step is undefined''), g1)
                | (Inr (Some step), g1) \<Rightarrow>
                    (case st_ruler step of
                       Some rc \<Rightarrow> (Inr rc, g1)
                     | None \<Rightarrow> (Inr (ruleCollection (eng_ruler g1)), g1)))))"

text \<open>
  \<open>_getStepAccess\<close>. A step with a ruler of its own asks that ruler, which resolves the
  user through the engine.
\<close>

definition getStepAccess ::
  "collaborators \<Rightarrow> engine \<Rightarrow> session \<Rightarrow> nat option \<Rightarrow> (error + permission_info) \<times> engine" where
  "getStepAccess X g docSession actionIdx =
     (case getStep X g actionIdx of
        (Inl e, g1) \<Rightarrow> (Inl e, g1)
      | (Inr None, g1) \<Rightarrow> (Inl (TypeError ''step is undefined''), g1)
      | (Inr (Some step), g1) \<Rightarrow>
          (case st_ruler step of
             Some rc \<Rightarrow>
               (case getUser X g1 docSession of
                  (Inl e, g2) \<Rightarrow> (Inl e, g2)
                | (Inr user, g2) \<Rightarrow>
                    (Inr \<lparr>pi_rules = rc,
                          pi_input = \<lparr>in_user = user, in_rec = None, in_newRec = None\<rparr>\<rparr>, g2))
           | None \<Rightarrow> getAccess X g1 docSession))"

subsection \<open>\<open>_checkUserAttributes\<close>\<close>

text \<open>
  The loop runs over the attributes the session has after \<open>_getAccess\<close> made sure they
  are computed, and looks each one up among the previous attributes. \<open>rows[name]\<close> is
  the entry of that name (the names stored by \<open>_getUser\<close> are never names of
  \<open>Object.prototype\<close>).
\<close>

definition attributeChanged ::
  "collaborators \<Rightarrow> user_attributes \<Rightarrow> string \<times> info_view \<Rightarrow> bool" where
  "attributeChanged X userAttrBefore entry =
     (case map_of (ua_rows userAttrBefore) (fst entry) of
        None \<Rightarrow> True
      | Some prev \<Rightarrow>
          JSON_stringify X (view_toJSON prev) \<noteq> JSON_stringify X (view_toJSON (snd entry)))"

definition checkUserAttributes ::
  "collaborators \<Rightarrow> engine \<Rightarrow> session \<Rightarrow> (error + unit) \<times> engine" where
  "checkUserAttributes X g docSession =
     (case prevUserAttributesMap g of
        None \<Rightarrow> (Inr (), g)
      | Some prevMap \<Rightarrow>
          (case prevMap docSession of
             None \<Rightarrow> (Inr (), g)
           | Some userAttrBefore \<Rightarrow>
               (case getAccess X g docSession of
                  (Inl e, g1) \<Rightarrow> (Inl e, g1)
                | (Inr permInfo, g1) \<Rightarrow>
                    (case getUserAttributes g1 docSession of
                       (userAttrAfter, g2) \<Rightarrow>
                         if list_ex (attributeChanged X userAttrBefore) (ua_rows userAttrAfter)
                         then (Inl (NEED_RELOAD ''document needs reload, user attributes changed''), g2)
                         else (Inr (), g2)))))"

section \<open>Rewriting actions for a viewer\<close>

subsection \<open>Action objects\<close>

text \<open>
  The filter receives action objects by reference, returns some of them as they are,
  copies others and writes into some in place. The store holds every action object;
  a reference is an index into it. \<open>cloneDeep\<close> allocates a copy; a new array literal
  allocates a new object.
\<close>

type_synonym store = "doc_action list"

definition alloc :: "store \<Rightarrow> doc_action \<Rightarrow> nat \<times> store" where
  "alloc h a = (length h, h @ [a])"

definition cloneDeep :: "store \<Rightarrow> nat \<Rightarrow> nat \<times> store" where
  "cloneDeep h r = alloc h (h ! r)"

subsection \<open>JavaScript sets and arrays\<close>

text \<open>A \<open>Set\<close> iterates in insertion order: a list without repetitions.\<close>

definition set_add :: "'a list \<Rightarrow> 'a \<Rightarrow> 'a list" where
  "set_add s x = (if x \<in> set s then s else s @ [x])"

definition new_Set :: "int list \<Rightarrow> int list" where
  "new_Set xs = foldl set_add [] xs"

text \<open>
  Modelled from the spec: \<open>pruneArray\<close> (module \<open>app/common/gutil\<close>): "remove indices
  from rowIds and from each column's value array in lockstep"; the elements at the given
  positions are removed from the array.
\<close>

definition pruneArray :: "'a list \<Rightarrow> nat list \<Rightarrow> 'a list" where
  "pruneArray xs toRemove =
     map snd (filter (\<lambda>(i, x). i \<notin> set toRemove) (zip [0..<length xs] xs))"

text \<open>\<open>_removeRowsAt\<close>, on the row ids and on the columns.\<close>

definition removeRowsAt_ids :: "nat list \<Rightarrow> int list \<Rightarrow> int list" where
  "removeRowsAt_ids toRemove rowIds =
     (if length toRemove > 0 then pruneArray rowIds toRemove else rowIds)"

definition removeRowsAt_cols :: "nat list \<Rightarrow> bulk_col_values \<Rightarrow> bulk_col_values" where
  "removeRowsAt_cols toRemove colValues =
     (if length toRemove > 0 then map (\<lambda>(c, values). (c, pruneArray values toRemove)) colValues
      else colValues)"

text \<open>\<open>xs[i] = v\<close> on a JavaScript array: beyond the end, the array grows.\<close>

definition js_set :: "cell list \<Rightarrow> nat \<Rightarrow> cell \<Rightarrow> cell list" where
  "js_set xs i v =
     (if i < length xs then xs[i := v]
      else xs @ replicate (i - length xs) CUndefined @ [v])"

text \<open>\<open>obj[key] = v\<close> for a key the object has: the value changes, the order stays.\<close>

definition obj_set :: "(string \<times> 'v) list \<Rightarrow> string \<Rightarrow> 'v \<Rightarrow> (string \<times> 'v) list" where
  "obj_set obj key v = map (\<lambda>(k, w). if k = key then (k, v) else (k, w)) obj"

subsection \<open>\<open>_filterColumns\<close> and \<open>_pruneColumns\<close>\<close>

text \<open>
  \<open>_filterColumns\<close>: the columns are visited in order; \<open>manualSort\<close> stays, and the
  predicate decides the others. The predicate throws when the access check is fatal.
\<close>

fun filterColumns ::
  "(string \<times> 'v) list \<Rightarrow> (string \<Rightarrow> error + bool) \<Rightarrow> error + (string \<times> 'v) list" where
  "filterColumns [] shouldInclude = Inr []"
| "filterColumns ((colId, v) # rest) shouldInclude =
     (if colId \<noteq> ''manualSort'' then
        (case shouldInclude colId of
           Inl e \<Rightarrow> Inl e
         | Inr keep \<Rightarrow>
             (case filterColumns rest shouldInclude of
                Inl e \<Rightarrow> Inl e
              | Inr rest' \<Rightarrow> Inr (if keep then (colId, v) # rest' else rest')))
      else
        (case filterColumns rest shouldInclude of
           Inl e \<Rightarrow> Inl e
         | Inr rest' \<Rightarrow> Inr ((colId, v) # rest')))"

definition columnNotDenied ::
  "access_check \<Rightarrow> permission_info \<Rightarrow> string \<Rightarrow> string \<Rightarrow> error + bool" where
  "columnNotDenied accessCheck permInfo tableId colId =
     (case AccessCheck_get accessCheck (getColumnAccess permInfo tableId colId) of
        Inl e \<Rightarrow> Inl e
      | Inr p \<Rightarrow> Inr (p \<noteq> Deny))"

text \<open>
  The copy \<open>na\<close> of a cell-carrying action with its columns filtered; \<open>None\<close> when no
  column is left.
\<close>

fun prunedColumns ::
  "doc_action \<Rightarrow> (string \<Rightarrow> error + bool) \<Rightarrow> error + doc_action option" where
  "prunedColumns (AddRecord t r c) f =
     (case filterColumns c f of Inl e \<Rightarrow> Inl e
      | Inr c' \<Rightarrow> Inr (if length c' = 0 then None else Some (AddRecord t r c')))"
| "prunedColumns (UpdateRecord t r c) f =
     (case filterColumns c f of Inl e \<Rightarrow> Inl e
      | Inr c' \<Rightarrow> Inr (if length c' = 0 then None else Some (UpdateRecord t r c')))"
| "prunedColumns (BulkAddRecord t rs c) f =
     (case filterColumns c f of Inl e \<Rightarrow> Inl e
      | Inr c' \<Rightarrow> Inr (if length c' = 0 then None else Some (BulkAddRecord t rs c')))"
| "prunedColumns (BulkUpdateRecord t rs c) f =
     (case filterColumns c f of Inl e \<Rightarrow> Inl e
      | Inr c' \<Rightarrow> Inr (if length c' = 0 then None else Some (BulkUpdateRecord t rs c')))"
| "prunedColumns (ReplaceTableData t rs c) f =
     (case filterColumns c f of Inl e \<Rightarrow> Inl e
      | Inr c' \<Rightarrow> Inr (if length c' = 0 then None else Some (ReplaceTableData t rs c')))"
| "prunedColumns (TableData t rs c) f =
     (case filterColumns c f of Inl e \<Rightarrow> Inl e
      | Inr c' \<Rightarrow> Inr (if length c' = 0 then None else Some (TableData t rs c')))"
| "prunedColumns a f = Inr (Some a)"

definition hasCells :: "doc_action \<Rightarrow> bool" where
  "hasCells a =
     (actionName a \<in> set [''AddRecord'', ''BulkAddRecord'', ''UpdateRecord'',
                           ''BulkUpdateRecord'', ''ReplaceTableData'', ''TableData''])"

fun columnOfSchemaAction :: "doc_action \<Rightarrow> string option" where
  "columnOfSchemaAction (AddColumn t c i) = Some c"
| "columnOfSchemaAction (RemoveColumn t c) = Some c"
| "columnOfSchemaAction (RenameColumn t c n) = Some c"
| "columnOfSchemaAction (ModifyColumn t c i) = Some c"
| "columnOfSchemaAction a = None"

text \<open>
  \<open>_pruneColumns\<close>: the result is the action itself, a filtered copy, or \<open>null\<close>. The
  copy is made before the columns are filtered, so it exists in the store also when
  the result is \<open>null\<close> or an exception.
\<close>

definition pruneColumns ::
  "store \<Rightarrow> nat \<Rightarrow> permission_info \<Rightarrow> string \<Rightarrow> access_check \<Rightarrow> (error + nat option) \<times> store" where
  "pruneColumns h a permInfo tableId accessCheck =
     (if actionName (h ! a) = ''RemoveRecord'' \<or> actionName (h ! a) = ''BulkRemoveRecord''
      then (Inr (Some a), h)
      else if hasCells (h ! a) then
        (case cloneDeep h a of
           (na, h1) \<Rightarrow>
             (case prunedColumns (h1 ! na) (columnNotDenied accessCheck permInfo tableId) of
                Inl e \<Rightarrow> (Inl e, h1)
              | Inr None \<Rightarrow> (Inr None, h1)
              | Inr (Some v) \<Rightarrow> (Inr (Some na), h1[na := v])))
      else
        (case columnOfSchemaAction (h ! a) of
           Some colId \<Rightarrow>
             (case AccessCheck_get accessCheck (getColumnAccess permInfo tableId colId) of
                Inl e \<Rightarrow> (Inl e, h)
              | Inr p \<Rightarrow> if p = Deny then (Inr None, h) else (Inr (Some a), h))
         | None \<Rightarrow> (Inr (Some a), h)))"

subsection \<open>\<open>_removeRows\<close>, \<open>_makeAdditions\<close> and \<open>_makeRemovals\<close>\<close>

text \<open>Element 3 of a bulk action: its columns (none for the other actions).\<close>

fun bulkColumns :: "doc_action \<Rightarrow> bulk_col_values" where
  "bulkColumns (BulkAddRecord t rs c) = c"
| "bulkColumns (BulkUpdateRecord t rs c) = c"
| "bulkColumns (ReplaceTableData t rs c) = c"
| "bulkColumns (TableData t rs c) = c"
| "bulkColumns a = []"

text \<open>The positions of the rows to remove: \<open>mask\<close> in \<open>_removeRows\<close>.\<close>

definition rowMask :: "int list \<Rightarrow> int list \<Rightarrow> nat list" where
  "rowMask oldIds rowIds =
     map fst (filter (\<lambda>(idx, rid). rid \<in> set rowIds) (zip [0..<length oldIds] oldIds))"

text \<open>The copy of a bulk action after \<open>_removeRowsAt\<close>.\<close>

fun withoutRows :: "doc_action \<Rightarrow> int list \<Rightarrow> doc_action" where
  "withoutRows (BulkAddRecord t rs c) rowIds =
     BulkAddRecord t (removeRowsAt_ids (rowMask rs rowIds) rs)
       (removeRowsAt_cols (rowMask rs rowIds) c)"
| "withoutRows (BulkUpdateRecord t rs c) rowIds =
     BulkUpdateRecord t (removeRowsAt_ids (rowMask rs rowIds) rs)
       (removeRowsAt_cols (rowMask rs rowIds) c)"
| "withoutRows (ReplaceTableData t rs c) rowIds =
     ReplaceTableData t (removeRowsAt_ids (rowMask rs rowIds) rs)
       (removeRowsAt_cols (rowMask rs rowIds) c)"
| "withoutRows (TableData t rs c) rowIds =
     TableData t (removeRowsAt_ids (rowMask rs rowIds) rs)
       (removeRowsAt_cols (rowMask rs rowIds) c)"
| "withoutRows (BulkRemoveRecord t rs) rowIds =
     BulkRemoveRecord t (removeRowsAt_ids (rowMask rs rowIds) rs)"
| "withoutRows a rowIds = a"

fun singleRowId :: "doc_action \<Rightarrow> int option" where
  "singleRowId (AddRecord t r c) = Some r"
| "singleRowId (UpdateRecord t r c) = Some r"
| "singleRowId (RemoveRecord t r) = Some r"
| "singleRowId a = None"

text \<open>
  \<open>_removeRows\<close>. A schema action and a single-row action that keeps its row are
  returned as they are: the same object. A bulk action is copied, and the rows are
  removed from the copy.
\<close>

definition removeRows :: "store \<Rightarrow> nat \<Rightarrow> int list \<Rightarrow> nat option \<times> store" where
  "removeRows h a rowIds =
     (if isSchemaAction (h ! a) then (Some a, h)
      else
        (case singleRowId (h ! a) of
           Some rid \<Rightarrow> (if rid \<in> set rowIds then (None, h) else (Some a, h))
         | None \<Rightarrow>
             (case cloneDeep h a of
                (na, h1) \<Rightarrow>
                  (let v = withoutRows (h1 ! na) rowIds in
                   if length (getRowIdsFromDocAction v) = 0 then (None, h1[na := v])
                   else (Some na, h1[na := v])))))"

text \<open>
  \<open>_makeAdditions\<close>: a \<open>BulkAddRecord\<close> with the rows of the table whose ids are in the
  set, in the order of the table. The source obtains them with \<open>_removeRows\<close> on the
  table, which copies the table and removes the other rows from the copy; the copy is
  not reachable afterwards and is not put in the store.
\<close>

definition makeAdditions :: "store \<Rightarrow> table_data \<Rightarrow> int list \<Rightarrow> nat option \<times> store" where
  "makeAdditions h d rowIds =
     (if length rowIds = 0 then (None, h)
      else
        (let notAdded = filter (\<lambda>rid. rid \<notin> set rowIds) (td_rowIds d);
             partialData = withoutRows (asAction d) (new_Set notAdded)
         in if length (getRowIdsFromDocAction partialData) = 0 then (None, h)
            else
              (case alloc h (BulkAddRecord (getTableId partialData)
                               (getRowIdsFromDocAction partialData) (bulkColumns partialData))
               of (r, h1) \<Rightarrow> (Some r, h1))))"

definition makeRemovals :: "store \<Rightarrow> table_data \<Rightarrow> int list \<Rightarrow> nat option \<times> store" where
  "makeRemovals h d rowIds =
     (if length rowIds = 0 then (None, h)
      else (case alloc h (BulkRemoveRecord (td_tableId d) rowIds) of
              (r, h1) \<Rightarrow> (Some r, h1)))"

subsection \<open>\<open>_getForbiddenRows\<close>\<close>

text \<open>
  The rows of the table whose id is among \<open>ids\<close> and whose read permission, evaluated
  with the row as \<open>rec\<close>, is \<open>deny\<close>.
\<close>

definition rowReadDenied :: "rule_collection \<Rightarrow> user_info \<Rightarrow> table_data \<Rightarrow> nat \<Rightarrow> bool" where
  "rowReadDenied rc user d idx =
     (p_read (perms (rc_tableAccess rc
        \<lparr>in_user = user, in_rec = Some (RecordView d (Some idx)), in_newRec = None\<rparr>
        (td_tableId d))) = Deny)"

definition forbiddenRowsOf ::
  "rule_collection \<Rightarrow> user_info \<Rightarrow> table_data \<Rightarrow> int list \<Rightarrow> int list" where
  "forbiddenRowsOf rc user d ids =
     map snd (filter (\<lambda>(idx, rid). rid \<in> set ids \<and> rowReadDenied rc user d idx)
                (zip [0..<length (td_rowIds d)] (td_rowIds d)))"

definition getForbiddenRows ::
  "collaborators \<Rightarrow> engine \<Rightarrow> session \<Rightarrow> nat option \<Rightarrow> table_data \<Rightarrow> int list
   \<Rightarrow> (error + int list) \<times> engine" where
  "getForbiddenRows X g docSession actionIdx d ids =
     (case getRuler X g actionIdx of
        (Inl e, g1) \<Rightarrow> (Inl e, g1)
      | (Inr rc, g1) \<Rightarrow>
          (case getUser X g1 docSession of
             (Inl e, g2) \<Rightarrow> (Inl e, g2)
           | (Inr user, g2) \<Rightarrow> (Inr (forbiddenRowsOf rc user d ids), g2)))"

subsection \<open>\<open>_filterRowsAndCells\<close>\<close>

text \<open>
  The position of a row id in a table, as the \<open>Map\<close> built from the pairs
  \<open>[rowId, idx]\<close> answers it: the last position of the id, \<open>undefined\<close> for an id the
  table does not have.
\<close>

definition rowIndex :: "int list \<Rightarrow> int \<Rightarrow> nat option" where
  "rowIndex ids rid =
     (case filter (\<lambda>(idx, r). r = rid) (zip [0..<length ids] ids) of
        [] \<Rightarrow> None
      | p # ps \<Rightarrow> Some (fst (last (p # ps))))"

text \<open>
  \<open>censorAt\<close>: the cell of the column at the row becomes \<open>'CENSORED'\<close>, in a bulk action
  at the position of the row, in a single-row action for its one row; an action without
  cells is left alone.
\<close>

fun censorAt :: "doc_action \<Rightarrow> string \<Rightarrow> nat \<Rightarrow> doc_action" where
  "censorAt (AddRecord t r c) colId idx = AddRecord t r (obj_set c colId (CStr ''CENSORED''))"
| "censorAt (UpdateRecord t r c) colId idx = UpdateRecord t r (obj_set c colId (CStr ''CENSORED''))"
| "censorAt (BulkAddRecord t rs c) colId idx =
     BulkAddRecord t rs
       (map (\<lambda>(k, vs). if k = colId then (k, js_set vs idx (CStr ''CENSORED'')) else (k, vs)) c)"
| "censorAt (BulkUpdateRecord t rs c) colId idx =
     BulkUpdateRecord t rs
       (map (\<lambda>(k, vs). if k = colId then (k, js_set vs idx (CStr ''CENSORED'')) else (k, vs)) c)"
| "censorAt (ReplaceTableData t rs c) colId idx =
     ReplaceTableData t rs
       (map (\<lambda>(k, vs). if k = colId then (k, js_set vs idx (CStr ''CENSORED'')) else (k, vs)) c)"
| "censorAt (TableData t rs c) colId idx =
     TableData t rs
       (map (\<lambda>(k, vs). if k = colId then (k, js_set vs idx (CStr ''CENSORED'')) else (k, vs)) c)"
| "censorAt a colId idx = a"

text \<open>\<open>Object.keys(colValues)\<close> of an action.\<close>

fun columnKeys :: "doc_action \<Rightarrow> string list" where
  "columnKeys (AddRecord t r c) = map fst c"
| "columnKeys (UpdateRecord t r c) = map fst c"
| "columnKeys (BulkAddRecord t rs c) = map fst c"
| "columnKeys (BulkUpdateRecord t rs c) = map fst c"
| "columnKeys (ReplaceTableData t rs c) = map fst c"
| "columnKeys (TableData t rs c) = map fst c"
| "columnKeys a = []"

text \<open>
  The inner loop over the columns of one row. An exception of a fatal access check
  leaves the cells censored so far as they are.
\<close>

fun censorCells ::
  "rule_collection \<Rightarrow> access_check \<Rightarrow> acl_input \<Rightarrow> string \<Rightarrow> string list \<Rightarrow> nat \<Rightarrow> doc_action
   \<Rightarrow> error option \<times> doc_action" where
  "censorCells rc accessCheck input tableId [] idx a = (None, a)"
| "censorCells rc accessCheck input tableId (colId # rest) idx a =
     (case AccessCheck_get accessCheck (rc_columnAccess rc input tableId colId) of
        Inl e \<Rightarrow> (Some e, a)
      | Inr p \<Rightarrow>
          censorCells rc accessCheck input tableId rest idx
            (if p = Deny then censorAt a colId idx else a))"

text \<open>
  The loop over the rows of the action: \<open>rec\<close> and \<open>newRec\<close> point at the row of the
  same id in \<open>rowsBefore\<close> and in \<open>rowsAfter\<close>. The result is the exception, if any,
  the action as rewritten so far, and \<open>toRemove\<close>.
\<close>

fun filterRowLoop ::
  "rule_collection \<Rightarrow> access_check \<Rightarrow> user_info \<Rightarrow> table_data \<Rightarrow> table_data \<Rightarrow> string
   \<Rightarrow> (nat \<times> int) list \<Rightarrow> doc_action \<Rightarrow> nat list \<Rightarrow> error option \<times> doc_action \<times> nat list" where
  "filterRowLoop rc accessCheck user rowsBefore rowsAfter tableId [] a toRemove =
     (None, a, toRemove)"
| "filterRowLoop rc accessCheck user rowsBefore rowsAfter tableId ((idx, rid) # rest) a toRemove =
     (let input = \<lparr>in_user = user,
                   in_rec = Some (RecordView rowsBefore (rowIndex (td_rowIds rowsBefore) rid)),
                   in_newRec = Some (RecordView rowsAfter (rowIndex (td_rowIds rowsAfter) rid))\<rparr>
      in case AccessCheck_get accessCheck (rc_tableAccess rc input tableId) of
           Inl e \<Rightarrow> (Some e, a, toRemove)
         | Inr access \<Rightarrow>
             if access = Deny then
               filterRowLoop rc accessCheck user rowsBefore rowsAfter tableId rest a
                 (toRemove @ [idx])
             else if access \<noteq> Allow \<and> hasCells a then
               (case censorCells rc accessCheck input tableId (columnKeys a) idx a of
                  (Some e, a') \<Rightarrow> (Some e, a', toRemove)
                | (None, a') \<Rightarrow>
                    filterRowLoop rc accessCheck user rowsBefore rowsAfter tableId rest a' toRemove)
             else filterRowLoop rc accessCheck user rowsBefore rowsAfter tableId rest a toRemove)"

text \<open>
  \<open>_filterRowsAndCells\<close>, for an action that is not the \<open>rowsBefore\<close> object itself
  (every call that \<open>_pruneRows\<close> makes; \<open>filterData\<close>, which passes the table as the
  action, is not embedded). The action is modified in place: the store changes at the
  reference of the action, also when the method throws afterwards.
\<close>

definition filterRowsAndCells ::
  "collaborators \<Rightarrow> engine \<times> store \<Rightarrow> session \<Rightarrow> nat \<Rightarrow> nat option \<Rightarrow> table_data \<Rightarrow> table_data
   \<Rightarrow> access_check \<Rightarrow> (error + unit) \<times> engine \<times> store" where
  "filterRowsAndCells X w docSession a actionIdx rowsBefore rowsAfter accessCheck =
     (case w of (g, h) \<Rightarrow>
        (case getRuler X g actionIdx of
           (Inl e, g1) \<Rightarrow> (Inl e, g1, h)
         | (Inr rc, g1) \<Rightarrow>
             if isSchemaAction (h ! a) then (Inr (), g1, h)
             else
               (case getUser X g1 docSession of
                  (Inl e, g2) \<Rightarrow> (Inl e, g2, h)
                | (Inr user, g2) \<Rightarrow>
                    (let rowIds = getRowIdsFromDocAction (h ! a) in
                     case filterRowLoop rc accessCheck user rowsBefore rowsAfter
                            (getTableId (h ! a)) (zip [0..<length rowIds] rowIds) (h ! a) [] of
                       (Some e, a', toRemove) \<Rightarrow> (Inl e, g2, h[a := a'])
                     | (None, a', toRemove) \<Rightarrow>
                         if length toRemove > 0
                            \<and> actionName a' \<noteq> ''RemoveRecord''
                            \<and> actionName a' \<noteq> ''BulkRemoveRecord''
                         then (Inl (Error ''Unexpected row removal''), g2, h[a := a'])
                         else (Inr (), g2, h[a := a'])))))"

subsection \<open>\<open>_pruneRows\<close>\<close>

definition isAddLike :: "doc_action \<Rightarrow> bool" where
  "isAddLike a =
     (actionName a = ''AddRecord'' \<or> actionName a = ''BulkAddRecord''
      \<or> actionName a = ''ReplaceTableData'' \<or> actionName a = ''TableData'')"

definition isUpdate :: "doc_action \<Rightarrow> bool" where
  "isUpdate a = (actionName a = ''UpdateRecord'' \<or> actionName a = ''BulkUpdateRecord'')"

definition isRemove :: "doc_action \<Rightarrow> bool" where
  "isRemove a = (actionName a = ''RemoveRecord'' \<or> actionName a = ''BulkRemoveRecord'')"

text \<open>The three sets that the loop of \<open>_pruneRows\<close> fills.\<close>

record row_plan =
  removals :: "int list"
  forceAdds :: "int list"
  forceRemoves :: "int list"

definition emptyPlan :: row_plan where
  "emptyPlan = \<lparr>removals = [], forceAdds = [], forceRemoves = []\<rparr>"

text \<open>The body of the loop, for one row id.\<close>

definition planRow :: "doc_action \<Rightarrow> int list \<Rightarrow> int list \<Rightarrow> row_plan \<Rightarrow> int \<Rightarrow> row_plan" where
  "planRow action forbiddenBefores forbiddenAfters p rid =
     (let forbiddenBefore = (rid \<in> set forbiddenBefores);
          forbiddenAfter = (rid \<in> set forbiddenAfters)
      in if \<not> forbiddenBefore \<and> \<not> forbiddenAfter then p
         else if forbiddenBefore \<and> forbiddenAfter then p\<lparr>removals := set_add (removals p) rid\<rparr>
         else if forbiddenBefore then
           (if isAddLike action then p
            else if isUpdate action
              then p\<lparr>removals := set_add (removals p) rid, forceAdds := set_add (forceAdds p) rid\<rparr>
              else p\<lparr>removals := set_add (removals p) rid\<rparr>)
         else
           (if isRemove action then p
            else if isUpdate action
              then p\<lparr>removals := set_add (removals p) rid,
                     forceRemoves := set_add (forceRemoves p) rid\<rparr>
              else p\<lparr>removals := set_add (removals p) rid\<rparr>))"

definition planRows :: "doc_action \<Rightarrow> int list \<Rightarrow> int list \<Rightarrow> int list \<Rightarrow> row_plan" where
  "planRows action forbiddenBefores forbiddenAfters ids =
     foldl (planRow action forbiddenBefores forbiddenAfters) emptyPlan ids"

text \<open>\<open>_getRowsBeforeAndAfter\<close>.\<close>

definition getRowsBeforeAndAfter ::
  "collaborators \<Rightarrow> engine \<Rightarrow> nat option \<Rightarrow> (error + table_data \<times> table_data) \<times> engine" where
  "getRowsBeforeAndAfter X g actionIdx =
     (case getStep X g actionIdx of
        (Inl e, g1) \<Rightarrow> (Inl e, g1)
      | (Inr None, g1) \<Rightarrow> (Inl (TypeError ''step is undefined''), g1)
      | (Inr (Some step), g1) \<Rightarrow>
          (case (st_rowsBefore step, st_rowsAfter step) of
             (Some rowsBefore, Some rowsAfter) \<Rightarrow> (Inr (rowsBefore, rowsAfter), g1)
           | _ \<Rightarrow> (Inl (Error ''Logic error: no rows available''), g1)))"

text \<open>\<open>.filter(isObject)\<close>: the results that are not \<open>null\<close>, in order.\<close>

definition nonNull :: "nat option list \<Rightarrow> nat list" where
  "nonNull xs = concat (map (\<lambda>x. case x of None \<Rightarrow> [] | Some r \<Rightarrow> [r]) xs)"

text \<open>The last loop of \<open>_pruneRows\<close>: cell-level access control on each revised action.\<close>

fun filterCellsOfAll ::
  "collaborators \<Rightarrow> engine \<times> store \<Rightarrow> session \<Rightarrow> nat option \<Rightarrow> table_data \<Rightarrow> nat list
   \<Rightarrow> (error + unit) \<times> engine \<times> store" where
  "filterCellsOfAll X w docSession actionIdx rowsAfter [] = (Inr (), w)"
| "filterCellsOfAll X w docSession actionIdx rowsAfter (a # rest) =
     (case filterRowsAndCells X w docSession a actionIdx rowsAfter rowsAfter readAccessCheck of
        (Inl e, w1) \<Rightarrow> (Inl e, w1)
      | (Inr u, w1) \<Rightarrow> filterCellsOfAll X w1 docSession actionIdx rowsAfter rest)"

definition pruneRows ::
  "collaborators \<Rightarrow> engine \<times> store \<Rightarrow> session \<Rightarrow> nat \<Rightarrow> nat option
   \<Rightarrow> (error + nat list) \<times> engine \<times> store" where
  "pruneRows X w docSession a actionIdx =
     (case w of (g, h) \<Rightarrow>
        if \<not> isDataAction (h ! a) then (Inr [a], g, h)
        else
          (case getRowsBeforeAndAfter X g actionIdx of
             (Inl e, g1) \<Rightarrow> (Inl e, g1, h)
           | (Inr (rowsBefore, rowsAfter), g1) \<Rightarrow>
               (let ids = new_Set (getRowIdsFromDocAction (h ! a)) in
                case getForbiddenRows X g1 docSession actionIdx rowsBefore ids of
                  (Inl e, g2) \<Rightarrow> (Inl e, g2, h)
                | (Inr before, g2) \<Rightarrow>
                    (case getForbiddenRows X g2 docSession actionIdx rowsAfter ids of
                       (Inl e, g3) \<Rightarrow> (Inl e, g3, h)
                     | (Inr after, g3) \<Rightarrow>
                         (let p = planRows (h ! a) (new_Set before) (new_Set after) ids in
                          case makeAdditions h rowsAfter (forceAdds p) of
                            (adds, h1) \<Rightarrow>
                              (case removeRows h1 a (removals p) of
                                 (pruned, h2) \<Rightarrow>
                                   (case makeRemovals h2 rowsAfter (forceRemoves p) of
                                      (rems, h3) \<Rightarrow>
                                        (let revisedDocActions = nonNull [adds, pruned, rems] in
                                         case filterCellsOfAll X (g3, h3) docSession actionIdx
                                                rowsAfter revisedDocActions of
                                           (Inl e, w1) \<Rightarrow> (Inl e, w1)
                                         | (Inr u, w1) \<Rightarrow> (Inr revisedDocActions, w1)))))))))"

section \<open>Censoring structural metadata\<close>

subsection \<open>\<open>RecordEditor\<close> and \<open>getCensorMethod\<close>\<close>

text \<open>
  \<open>RecordEditor.set\<close> of an optional editor with a defined index: a column the action
  does not carry is skipped; in a bulk action the cell at the index is written, in a
  single-row action the cell of the column. An action without cells has the empty
  object as its data, so nothing is written.
\<close>

fun editorSet :: "doc_action \<Rightarrow> nat \<Rightarrow> string \<Rightarrow> cell \<Rightarrow> doc_action" where
  "editorSet (AddRecord t r c) index colId v =
     AddRecord t r (if colId \<in> set (map fst c) then obj_set c colId v else c)"
| "editorSet (UpdateRecord t r c) index colId v =
     UpdateRecord t r (if colId \<in> set (map fst c) then obj_set c colId v else c)"
| "editorSet (BulkAddRecord t rs c) index colId v =
     BulkAddRecord t rs (map (\<lambda>(k, vs). if k = colId then (k, js_set vs index v) else (k, vs)) c)"
| "editorSet (BulkUpdateRecord t rs c) index colId v =
     BulkUpdateRecord t rs (map (\<lambda>(k, vs). if k = colId then (k, js_set vs index v) else (k, vs)) c)"
| "editorSet (ReplaceTableData t rs c) index colId v =
     ReplaceTableData t rs (map (\<lambda>(k, vs). if k = colId then (k, js_set vs index v) else (k, vs)) c)"
| "editorSet (TableData t rs c) index colId v =
     TableData t rs (map (\<lambda>(k, vs). if k = colId then (k, js_set vs index v) else (k, vs)) c)"
| "editorSet a index colId v = a"

text \<open>\<open>getCensorMethod\<close>: the cells a method blanks, in the order of its \<open>set\<close> calls.\<close>

definition getCensorMethod :: "string \<Rightarrow> error + (string \<times> cell) list" where
  "getCensorMethod tableId =
     (if tableId = ''_grist_Tables'' then Inr [(''tableId'', CStr [])]
      else if tableId = ''_grist_Views'' then Inr [(''name'', CStr [])]
      else if tableId = ''_grist_Views_section''
        then Inr [(''title'', CStr []), (''tableRef'', CNum 0)]
      else if tableId = ''_grist_Tables_column''
        then Inr [(''label'', CStr []), (''colId'', CStr []), (''widgetOptions'', CStr []),
                  (''formula'', CStr []), (''type'', CStr ''Any''), (''parentId'', CNum 0)]
      else if tableId = ''_grist_Views_section_field''
        then Inr [(''widgetOptions'', CStr []), (''filter'', CStr []), (''parentId'', CNum 0)]
      else if tableId = ''_grist_ACLResources'' then Inr []
      else if tableId = ''_grist_ACLRules'' then Inr []
      else Inl (Error (''cannot censor '' @ tableId)))"

definition applyCensorMethod :: "(string \<times> cell) list \<Rightarrow> doc_action \<Rightarrow> nat \<Rightarrow> doc_action" where
  "applyCensorMethod method a index = foldl (\<lambda>b (colId, v). editorSet b index colId v) a method"

subsection \<open>\<open>CensorshipInfo\<close>\<close>

record censorship_info =
  censoredTables :: "int list"
  censoredSections :: "int list"
  censoredViews :: "int list"
  censoredColumns :: "int list"
  censoredFields :: "int list"
  canViewACLs :: bool

text \<open>
  The cells read from the metadata are typed by the source (\<open>as string\<close>,
  \<open>as number\<close>), and the model keeps to these types: the references of the metadata
  tables (\<open>parentId\<close>, \<open>tableRef\<close>, \<open>colRef\<close>) are numbers, the ids are strings.
  \<open>Set<number>.has\<close> of a cell is true for a number in the set; a cell used as a table
  or column id is its string, and a cell that is not a string counts as the empty
  string.
\<close>

definition cellIn :: "cell \<Rightarrow> int list \<Rightarrow> bool" where
  "cellIn c s = (case c of CNum n \<Rightarrow> n \<in> set s | _ \<Rightarrow> False)"

definition asString :: "cell \<Rightarrow> string" where
  "asString c = (case c of CStr s \<Rightarrow> s | _ \<Rightarrow> [])"

definition cellTruthy :: "cell \<Rightarrow> bool" where
  "cellTruthy c =
     (case c of CNum n \<Rightarrow> n \<noteq> 0 | CStr s \<Rightarrow> s \<noteq> [] | CBool b \<Rightarrow> b
      | CNull \<Rightarrow> False | CUndefined \<Rightarrow> False)"

definition tableRows :: "table_data \<Rightarrow> (nat \<times> int) list" where
  "tableRows d = zip [0..<length (td_rowIds d)] (td_rowIds d)"

text \<open>
  First loop: forbidden tables, wholly readable tables, and the table id of each row
  (the \<open>Map\<close> \<open>tableRefToTableId\<close>: the newest entry of a key is in front, where
  \<open>map_of\<close> finds it).
\<close>

definition scanTable ::
  "permission_info \<Rightarrow> table_data \<Rightarrow> (int \<times> cell) list \<times> int list \<times> int list \<Rightarrow> nat \<times> int
   \<Rightarrow> (int \<times> cell) list \<times> int list \<times> int list" where
  "scanTable permInfo d acc row =
     (case acc of (tableRefToTableId, censored, uncensored) \<Rightarrow>
        (let tableId = view_get (RecordView d (Some (fst row))) ''tableId'';
             tableRef = snd row;
             readPerm = p_read (perms (getTableAccess permInfo (asString tableId)))
         in ((tableRef, tableId) # tableRefToTableId,
             (if readPerm = Deny then set_add censored tableRef else censored),
             (if readPerm = Allow then set_add uncensored tableRef else uncensored))))"

text \<open>
  \<open>columnCode\<close>: the template literal \<open>`${tableRef} ${colId}`\<close>, which prints each
  cell as \<open>String\<close> does.
\<close>

definition cell_String :: "cell \<Rightarrow> string" where
  "cell_String c =
     (case c of CNull \<Rightarrow> ''null'' | CUndefined \<Rightarrow> ''undefined''
      | CBool b \<Rightarrow> (if b then ''true'' else ''false'')
      | CNum n \<Rightarrow> showInt n | CStr s \<Rightarrow> s)"

definition columnCode :: "cell \<Rightarrow> cell \<Rightarrow> string" where
  "columnCode tableRef colId = cell_String tableRef @ '' '' @ cell_String colId"

text \<open>Second loop: the codes of the forbidden columns.\<close>

fun scanColumnCodes ::
  "permission_info \<Rightarrow> table_data \<Rightarrow> (int \<times> cell) list \<Rightarrow> int list \<Rightarrow> int list
   \<Rightarrow> (nat \<times> int) list \<Rightarrow> string list \<Rightarrow> error + string list" where
  "scanColumnCodes permInfo d tableRefToTableId censored uncensored [] codes = Inr codes"
| "scanColumnCodes permInfo d tableRefToTableId censored uncensored (row # rest) codes =
     (let tableRef = view_get (RecordView d (Some (fst row))) ''parentId'' in
      if cellIn tableRef uncensored
      then scanColumnCodes permInfo d tableRefToTableId censored uncensored rest codes
      else
        (case (case tableRef of CNum n \<Rightarrow> map_of tableRefToTableId n | _ \<Rightarrow> None) of
           None \<Rightarrow> Inl (Error ''table not found'')
         | Some tableId \<Rightarrow>
             if \<not> cellTruthy tableId then Inl (Error ''table not found'')
             else
               (let colId = view_get (RecordView d (Some (fst row))) ''colId'' in
                if cellIn tableRef censored
                   \<or> (colId \<noteq> CStr ''manualSort''
                      \<and> p_read (perms (getColumnAccess permInfo (asString tableId) (asString colId)))
                          = Deny)
                then scanColumnCodes permInfo d tableRefToTableId censored uncensored rest
                       (set_add codes (columnCode tableRef colId))
                else scanColumnCodes permInfo d tableRefToTableId censored uncensored rest codes)))"

text \<open>Third loop: sections of forbidden tables, and the views that hold them.\<close>

definition scanSection ::
  "table_data \<Rightarrow> int list \<Rightarrow> int list \<times> int list \<Rightarrow> nat \<times> int \<Rightarrow> int list \<times> int list" where
  "scanSection d censored acc row =
     (case acc of (views, sections) \<Rightarrow>
        if \<not> cellIn (view_get (RecordView d (Some (fst row))) ''tableRef'') censored then acc
        else
          (case view_get (RecordView d (Some (fst row))) ''parentId'' of
             CNum parentId \<Rightarrow>
               ((if parentId \<noteq> 0 then set_add views parentId else views),
                set_add sections (snd row))
           | _ \<Rightarrow> (views, set_add sections (snd row))))"

text \<open>Fourth loop: the rows of the forbidden columns.\<close>

definition scanColumn ::
  "table_data \<Rightarrow> int list \<Rightarrow> string list \<Rightarrow> int list \<Rightarrow> nat \<times> int \<Rightarrow> int list" where
  "scanColumn d censored codes acc row =
     (let parentId = view_get (RecordView d (Some (fst row))) ''parentId'' in
      if cellIn parentId censored
         \<or> columnCode parentId (view_get (RecordView d (Some (fst row))) ''colId'') \<in> set codes
      then set_add acc (snd row) else acc)"

text \<open>Fifth loop: the fields of forbidden sections and of forbidden columns.\<close>

definition scanField :: "table_data \<Rightarrow> int list \<Rightarrow> int list \<Rightarrow> int list \<Rightarrow> nat \<times> int \<Rightarrow> int list" where
  "scanField d sections columns acc row =
     (if \<not> cellIn (view_get (RecordView d (Some (fst row))) ''parentId'') sections
         \<and> \<not> cellIn (view_get (RecordView d (Some (fst row))) ''colRef'') columns
      then acc else set_add acc (snd row))"

text \<open>
  The constructor, loop by loop: each metadata table is read when its loop begins, and a
  table that is missing makes \<open>getRowIdsFromDocAction\<close> read an element of
  \<open>undefined\<close>. The rule collection passed to the constructor is not used by it.
\<close>

definition newCensorshipInfo ::
  "permission_info \<Rightarrow> (string \<times> table_data) list \<Rightarrow> bool \<Rightarrow> error + censorship_info" where
  "newCensorshipInfo permInfo tables canViewACLs' =
     (case map_of tables ''_grist_Tables'' of
        None \<Rightarrow> Inl (TypeError ''metadata table is undefined'')
      | Some tTables \<Rightarrow>
          (case foldl (scanTable permInfo tTables) ([], [], []) (tableRows tTables) of
             (tableRefToTableId, censored, uncensored) \<Rightarrow>
               (case map_of tables ''_grist_Tables_column'' of
                  None \<Rightarrow> Inl (TypeError ''metadata table is undefined'')
                | Some tColumns \<Rightarrow>
                    (case scanColumnCodes permInfo tColumns tableRefToTableId censored uncensored
                            (tableRows tColumns) [] of
                       Inl e \<Rightarrow> Inl e
                     | Inr codes \<Rightarrow>
                         (case map_of tables ''_grist_Views_section'' of
                            None \<Rightarrow> Inl (TypeError ''metadata table is undefined'')
                          | Some tSections \<Rightarrow>
                              (case foldl (scanSection tSections censored) ([], [])
                                      (tableRows tSections) of
                                 (views, sections) \<Rightarrow>
                                   (let columns = foldl (scanColumn tColumns censored codes) []
                                                    (tableRows tColumns)
                                    in case map_of tables ''_grist_Views_section_field'' of
                                         None \<Rightarrow> Inl (TypeError ''metadata table is undefined'')
                                       | Some tFields \<Rightarrow>
                                           Inr \<lparr>censoredTables = censored,
                                                censoredSections = sections,
                                                censoredViews = views,
                                                censoredColumns = columns,
                                                censoredFields =
                                                  foldl (scanField tFields sections columns) []
                                                    (tableRows tFields),
                                                canViewACLs = canViewACLs'\<rparr>)))))))"

text \<open>The member \<open>censored\<close>: the set of censored rows of each of the five tables.\<close>

definition censoredOf :: "censorship_info \<Rightarrow> string \<Rightarrow> int list option" where
  "censoredOf ci tableId =
     (if tableId = ''_grist_Tables'' then Some (censoredTables ci)
      else if tableId = ''_grist_Tables_column'' then Some (censoredColumns ci)
      else if tableId = ''_grist_Views'' then Some (censoredViews ci)
      else if tableId = ''_grist_Views_section'' then Some (censoredSections ci)
      else if tableId = ''_grist_Views_section_field'' then Some (censoredFields ci)
      else None)"

definition censorRow ::
  "(string \<times> cell) list \<Rightarrow> int list \<Rightarrow> doc_action \<Rightarrow> nat \<times> int \<Rightarrow> doc_action" where
  "censorRow method censoredRows a row =
     (if snd row \<in> set censoredRows then applyCensorMethod method a (fst row) else a)"

text \<open>
  \<open>CensorshipInfo.apply\<close>: the answer of the method and the action as the method
  leaves it (the method writes into the action it is given).
\<close>

definition apply_censor :: "censorship_info \<Rightarrow> doc_action \<Rightarrow> error + bool \<times> doc_action" where
  "apply_censor ci a =
     (let tableId = getTableId a; ids = getRowIdsFromDocAction a in
      if tableId \<notin> set STRUCTURAL_TABLES then Inr (True, a)
      else
        (case censoredOf ci tableId of
           None \<Rightarrow>
             (if \<not> canViewACLs ci \<and> actionName a = ''TableData''
              then Inr (canViewACLs ci, TableData tableId [] [])
              else Inr (canViewACLs ci, a))
         | Some censoredRows \<Rightarrow>
             (case getCensorMethod tableId of
                Inl e \<Rightarrow> Inl e
              | Inr method \<Rightarrow>
                  Inr (True, foldl (censorRow method censoredRows) a (zip [0..<length ids] ids)))))"

section \<open>The outgoing filter\<close>

subsection \<open>\<open>_filterOutgoingStructuralTables\<close>\<close>

text \<open>\<open>table[2].indexOf(v)\<close>: the first position of the id, \<open>-1\<close> (here \<open>None\<close>) without one.\<close>

definition indexOf :: "int list \<Rightarrow> int \<Rightarrow> nat option" where
  "indexOf ids v =
     (case filter (\<lambda>(idx, r). r = v) (zip [0..<length ids] ids) of
        [] \<Rightarrow> None
      | p # ps \<Rightarrow> Some (fst p))"

text \<open>
  The actions that expose the views censored before the step and not after it: an
  \<open>UpdateRecord\<close> with the name of the view in the metadata after the step.
\<close>

fun exposedViews ::
  "(string \<times> table_data) list \<Rightarrow> int list \<Rightarrow> int list \<Rightarrow> error + doc_action list" where
  "exposedViews metaAfter censoredNow [] = Inr []"
| "exposedViews metaAfter censoredNow (v # rest) =
     (if v \<in> set censoredNow then exposedViews metaAfter censoredNow rest
      else
        (case map_of metaAfter ''_grist_Views'' of
           None \<Rightarrow> Inl (TypeError ''table is undefined'')
         | Some table \<Rightarrow>
             (case map_of (td_columns table) ''name'' of
                None \<Rightarrow> Inl (TypeError ''table[3].name is undefined'')
              | Some names \<Rightarrow>
                  (case exposedViews metaAfter censoredNow rest of
                     Inl e \<Rightarrow> Inl e
                   | Inr others \<Rightarrow>
                       Inr (UpdateRecord ''_grist_Views'' v
                              [(''name'', (case indexOf (td_rowIds table) v of
                                             None \<Rightarrow> CUndefined
                                           | Some idx \<Rightarrow> js_nth names idx))] # others)))))"

text \<open>The actions that censor the views censored after the step and not before it.\<close>

definition hiddenViews :: "int list \<Rightarrow> int list \<Rightarrow> doc_action list" where
  "hiddenViews censoredBefore censoredNow =
     map (\<lambda>v. UpdateRecord ''_grist_Views'' v [(''name'', CStr [])])
       (filter (\<lambda>v. v \<notin> set censoredBefore) censoredNow)"

text \<open>Pushing new actions: each one is a new object, appended to the results.\<close>

fun pushAll :: "store \<Rightarrow> nat list \<Rightarrow> doc_action list \<Rightarrow> nat list \<times> store" where
  "pushAll h results [] = (results, h)"
| "pushAll h results (v # vs) = (case alloc h v of (r, h1) \<Rightarrow> pushAll h1 (results @ [r]) vs)"

text \<open>
  The wrinkle for \<open>_grist_Views_section\<close>: the views whose visibility changes with the
  step.
\<close>

definition viewUpdates ::
  "collaborators \<Rightarrow> engine \<times> store \<Rightarrow> session \<Rightarrow> permission_info \<Rightarrow> action_step
   \<Rightarrow> (string \<times> table_data) list \<Rightarrow> censorship_info \<Rightarrow> nat list
   \<Rightarrow> (error + nat list) \<times> engine \<times> store" where
  "viewUpdates X w docSession permissionInfo step metaAfter censor results =
     (case w of (g, h) \<Rightarrow>
        (case st_metaBefore step of
           None \<Rightarrow> (Inl (Error ''missing prior metadata''), g, h)
         | Some metaBefore \<Rightarrow>
             (case hasAccessRulesPermission X g docSession of
                (Inl e, g1) \<Rightarrow> (Inl e, g1, h)
              | (Inr canViewBefore, g1) \<Rightarrow>
                  (case newCensorshipInfo permissionInfo metaBefore canViewBefore of
                     Inl e \<Rightarrow> (Inl e, g1, h)
                   | Inr censorBefore \<Rightarrow>
                       (case exposedViews metaAfter (censoredViews censor)
                               (censoredViews censorBefore) of
                          Inl e \<Rightarrow> (Inl e, g1, h)
                        | Inr exposed \<Rightarrow>
                            (case pushAll h results
                                    (exposed @ hiddenViews (censoredViews censorBefore)
                                                 (censoredViews censor)) of
                               (results', h1) \<Rightarrow> (Inr results', g1, h1)))))))"

text \<open>
  \<open>_filterOutgoingStructuralTables\<close>: the action is copied, the copy is censored, and
  it is pushed when \<open>apply\<close> answers true. An exception while the views are exposed
  leaves the results pushed so far in the array of the caller, which is lost with the
  exception.
\<close>

definition filterOutgoingStructuralTables ::
  "collaborators \<Rightarrow> engine \<times> store \<Rightarrow> session \<Rightarrow> nat option \<Rightarrow> nat \<Rightarrow> nat list
   \<Rightarrow> (error + nat list) \<times> engine \<times> store" where
  "filterOutgoingStructuralTables X w docSession actionIdx act results =
     (case w of (g, h) \<Rightarrow>
        (case getStepAccess X g docSession actionIdx of
           (Inl e, g1) \<Rightarrow> (Inl e, g1, h)
         | (Inr permissionInfo, g1) \<Rightarrow>
             (case getStep X g1 actionIdx of
                (Inl e, g2) \<Rightarrow> (Inl e, g2, h)
              | (Inr None, g2) \<Rightarrow> (Inl (TypeError ''step is undefined''), g2, h)
              | (Inr (Some step), g2) \<Rightarrow>
                  (case st_metaAfter step of
                     None \<Rightarrow> (Inl (Error ''missing metadata''), g2, h)
                   | Some metaAfter \<Rightarrow>
                       (case cloneDeep h act of
                          (act', h1) \<Rightarrow>
                            (case getRuler X g2 actionIdx of
                               (Inl e, g3) \<Rightarrow> (Inl e, g3, h1)
                             | (Inr rc, g3) \<Rightarrow>
                                 (case hasAccessRulesPermission X g3 docSession of
                                    (Inl e, g4) \<Rightarrow> (Inl e, g4, h1)
                                  | (Inr canViewNow, g4) \<Rightarrow>
                                      (case newCensorshipInfo permissionInfo metaAfter canViewNow of
                                         Inl e \<Rightarrow> (Inl e, g4, h1)
                                       | Inr censor \<Rightarrow>
                                           (case apply_censor censor (h1 ! act') of
                                              Inl e \<Rightarrow> (Inl e, g4, h1)
                                            | Inr (keep, v) \<Rightarrow>
                                                (let h2 = h1[act' := v];
                                                     results1 = (if keep then results @ [act']
                                                                 else results)
                                                 in if getTableId v = ''_grist_Views_section''
                                                    then viewUpdates X (g4, h2) docSession
                                                           permissionInfo step metaAfter censor
                                                           results1
                                                    else (Inr results1, g4, h2)))))))))))"

subsection \<open>\<open>_filterOutgoingDocAction\<close>\<close>

text \<open>The loop of the mixed case: column pruning of every action that row pruning returns.\<close>

fun pruneColumnsOfAll ::
  "store \<Rightarrow> permission_info \<Rightarrow> string \<Rightarrow> nat list \<Rightarrow> nat list \<Rightarrow> (error + nat list) \<times> store" where
  "pruneColumnsOfAll h permInfo tableId [] results = (Inr results, h)"
| "pruneColumnsOfAll h permInfo tableId (act # rest) results =
     (case pruneColumns h act permInfo tableId readAccessCheck of
        (Inl e, h1) \<Rightarrow> (Inl e, h1)
      | (Inr None, h1) \<Rightarrow> pruneColumnsOfAll h1 permInfo tableId rest results
      | (Inr (Some prunedAct), h1) \<Rightarrow>
          pruneColumnsOfAll h1 permInfo tableId rest (results @ [prunedAct]))"

text \<open>The second pass: data actions on structural tables are censored.\<close>

fun secondPassLoop ::
  "collaborators \<Rightarrow> engine \<times> store \<Rightarrow> session \<Rightarrow> nat option \<Rightarrow> nat list \<Rightarrow> nat list
   \<Rightarrow> (error + nat list) \<times> engine \<times> store" where
  "secondPassLoop X w docSession actionIdx [] secondPass = (Inr secondPass, w)"
| "secondPassLoop X w docSession actionIdx (act # rest) secondPass =
     (if getTableId (snd w ! act) \<in> set STRUCTURAL_TABLES \<and> isDataAction (snd w ! act) then
        (case filterOutgoingStructuralTables X w docSession actionIdx act secondPass of
           (Inl e, w1) \<Rightarrow> (Inl e, w1)
         | (Inr secondPass', w1) \<Rightarrow> secondPassLoop X w1 docSession actionIdx rest secondPass')
      else secondPassLoop X w docSession actionIdx rest (secondPass @ [act]))"

definition filterOutgoingDocAction ::
  "collaborators \<Rightarrow> engine \<times> store \<Rightarrow> session \<Rightarrow> nat \<Rightarrow> nat option
   \<Rightarrow> (error + nat list) \<times> engine \<times> store" where
  "filterOutgoingDocAction X w docSession action actionIdx =
     (case w of (g, h) \<Rightarrow>
        (let tableId = getTableId (h ! action) in
         case getStepAccess X g docSession actionIdx of
           (Inl e, g1) \<Rightarrow> (Inl e, g1, h)
         | (Inr permInfo, g1) \<Rightarrow>
             (let access = p_read (perms (getTableAccess permInfo tableId)) in
              case (if access = Deny then (Inr [], g1, h)
                    else if access = Allow then (Inr [action], g1, h)
                    else if access = MixedColumns then
                      (case pruneColumns h action permInfo tableId readAccessCheck of
                         (Inl e, h1) \<Rightarrow> (Inl e, g1, h1)
                       | (Inr None, h1) \<Rightarrow> (Inr [], g1, h1)
                       | (Inr (Some act), h1) \<Rightarrow> (Inr [act], g1, h1))
                    else
                      (case pruneRows X (g1, h) docSession action actionIdx of
                         (Inl e, w1) \<Rightarrow> (Inl e, w1)
                       | (Inr acts, g2, h2) \<Rightarrow>
                           (case pruneColumnsOfAll h2 permInfo tableId acts [] of
                              (Inl e, h3) \<Rightarrow> (Inl e, g2, h3)
                            | (Inr results, h3) \<Rightarrow> (Inr results, g2, h3))))
              of (Inl e, w1) \<Rightarrow> (Inl e, w1)
               | (Inr results, w1) \<Rightarrow> secondPassLoop X w1 docSession actionIdx results [])))"

subsection \<open>\<open>filterOutgoingDocActions\<close>\<close>

text \<open>
  \<open>Promise.all\<close> over the filters of the actions. Every filter is started and runs to
  its end, also when another one has thrown: nothing is cancelled. The model runs the
  filters one after the other in the order of the list, each to its end; the source
  interleaves them at their \<open>await\<close> points, which changes nothing as long as the
  action objects are different objects. The promise of \<open>Promise.all\<close> is fulfilled with
  the array of the results when no filter has thrown, and rejected otherwise with the
  exception that was thrown first in time, which the scheduler picks.
\<close>

fun runFilters ::
  "collaborators \<Rightarrow> engine \<times> store \<Rightarrow> session \<Rightarrow> (nat \<times> nat) list
   \<Rightarrow> (error + nat list) list \<times> engine \<times> store" where
  "runFilters X w docSession [] = ([], w)"
| "runFilters X w docSession ((action, actionIdx) # rest) =
     (case filterOutgoingDocAction X w docSession action (Some actionIdx) of
        (r, w1) \<Rightarrow>
          (case runFilters X w1 docSession rest of
             (rs, w2) \<Rightarrow> (r # rs, w2)))"

definition rejections :: "(error + 'a) list \<Rightarrow> error list" where
  "rejections rs = concat (map (\<lambda>r. case r of Inl e \<Rightarrow> [e] | Inr v \<Rightarrow> []) rs)"

definition fulfilled :: "(error + 'a) list \<Rightarrow> 'a list" where
  "fulfilled rs = concat (map (\<lambda>r. case r of Inl e \<Rightarrow> [] | Inr v \<Rightarrow> [v]) rs)"

definition Promise_all :: "collaborators \<Rightarrow> (error + 'a) list \<Rightarrow> error + 'a list" where
  "Promise_all X rs =
     (case rejections rs of
        [] \<Rightarrow> Inr (fulfilled rs)
      | e # es \<Rightarrow>
          Inl (if firstRejection X (e # es) \<in> set (e # es) then firstRejection X (e # es) else e))"

definition bundleHasDeliberateRuleChange :: "engine \<Rightarrow> bool" where
  "bundleHasDeliberateRuleChange g =
     (case activeBundle g of None \<Rightarrow> False | Some b \<Rightarrow> b_hasDeliberateRuleChange b)"

definition filterOutgoingDocActions ::
  "collaborators \<Rightarrow> engine \<times> store \<Rightarrow> session \<Rightarrow> nat list
   \<Rightarrow> (error + nat list) \<times> engine \<times> store" where
  "filterOutgoingDocActions X w docSession docActions =
     (case w of (g, h) \<Rightarrow>
        if bundleHasDeliberateRuleChange g
        then (Inl (NEED_RELOAD ''document needs reload, access rules changed''), g, h)
        else if \<not> haveRules g then (Inr docActions, g, h)
        else
          (case checkUserAttributes X g docSession of
             (Inl e, g1) \<Rightarrow> (Inl e, g1, h)
           | (Inr u, g1) \<Rightarrow>
               (case runFilters X (g1, h) docSession (zip docActions [0..<length docActions]) of
                  (rs, w1) \<Rightarrow>
                    (case Promise_all X rs of
                       Inl e \<Rightarrow> (Inl e, w1)
                     | Inr actions \<Rightarrow> (Inr (concat actions), w1)))))"

subsection \<open>\<open>filterActionGroup\<close> and \<open>_filterDocUpdate\<close>\<close>

text \<open>An \<open>ActionGroup\<close>: the two fields the engine blanks, and the rest.\<close>

record action_group =
  ag_actionSummary :: "string list"
  ag_desc :: string
  ag_rest :: string

definition canReadEverything ::
  "collaborators \<Rightarrow> engine \<Rightarrow> session \<Rightarrow> (error + bool) \<times> engine" where
  "canReadEverything X g docSession =
     (case getNominalAccess X g docSession of
        (Inl e, g1) \<Rightarrow> (Inl e, g1)
      | (Inr access, g1) \<Rightarrow>
          if \<not> canView X access then (Inr False, g1)
          else
            (case getAccess X g1 docSession of
               (Inl e, g2) \<Rightarrow> (Inl e, g2)
             | (Inr permInfo, g2) \<Rightarrow>
                 (Inr (p_read (perms (getFullAccess permInfo)) = Allow), g2)))"

text \<open>
  \<open>filterActionGroup\<close>; \<open>allowActionGroup\<close> is \<open>canReadEverything\<close>, and
  \<open>createEmptyActionSummary()\<close> is the summary with no entries.
\<close>

definition filterActionGroup ::
  "collaborators \<Rightarrow> engine \<Rightarrow> session \<Rightarrow> action_group \<Rightarrow> (error + action_group) \<times> engine" where
  "filterActionGroup X g docSession actionGroup =
     (case canReadEverything X g docSession of
        (Inl e, g1) \<Rightarrow> (Inl e, g1)
      | (Inr allowed, g1) \<Rightarrow>
          if allowed then (Inr actionGroup, g1)
          else (Inr (actionGroup\<lparr>ag_actionSummary := [], ag_desc := []\<rparr>), g1))"

text \<open>
  \<open>_filterDocUpdate\<close>, the callback that \<open>sendDocUpdateForBundle\<close> hands to the
  broadcaster for each client: the message for the client, \<open>null\<close> for no message, or an
  exception.
\<close>

definition filterDocUpdate ::
  "collaborators \<Rightarrow> engine \<times> store \<Rightarrow> session \<Rightarrow> action_group \<times> nat list
   \<Rightarrow> (error + (action_group \<times> nat list) option) \<times> engine \<times> store" where
  "filterDocUpdate X w docSession message =
     (case w of (g, h) \<Rightarrow>
        (case activeBundle g of
           None \<Rightarrow> (Inl (Error ''no active bundle''), g, h)
         | Some b \<Rightarrow>
             if \<not> haveRules g \<and> \<not> b_hasDeliberateRuleChange b then (Inr (Some message), g, h)
             else
               (case filterActionGroup X g docSession (fst message) of
                  (Inl e, g1) \<Rightarrow> (Inl e, g1, h)
                | (Inr actionGroup, g1) \<Rightarrow>
                    (case filterOutgoingDocActions X (g1, h) docSession (snd message) of
                       (Inl e, w1) \<Rightarrow> (Inl e, w1)
                     | (Inr docActions, w1) \<Rightarrow>
                         if length docActions = 0 then (Inr None, w1)
                         else (Inr (Some (actionGroup, docActions)), w1)))))"

section \<open>Example engines\<close>

text \<open>Concrete rules, sessions and engines on which the properties are evaluated.\<close>

definition allPerms :: "perm \<Rightarrow> perm_ctx" where
  "allPerms p =
     \<lparr>perms = \<lparr>p_read = p, p_update = p, p_create = p, p_delete = p, p_schemaEdit = p\<rparr>,
      ruleType = ''table'', getMemos = (\<lambda>k. [])\<rparr>"

definition noRules :: rule_collection where
  "noRules =
     \<lparr>rc_haveRules = False, rc_ruleError = None, rc_userAttributeRules = [],
      rc_tableAccess = (\<lambda>i t. allPerms Allow),
      rc_columnAccess = (\<lambda>i t c. allPerms Allow),
      rc_fullAccess = (\<lambda>i. allPerms Allow)\<rparr>"

text \<open>
  Rules for everyone but owners: a row of table \<open>T\<close> is readable when its \<open>status\<close> is
  \<open>open\<close>; the cell \<open>secret\<close> of a row of \<open>T\<close> whose \<open>level\<close> is \<open>high\<close> is
  not; table \<open>Hidden\<close> is not readable at all.
\<close>

definition isOwnerInput :: "acl_input \<Rightarrow> bool" where
  "isOwnerInput i = (u_Access (in_user i) = Some Owners)"

definition exampleRules :: rule_collection where
  "exampleRules =
     \<lparr>rc_haveRules = True, rc_ruleError = None, rc_userAttributeRules = [],
      rc_tableAccess =
        (\<lambda>i t. if isOwnerInput i then allPerms Allow
                else if t = ''T'' then
                  (case in_rec i of
                     None \<Rightarrow> allPerms Mixed
                   | Some r \<Rightarrow> if view_get r ''status'' = CStr ''open''
                              then allPerms MixedColumns else allPerms Deny)
                else if t = ''Hidden'' then allPerms Deny
                else allPerms Allow),
      rc_columnAccess =
        (\<lambda>i t c. if isOwnerInput i then allPerms Allow
                  else if t = ''T'' \<and> c = ''secret'' then
                    (case in_rec i of
                       None \<Rightarrow> allPerms Mixed
                     | Some r \<Rightarrow> if view_get r ''level'' = CStr ''high''
                                then allPerms Deny else allPerms Allow)
                  else allPerms Allow),
      rc_fullAccess = (\<lambda>i. if isOwnerInput i then allPerms Allow else allPerms Mixed)\<rparr>"

text \<open>Rules with one user-attribute rule, which looks the user up in table \<open>Teams\<close>.\<close>

definition attributeRules :: rule_collection where
  "attributeRules =
     exampleRules\<lparr>rc_userAttributeRules :=
       [\<lparr>uar_name = ''Team'', uar_tableId = ''Teams'', uar_lookupColId = ''Email'',
         uar_charId = ''Email''\<rparr>]\<rparr>"

text \<open>
  Collaborators for the examples: every role may view, the rules read from the document
  are \<open>noRules\<close>, the steps of a bundle are given, \<open>JSON.stringify\<close> is injective on
  the cells used, and of several filters that throw the first of the list throws first.
\<close>

fun showCell :: "cell \<Rightarrow> string" where
  "showCell CNull = ''null''"
| "showCell CUndefined = ''undefined''"
| "showCell (CBool b) = (if b then ''true'' else ''false'')"
| "showCell (CNum n) = (if n = 0 then ''0'' else if n = 1 then ''1'' else ''n'')"
| "showCell (CStr s) = [CHR 0x22] @ s @ [CHR 0x22]"

definition exampleCollaborators :: "action_step list \<Rightarrow> collaborators" where
  "exampleCollaborators steps =
     \<lparr>canView = (\<lambda>r. r \<noteq> None),
      aclUpdate = (\<lambda>d. noRules),
      buildSteps = (\<lambda>g b. Inr steps),
      lodashGet = (\<lambda>u path. CNull),
      JSON_stringify = (\<lambda>obj. concat (map (\<lambda>(k, v). k @ '':'' @ showCell v @ '','') obj)),
      firstRejection = (\<lambda>es. case es of [] \<Rightarrow> Error [] | e # rest \<Rightarrow> e)\<rparr>"

definition newEngine :: "rule_collection \<Rightarrow> engine" where
  "newEngine rc =
     \<lparr>eng_ruler = \<lparr>ruleCollection = rc, permissionInfoMap = (\<lambda>s. None)\<rparr>,
      userAttributesMap = (\<lambda>s. None),
      prevUserAttributesMap = None,
      eng_steps = None,
      activeBundle = None,
      docData = [],
      fetchQueryFromDB = (\<lambda>q. Inl (Error ''no such table'')),
      recoveryMode = False,
      homeDbManager = None,
      docId = ''doc''\<rparr>"

definition ownerSession :: session where
  "ownerSession =
     \<lparr>sid = 1, linkParameters = Some [], sessAccess = Owners,
      sessUser = Some \<lparr>fu_id = 1, fu_email = ''owner@example.com'', fu_name = ''Owner''\<rparr>,
      reqOrigin = None\<rparr>"

definition editorSession :: session where
  "editorSession =
     \<lparr>sid = 2, linkParameters = Some [], sessAccess = Editors,
      sessUser = Some \<lparr>fu_id = 2, fu_email = ''editor@example.com'', fu_name = ''Editor''\<rparr>,
      reqOrigin = None\<rparr>"

text \<open>A bundle as \<open>getGranularAccessForBundle\<close> stores it, with the flags given.\<close>

definition exampleBundle :: "doc_action list \<Rightarrow> bool \<Rightarrow> bool \<Rightarrow> active_bundle" where
  "exampleBundle docActions applied flag =
     \<lparr>b_docSession = ownerSession, b_userActions = [], b_docActions = docActions, b_undo = [],
      b_applied = applied, b_hasDeliberateRuleChange = flag\<rparr>"

definition emptyStep :: "doc_action \<Rightarrow> table_data \<Rightarrow> table_data \<Rightarrow> action_step" where
  "emptyStep a before after =
     \<lparr>st_action = a, st_rowsBefore = Some before, st_rowsAfter = Some after, st_rowsLast = None,
      st_metaBefore = None, st_metaAfter = None, st_ruler = None\<rparr>"

text \<open>Engines for the examples of the lifecycle properties.\<close>

definition cachedEngine :: engine where
  "cachedEngine =
     (newEngine noRules)
       \<lparr>eng_ruler := \<lparr>ruleCollection = noRules,
                      permissionInfoMap = (\<lambda>s. Some (Inl (Error ''cached'')))\<rparr>,
        activeBundle := Some (exampleBundle [AddTable ''T''] False False)\<rparr>"

definition teamTable :: "string \<Rightarrow> table_data" where
  "teamTable team =
     \<lparr>td_tableId = ''Teams'', td_rowIds = [1],
      td_columns = [(''Email'', [CStr ''editor@example.com'']), (''Team'', [CStr team])]\<rparr>"

definition teamAttributes :: "string \<Rightarrow> user_attributes" where
  "teamAttributes team =
     \<lparr>ua_rows = [(''Team'', RecordView (teamTable team) (Some 0))], ua_override = None\<rparr>"

definition editorUser :: user_info where
  "editorUser =
     \<lparr>u_Access = Some Editors, u_UserID = Some 2, u_Email = Some ''editor@example.com'',
      u_Name = Some ''Editor'', u_LinkKey = [], u_Origin = None, u_attrs = []\<rparr>"

definition editorPermissionInfo :: "rule_collection \<Rightarrow> permission_info" where
  "editorPermissionInfo rc =
     \<lparr>pi_rules = rc, pi_input = \<lparr>in_user = editorUser, in_rec = None, in_newRec = None\<rparr>\<rparr>"

text \<open>
  An engine whose bundle changes table \<open>Teams\<close>: the attributes of the editor from
  before the bundle are in the cache, and the table now holds the team given.
\<close>

definition teamEngine :: "string \<Rightarrow> string \<Rightarrow> engine" where
  "teamEngine teamBefore teamNow =
     (newEngine attributeRules)
       \<lparr>userAttributesMap :=
          (\<lambda>s. if s = editorSession then Some (teamAttributes teamBefore) else None),
        fetchQueryFromDB := (\<lambda>q. Inr (teamTable teamNow)),
        activeBundle := Some (exampleBundle [UpdateRecord ''Teams'' 1 [(''Team'', CStr teamNow)]]
                               False False)\<rparr>"

text \<open>
  An engine between \<open>appliedBundle\<close> and \<open>finishedBundle\<close>, with the attributes of the
  editor before and after the bundle as given and the editor's permissions in the cache.
\<close>

definition attributeEngine ::
  "user_attributes option \<Rightarrow> user_attributes option \<Rightarrow> engine" where
  "attributeEngine before after =
     (newEngine attributeRules)
       \<lparr>eng_ruler := \<lparr>ruleCollection = attributeRules,
                      permissionInfoMap =
                        (\<lambda>s. if s = editorSession
                             then Some (Inr (editorPermissionInfo attributeRules)) else None)\<rparr>,
        userAttributesMap := (\<lambda>s. if s = editorSession then after else None),
        prevUserAttributesMap := Some (\<lambda>s. if s = editorSession then before else None),
        activeBundle := Some (exampleBundle [] True False)\<rparr>"

text \<open>A \<open>CensorshipInfo\<close> of a viewer who may not view the access rules.\<close>

definition blindCensor :: censorship_info where
  "blindCensor =
     \<lparr>censoredTables = [], censoredSections = [], censoredViews = [],
      censoredColumns = [], censoredFields = [], canViewACLs = False\<rparr>"

text \<open>The engine after a bundle whose user action adds a row to \<open>_grist_ACLRules\<close> began.\<close>

definition ruleChangeEngine :: engine where
  "ruleChangeEngine =
     snd (getGranularAccessForBundle (newEngine exampleRules) ownerSession
            [AddRecord ''_grist_ACLRules'' 1 [(''aclFormula'', CStr ''True'')]] []
            [JArr [JStr ''AddRecord'', JStr ''_grist_ACLRules'', JNull,
                   JObj [(''aclFormula'', JStr ''True'')]]])"

text \<open>
  Table \<open>T\<close> with the columns \<open>status\<close>, \<open>level\<close> and \<open>secret\<close>; a row is given as
  its id and its three cells.
\<close>

definition tableT :: "(int \<times> string \<times> string \<times> string) list \<Rightarrow> table_data" where
  "tableT rows =
     \<lparr>td_tableId = ''T'', td_rowIds = map fst rows,
      td_columns = [(''status'', map (\<lambda>(i, s, l, x). CStr s) rows),
                    (''level'', map (\<lambda>(i, s, l, x). CStr l) rows),
                    (''secret'', map (\<lambda>(i, s, l, x). CStr x) rows)]\<rparr>"

text \<open>An engine with the example rules in the middle of an applied bundle.\<close>

definition bundleEngine :: "doc_action list \<Rightarrow> engine" where
  "bundleEngine docActions =
     (newEngine exampleRules)\<lparr>activeBundle := Some (exampleBundle docActions True False)\<rparr>"

text \<open>
  A bundle of one action: the secret of row 1, an open row of high level, is updated.
\<close>

definition secretUpdate :: doc_action where
  "secretUpdate = UpdateRecord ''T'' 1 [(''secret'', CStr ''x'')]"

definition secretUpdateSteps :: "action_step list" where
  "secretUpdateSteps =
     [emptyStep secretUpdate (tableT [(1, ''open'', ''high'', ''old'')])
        (tableT [(1, ''open'', ''high'', ''x'')])]"

text \<open>
  A bundle of one action on two rows: row 5 goes from \<open>draft\<close> to \<open>open\<close> and becomes
  visible, row 7 goes from \<open>open\<close> to \<open>archived\<close> and becomes hidden.
\<close>

definition statusUpdate :: doc_action where
  "statusUpdate = BulkUpdateRecord ''T'' [5, 7] [(''status'', [CStr ''open'', CStr ''archived''])]"

definition statusUpdateSteps :: "action_step list" where
  "statusUpdateSteps =
     [emptyStep statusUpdate
        (tableT [(5, ''draft'', ''low'', ''a''), (7, ''open'', ''low'', ''b'')])
        (tableT [(5, ''open'', ''low'', ''a''), (7, ''archived'', ''low'', ''b'')])]"



section \<open>Predicates of the statements\<close>

text \<open>
  Two actions have the same shape when they agree in name, table, row ids and column
  names, and are equal when they carry no cells: what cell censoring leaves unchanged.
\<close>

definition sameShape :: "doc_action \<Rightarrow> doc_action \<Rightarrow> bool" where
  "sameShape a b =
     (actionName a = actionName b \<and> getTableId a = getTableId b
      \<and> getRowIdsFromDocAction a = getRowIdsFromDocAction b
      \<and> columnKeys a = columnKeys b \<and> (hasCells a \<or> a = b))"

text \<open>
  The names under which \<open>_getUser\<close> stores attributes: those of the user-attribute
  rules that are not names every user object has (the built-in fields and what it
  inherits from \<open>Object.prototype\<close>).
\<close>

definition builtinName :: "string \<Rightarrow> bool" where
  "builtinName n =
     (n \<in> set [''Access'', ''UserID'', ''Email'', ''Name'', ''LinkKey'', ''Origin'']
      \<or> n \<in> set objectPrototypeNames)"

definition attributeNames :: "rule_collection \<Rightarrow> string list" where
  "attributeNames rc = filter (\<lambda>n. \<not> builtinName n) (map uar_name (rc_userAttributeRules rc))"

text \<open>
  An engine whose bundle removes the editor's row of table \<open>Teams\<close>: the attributes of
  the editor from before the bundle are in the cache, and the table is now empty.
\<close>

definition noTeams :: table_data where
  "noTeams = \<lparr>td_tableId = ''Teams'', td_rowIds = [], td_columns = [(''Email'', []), (''Team'', [])]\<rparr>"

definition leftTeamEngine :: engine where
  "leftTeamEngine =
     (teamEngine ''red'' ''blue'')
       \<lparr>fetchQueryFromDB := (\<lambda>q. Inr noTeams),
        activeBundle := Some (exampleBundle [RemoveRecord ''Teams'' 1] False False)\<rparr>"





text \<open>The test of the second pass: a data action on a structural table.\<close>

definition structuralData :: "store \<Rightarrow> nat \<Rightarrow> bool" where
  "structuralData h a = (getTableId (h ! a) \<in> set STRUCTURAL_TABLES \<and> isDataAction (h ! a))"



text \<open>
  Rules without row conditions for everyone but owners: table \<open>Hidden\<close> is not readable,
  table \<open>Staff\<close> is readable except for its column \<open>pay\<close>, every other table is
  readable.
\<close>

definition columnRules :: rule_collection where
  "columnRules =
     \<lparr>rc_haveRules = True, rc_ruleError = None, rc_userAttributeRules = [],
      rc_tableAccess =
        (\<lambda>i t. if isOwnerInput i then allPerms Allow
                else if t = ''Hidden'' then allPerms Deny
                else if t = ''Staff'' then allPerms MixedColumns
                else allPerms Allow),
      rc_columnAccess =
        (\<lambda>i t c. if isOwnerInput i then allPerms Allow
                  else if t = ''Hidden'' \<or> t = ''Staff'' \<and> c = ''pay'' then allPerms Deny
                  else allPerms Allow),
      rc_fullAccess = (\<lambda>i. if isOwnerInput i then allPerms Allow else allPerms Mixed)\<rparr>"

text \<open>A bundle of six actions on these tables, one step for each.\<close>

definition staffActions :: store where
  "staffActions =
     [AddRecord ''Hidden'' 1 [(''x'', CStr ''1'')],
      UpdateRecord ''Other'' 2 [(''y'', CStr ''2'')],
      UpdateRecord ''Staff'' 3 [(''name'', CStr ''n''), (''pay'', CNum 9)],
      UpdateRecord ''Staff'' 4 [(''pay'', CNum 7)],
      RemoveColumn ''Staff'' ''pay'',
      BulkAddRecord ''Staff'' [5, 6]
        [(''pay'', [CNum 1, CNum 2]), (''name'', [CStr ''a'', CStr ''b''])]]"

definition plainTable :: "string \<Rightarrow> table_data" where
  "plainTable t = \<lparr>td_tableId = t, td_rowIds = [], td_columns = []\<rparr>"

definition staffSteps :: "action_step list" where
  "staffSteps =
     map (\<lambda>a. emptyStep a (plainTable (getTableId a)) (plainTable (getTableId a))) staffActions"

text \<open>
  An engine in the middle of a bundle whose steps are computed and whose cache holds the
  permissions of the editor under the rules given.
\<close>

definition warmEngine :: "rule_collection \<Rightarrow> doc_action list \<Rightarrow> action_step list \<Rightarrow> engine" where
  "warmEngine rc docActions steps =
     (bundleEngine docActions)
       \<lparr>eng_ruler := \<lparr>ruleCollection = rc,
                      permissionInfoMap =
                        (\<lambda>s. if s = editorSession
                             then Some (Inr (editorPermissionInfo rc)) else None)\<rparr>,
        eng_steps := Some (Inr steps)\<rparr>"

text \<open>
  The permissions of a session are in the cache of the ruler, as \<open>_getAccess\<close> leaves
  them after its first call for the session.
\<close>

definition cachedFor :: "session \<Rightarrow> permission_info \<Rightarrow> engine \<Rightarrow> bool" where
  "cachedFor s p g = (permissionInfoMap (eng_ruler g) s = Some (Inr p))"

text \<open>
  The store after some filtering: it holds the objects it held, under the same names and
  tables, and maybe more.
\<close>

definition grows :: "store \<Rightarrow> store \<Rightarrow> bool" where
  "grows h h' =
     (length h \<le> length h'
      \<and> (\<forall>k < length h. actionName (h' ! k) = actionName (h ! k)
                        \<and> getTableId (h' ! k) = getTableId (h ! k)))"

text \<open>A data action on one of the two tables of access rules, and references to none.\<close>

definition aclData :: "doc_action \<Rightarrow> bool" where
  "aclData v = (isAclTable (getTableId v) \<and> isDataAction v)"

definition clean :: "store \<Rightarrow> nat list \<Rightarrow> bool" where
  "clean h refs = list_all (\<lambda>r. r < length h \<and> \<not> aclData (h ! r)) refs"

text \<open>
  The example rules with the special permission \<open>AccessRules\<close> denied to everyone but
  owners, and a bundle of two actions on the tables of access rules and one on a user
  table, with empty metadata tables in its steps.
\<close>

definition guardedRules :: rule_collection where
  "guardedRules =
     exampleRules\<lparr>rc_columnAccess :=
       (\<lambda>i t c. if isOwnerInput i then allPerms Allow
                 else if t = SPECIAL_RULES_TABLE_ID \<and> c = ''AccessRules'' then allPerms Deny
                 else allPerms Allow)\<rparr>"

definition emptyMeta :: "(string \<times> table_data) list" where
  "emptyMeta =
     map (\<lambda>t. (t, plainTable t))
       [''_grist_Tables'', ''_grist_Tables_column'', ''_grist_Views_section'',
        ''_grist_Views_section_field'']"

definition resourceActions :: store where
  "resourceActions =
     [UpdateRecord ''_grist_ACLResources'' 2 [(''colIds'', CStr ''*'')],
      TableData ''_grist_ACLRules'' [1] [(''aclFormula'', [CStr ''True''])],
      UpdateRecord ''Other'' 2 [(''y'', CStr ''2'')]]"

definition resourceSteps :: "action_step list" where
  "resourceSteps =
     map (\<lambda>a. (emptyStep a (plainTable (getTableId a)) (plainTable (getTableId a)))
                 \<lparr>st_metaBefore := Some emptyMeta, st_metaAfter := Some emptyMeta\<rparr>)
       resourceActions"

section \<open>Properties\<close>

text \<open>
  C3. The flag \<open>hasDeliberateRuleChange\<close> recorded by \<open>getGranularAccessForBundle\<close>
  should be true exactly when some user action, searched through every container at any
  position, targets \<open>_grist_ACLRules\<close> or \<open>_grist_ACLResources\<close>. The scan returns at the
  first container it meets: for the list of an empty \<open>ApplyUndoActions\<close> followed by an
  \<open>AddRecord\<close> on \<open>_grist_ACLRules\<close> the recorded flag is false, although the second
  action targets an ACL table.
\<close>

theorem C3_scan_stops_at_first_container:
  "map_option b_hasDeliberateRuleChange
     (activeBundle (snd (getGranularAccessForBundle (newEngine noRules) ownerSession [] []
        [JArr [JStr ''ApplyUndoActions'', JArr []],
         JArr [JStr ''AddRecord'', JStr ''_grist_ACLRules'', JNull,
               JObj [(''aclFormula'', JStr ''True'')]]]))) = Some False
   \<and> spec_hasDeliberateRuleChange
        [JArr [JStr ''ApplyUndoActions'', JArr []],
         JArr [JStr ''AddRecord'', JStr ''_grist_ACLRules'', JNull,
               JObj [(''aclFormula'', JStr ''True'')]]] = True"
  by (simp add: getGranularAccessForBundle_def newEngine_def spec_hasDeliberateRuleChange_def
      isAclTable_def js_index_def isContainer_def)

subsection \<open>The ingress check\<close>

lemma special_not_ok: "name \<in> set SPECIAL_ACTIONS \<Longrightarrow> name \<notin> set OK_ACTIONS"
  by (auto simp: SPECIAL_ACTIONS_def OK_ACTIONS_def)

lemma surprising_not_others:
  "name \<in> set SURPRISING_ACTIONS \<Longrightarrow> name \<notin> set OK_ACTIONS \<and> name \<notin> set SPECIAL_ACTIONS"
  by (auto simp: SPECIAL_ACTIONS_def OK_ACTIONS_def SURPRISING_ACTIONS_def)

text \<open>
  C9. In \<open>assertCanMaybeApplyUserAction\<close>, for an action whose element 0 is the name: a
  \<open>Calculate\<close> action is allowed whatever the rules are. For an action named in \<open>SPECIAL_ACTIONS\<close> the answer follows
  \<open>hasNuancedAccess\<close>: allowed exactly when the user has no nuanced access, an
  \<open>ACL_DENY\<close> error otherwise. For an action named in \<open>SURPRISING_ACTIONS\<close> the answer
  follows \<open>hasFullAccess\<close> (which is \<open>isOwner\<close>): allowed exactly when the user has
  full access, an \<open>ACL_DENY\<close> error otherwise. An exception of the access test itself
  is passed on.
\<close>

theorem C9_ingress_classification:
  assumes "js_index a 0 = Inr (JStr name)"
  shows "(name = ''Calculate'' \<longrightarrow>
        fst (assertCanMaybeApplyUserAction X g docSession a) = Inr True)
   \<and> (name \<in> set SPECIAL_ACTIONS \<longrightarrow>
        fst (assertCanMaybeApplyUserAction X g docSession a) =
          (case fst (hasNuancedAccess X g docSession) of
             Inl e \<Rightarrow> Inl e
           | Inr nuanced \<Rightarrow>
               if nuanced
               then Inl (ACL_DENY (''Blocked by access rules: '' @ [CHR 0x27] @ name @ [CHR 0x27]
                                   @ '' actions need uncomplicated access'') [])
               else Inr True))
   \<and> (name \<in> set SURPRISING_ACTIONS \<longrightarrow>
        fst (assertCanMaybeApplyUserAction X g docSession a) =
          (case fst (hasFullAccess X g docSession) of
             Inl e \<Rightarrow> Inl e
           | Inr full \<Rightarrow>
               if full then Inr True
               else Inl (ACL_DENY (''Blocked by access rules: '' @ [CHR 0x27] @ name @ [CHR 0x27]
                                   @ '' actions need full access'') [])))"
proof (intro conjI impI)
  assume "name = ''Calculate''"
  then show "fst (assertCanMaybeApplyUserAction X g docSession a) = Inr True"
    using assms by (simp add: OK_ACTIONS_def hasName_def)
next
  assume s: "name \<in> set SPECIAL_ACTIONS"
  with special_not_ok[OF s] assms
  show "fst (assertCanMaybeApplyUserAction X g docSession a) =
          (case fst (hasNuancedAccess X g docSession) of
             Inl e \<Rightarrow> Inl e
           | Inr nuanced \<Rightarrow>
               if nuanced
               then Inl (ACL_DENY (''Blocked by access rules: '' @ [CHR 0x27] @ name @ [CHR 0x27]
                                   @ '' actions need uncomplicated access'') [])
               else Inr True)"
    by (simp add: hasName_def nameText_def split: prod.splits sum.splits)
next
  assume s: "name \<in> set SURPRISING_ACTIONS"
  with surprising_not_others[OF s] assms
  show "fst (assertCanMaybeApplyUserAction X g docSession a) =
          (case fst (hasFullAccess X g docSession) of
             Inl e \<Rightarrow> Inl e
           | Inr full \<Rightarrow>
               if full then Inr True
               else Inl (ACL_DENY (''Blocked by access rules: '' @ [CHR 0x27] @ name @ [CHR 0x27]
                                   @ '' actions need full access'') []))"
    by (simp add: hasName_def nameText_def split: prod.splits sum.splits)
qed

lemma editor_is_nuanced:
  "fst (hasNuancedAccess (exampleCollaborators []) (newEngine exampleRules) editorSession) = Inr True"
  by (simp add: hasNuancedAccess_def haveRules_def newEngine_def exampleRules_def hasFullAccess_def
      isOwner_def getNominalAccess_def editorSession_def truthy_def)

lemma owner_is_full:
  "fst (hasFullAccess (exampleCollaborators []) (newEngine exampleRules) ownerSession) = Inr True"
  by (simp add: hasFullAccess_def isOwner_def getNominalAccess_def ownerSession_def truthy_def)

lemma example_names:
  "js_index (JArr [JStr ''Calculate'']) 0 = Inr (JStr ''Calculate'')
   \<and> js_index (JArr [JStr ''AddView'', JStr ''T'', JStr ''raw'', JStr ''V'']) 0 = Inr (JStr ''AddView'')
   \<and> js_index (JArr [JStr ''RemoveView'', JNum 3]) 0 = Inr (JStr ''RemoveView'')"
  by (simp add: js_index_def)

text \<open>
  \<open>Calculate\<close> of an editor is allowed; with rules in force, \<open>AddView\<close> of an editor is
  denied and \<open>RemoveView\<close> of an owner is allowed.
\<close>

theorem C9_ingress_classification_witness:
  "js_index (JArr [JStr ''Calculate'']) 0 = Inr (JStr ''Calculate'')
   \<and> fst (assertCanMaybeApplyUserAction (exampleCollaborators []) (newEngine exampleRules)
            editorSession (JArr [JStr ''Calculate''])) = Inr True
   \<and> js_index (JArr [JStr ''AddView'', JStr ''T'', JStr ''raw'', JStr ''V'']) 0 = Inr (JStr ''AddView'')
   \<and> ''AddView'' \<in> set SPECIAL_ACTIONS
   \<and> fst (hasNuancedAccess (exampleCollaborators []) (newEngine exampleRules) editorSession) = Inr True
   \<and> fst (assertCanMaybeApplyUserAction (exampleCollaborators []) (newEngine exampleRules)
            editorSession (JArr [JStr ''AddView'', JStr ''T'', JStr ''raw'', JStr ''V''])) =
       Inl (ACL_DENY (''Blocked by access rules: '' @ [CHR 0x27] @ ''AddView'' @ [CHR 0x27]
                      @ '' actions need uncomplicated access'') [])
   \<and> js_index (JArr [JStr ''RemoveView'', JNum 3]) 0 = Inr (JStr ''RemoveView'')
   \<and> ''RemoveView'' \<in> set SURPRISING_ACTIONS
   \<and> fst (hasFullAccess (exampleCollaborators []) (newEngine exampleRules) ownerSession) = Inr True
   \<and> fst (assertCanMaybeApplyUserAction (exampleCollaborators []) (newEngine exampleRules)
            ownerSession (JArr [JStr ''RemoveView'', JNum 3])) = Inr True"
  using C9_ingress_classification [of "JArr [JStr ''Calculate'']" "''Calculate''"
          "exampleCollaborators []" "newEngine exampleRules" editorSession]
        C9_ingress_classification [of "JArr [JStr ''AddView'', JStr ''T'', JStr ''raw'', JStr ''V'']"
          "''AddView''" "exampleCollaborators []" "newEngine exampleRules" editorSession]
        C9_ingress_classification [of "JArr [JStr ''RemoveView'', JNum 3]" "''RemoveView''"
          "exampleCollaborators []" "newEngine exampleRules" ownerSession]
        editor_is_nuanced owner_is_full example_names
  by (simp add: SPECIAL_ACTIONS_def SURPRISING_ACTIONS_def)

subsection \<open>\<open>appliedBundle\<close> and \<open>finishedBundle\<close>\<close>

text \<open>
  C6 as stated fails: \<open>appliedBundle\<close> returns right after setting the flag when there
  are no rules. With no rules and a schema action in the bundle, an entry of the cache
  of the ruler is still there afterwards.
\<close>

theorem C6_cache_kept_without_rules:
  "schemaChange [AddTable ''T'']
   \<and> activeBundle cachedEngine = Some (exampleBundle [AddTable ''T''] False False)
   \<and> permissionInfoMap (eng_ruler (snd (appliedBundle cachedEngine))) ownerSession
       = Some (Inl (Error ''cached''))"
  by (simp add: cachedEngine_def appliedBundle_def haveRules_def newEngine_def noRules_def
      exampleBundle_def schemaChange_def)

text \<open>
  C6, amended. For an engine with an active bundle, \<open>appliedBundle\<close> sets the flag
  \<open>applied\<close>; if rules exist and some action touches a table of a user-attribute rule,
  the attribute cache becomes the previous cache and a new empty cache is allocated; if
  rules exist and a user-attribute table was touched or some action is a schema action,
  the cache of the ruler is cleared. Nothing else of the engine changes, and without
  rules only the flag changes.
\<close>

theorem C6_appliedBundle_effects:
  assumes "activeBundle g = Some b"
  shows "fst (appliedBundle g) = Inr ()
   \<and> activeBundle (snd (appliedBundle g)) = Some (b\<lparr>b_applied := True\<rparr>)
   \<and> prevUserAttributesMap (snd (appliedBundle g)) =
       (if haveRules g \<and> attrChange g (b_docActions b) then Some (userAttributesMap g)
        else prevUserAttributesMap g)
   \<and> userAttributesMap (snd (appliedBundle g)) =
       (if haveRules g \<and> attrChange g (b_docActions b) then (\<lambda>s. None)
        else userAttributesMap g)
   \<and> permissionInfoMap (eng_ruler (snd (appliedBundle g))) =
       (if haveRules g \<and> (attrChange g (b_docActions b) \<or> schemaChange (b_docActions b))
        then (\<lambda>s. None) else permissionInfoMap (eng_ruler g))
   \<and> ruleCollection (eng_ruler (snd (appliedBundle g))) = ruleCollection (eng_ruler g)
   \<and> eng_steps (snd (appliedBundle g)) = eng_steps g
   \<and> docData (snd (appliedBundle g)) = docData g
   \<and> fetchQueryFromDB (snd (appliedBundle g)) = fetchQueryFromDB g
   \<and> recoveryMode (snd (appliedBundle g)) = recoveryMode g
   \<and> homeDbManager (snd (appliedBundle g)) = homeDbManager g
   \<and> docId (snd (appliedBundle g)) = docId g"
  using assms
  by (simp add: appliedBundle_def haveRules_def attrChange_def schemaChange_def clearCache_def
      Let_def)

lemma teamEngine_facts:
  "activeBundle (teamEngine ''red'' ''blue'') =
     Some (exampleBundle [UpdateRecord ''Teams'' 1 [(''Team'', CStr ''blue'')]] False False)
   \<and> haveRules (teamEngine ''red'' ''blue'')
   \<and> attrChange (teamEngine ''red'' ''blue'')
        [UpdateRecord ''Teams'' 1 [(''Team'', CStr ''blue'')]]
   \<and> userAttributesMap (teamEngine ''red'' ''blue'') editorSession = Some (teamAttributes ''red'')"
  by (simp add: teamEngine_def newEngine_def haveRules_def attributeRules_def exampleRules_def
      attrChange_def)

text \<open>
  A bundle that updates table \<open>Teams\<close>, which a user-attribute rule looks up: the
  attributes of the editor move to the previous cache and the new cache is empty.
\<close>

theorem C6_appliedBundle_effects_witness:
  "activeBundle (teamEngine ''red'' ''blue'') =
     Some (exampleBundle [UpdateRecord ''Teams'' 1 [(''Team'', CStr ''blue'')]] False False)
   \<and> map_option (\<lambda>m. m editorSession)
        (prevUserAttributesMap (snd (appliedBundle (teamEngine ''red'' ''blue''))))
       = Some (Some (teamAttributes ''red''))
   \<and> userAttributesMap (snd (appliedBundle (teamEngine ''red'' ''blue''))) editorSession = None
   \<and> map_option b_applied (activeBundle (snd (appliedBundle (teamEngine ''red'' ''blue''))))
       = Some True"
  using C6_appliedBundle_effects [of "teamEngine ''red'' ''blue''"
          "exampleBundle [UpdateRecord ''Teams'' 1 [(''Team'', CStr ''blue'')]] False False"]
        teamEngine_facts
  by (simp add: exampleBundle_def)

lemma filter_outside_bundle:
  "filterOutgoingDocActions (exampleCollaborators []) (newEngine exampleRules, [AddTable ''T''])
        editorSession [0] =
     (Inl (Error ''no active bundle''),
      (newEngine exampleRules)\<lparr>eng_steps := Some (Inl (Error ''no active bundle''))\<rparr>,
      [AddTable ''T''])"
  by (simp add: filterOutgoingDocActions_def bundleHasDeliberateRuleChange_def newEngine_def
      haveRules_def exampleRules_def checkUserAttributes_def filterOutgoingDocAction_def
      getStepAccess_def getStep_def getSteps_def getUncachedSteps_def Promise_all_def
      rejections_def exampleCollaborators_def)

text \<open>
  C7 as stated fails: \<open>finishedBundle\<close> returns at once when there is no active bundle,
  and then clears nothing. After \<open>filterOutgoingDocActions\<close> was called on a new engine
  with rules and no bundle, \<open>_steps\<close> holds the rejected promise of the step
  computation; \<open>finishedBundle\<close> leaves it there.
\<close>

theorem C7_steps_kept_without_bundle:
  "activeBundle (fst (snd (filterOutgoingDocActions (exampleCollaborators [])
        (newEngine exampleRules, [AddTable ''T'']) editorSession [0]))) = None
   \<and> eng_steps (finishedBundle (exampleCollaborators [])
        (fst (snd (filterOutgoingDocActions (exampleCollaborators [])
           (newEngine exampleRules, [AddTable ''T'']) editorSession [0]))))
      = Some (Inl (Error ''no active bundle''))"
  by (simp add: filter_outside_bundle finishedBundle_def) (simp add: newEngine_def)

text \<open>
  C7, amended. After every call of \<open>finishedBundle\<close> the engine has no active bundle,
  and a second call changes nothing more. A call made while a bundle is active, applied
  or not, also clears \<open>_steps\<close> and \<open>_prevUserAttributesMap\<close>; a call made with no
  active bundle leaves the engine as it is.
\<close>

theorem C7_finishedBundle_idle:
  "activeBundle (finishedBundle X g) = None
   \<and> finishedBundle X (finishedBundle X g) = finishedBundle X g
   \<and> (activeBundle g \<noteq> None \<longrightarrow>
        eng_steps (finishedBundle X g) = None \<and> prevUserAttributesMap (finishedBundle X g) = None)
   \<and> (activeBundle g = None \<longrightarrow> finishedBundle X g = g)"
  by (auto simp: finishedBundle_def Let_def split: option.splits)

lemma applied_teamEngine_facts:
  "activeBundle (snd (appliedBundle (teamEngine ''red'' ''blue''))) \<noteq> None
   \<and> prevUserAttributesMap (snd (appliedBundle (teamEngine ''red'' ''blue''))) \<noteq> None"
  by (simp add: appliedBundle_def teamEngine_def newEngine_def haveRules_def attributeRules_def
      exampleRules_def attrChange_def exampleBundle_def schemaChange_def clearCache_def)

text \<open>
  The applied bundle on table \<open>Teams\<close> has set the previous attribute cache;
  \<open>finishedBundle\<close> clears it. On the new engine, which has no bundle, it changes nothing.
\<close>

theorem C7_finishedBundle_idle_witness:
  "activeBundle (snd (appliedBundle (teamEngine ''red'' ''blue''))) \<noteq> None
   \<and> prevUserAttributesMap (snd (appliedBundle (teamEngine ''red'' ''blue''))) \<noteq> None
   \<and> prevUserAttributesMap (finishedBundle (exampleCollaborators [])
        (snd (appliedBundle (teamEngine ''red'' ''blue'')))) = None
   \<and> eng_steps (finishedBundle (exampleCollaborators [])
        (snd (appliedBundle (teamEngine ''red'' ''blue'')))) = None
   \<and> activeBundle (newEngine noRules) = None
   \<and> finishedBundle (exampleCollaborators []) (newEngine noRules) = newEngine noRules"
  using C7_finishedBundle_idle [of "exampleCollaborators []"
          "snd (appliedBundle (teamEngine ''red'' ''blue''))"]
        C7_finishedBundle_idle [of "exampleCollaborators []" "newEngine noRules"]
        applied_teamEngine_facts
  by (simp add: newEngine_def)

subsection \<open>Reloads\<close>

lemma getUserAttributes_bundle: "activeBundle (snd (getUserAttributes g s)) = activeBundle g"
  by (simp add: getUserAttributes_def split: option.splits)

lemma buildUser_bundle: "activeBundle (snd (buildUser X g s attrs access fu)) = activeBundle g"
  by (simp add: buildUser_def setUserAttributes_def Let_def split: option.splits prod.splits)

lemma getUser_bundle: "activeBundle (snd (getUser X g s)) = activeBundle g"
  using getUserAttributes_bundle[of g s]
  by (auto simp: getUser_def Let_def buildUser_bundle setUserAttributes_def
      split: option.splits prod.splits sum.splits)

lemma getAccess_bundle: "activeBundle (snd (getAccess X g s)) = activeBundle g"
  using getUser_bundle[of X g s]
  by (auto simp: getAccess_def Let_def split: option.splits prod.splits sum.splits)

lemma getNominalAccess_bundle: "activeBundle (snd (getNominalAccess X g s)) = activeBundle g"
  using getUser_bundle[of X g s]
  by (auto simp: getNominalAccess_def Let_def split: option.splits prod.splits sum.splits)

lemma canReadEverything_bundle: "activeBundle (snd (canReadEverything X g s)) = activeBundle g"
proof (cases "getNominalAccess X g s")
  case (Pair r g1)
  have a: "activeBundle g1 = activeBundle g"
    using getNominalAccess_bundle[of X g s] Pair by simp
  show ?thesis
  proof (cases r)
    case (Inl e)
    with Pair a show ?thesis by (simp add: canReadEverything_def)
  next
    case (Inr access)
    show ?thesis
      using Pair Inr a getAccess_bundle[of X g1 s]
      by (auto simp: canReadEverything_def split: prod.splits sum.splits)
  qed
qed

lemma filterActionGroup_bundle: "activeBundle (snd (filterActionGroup X g s ag)) = activeBundle g"
  using canReadEverything_bundle[of X g s]
  by (auto simp: filterActionGroup_def split: prod.splits sum.splits)

text \<open>
  C4. When the active bundle has the flag \<open>hasDeliberateRuleChange\<close>,
  \<open>filterOutgoingDocActions\<close> throws \<open>NEED_RELOAD\<close> for every session and every list
  of actions, before anything else. The callback \<open>_filterDocUpdate\<close> of the broadcast
  therefore never returns a message for such a bundle: it throws \<open>NEED_RELOAD\<close>, unless
  filtering the action group, which comes first, has thrown already.
\<close>

theorem C4_deliberate_rule_change_reloads:
  assumes "bundleHasDeliberateRuleChange g"
  shows "fst (filterOutgoingDocActions X (g, h) docSession docActions) =
           Inl (NEED_RELOAD ''document needs reload, access rules changed'')
   \<and> fst (filterDocUpdate X (g, h) docSession message) =
       (case fst (filterActionGroup X g docSession (fst message)) of
          Inl e \<Rightarrow> Inl e
        | Inr actionGroup \<Rightarrow> Inl (NEED_RELOAD ''document needs reload, access rules changed''))"
proof
  show "fst (filterOutgoingDocActions X (g, h) docSession docActions) =
           Inl (NEED_RELOAD ''document needs reload, access rules changed'')"
    using assms by (simp add: filterOutgoingDocActions_def)
next
  obtain b where b: "activeBundle g = Some b" "b_hasDeliberateRuleChange b"
    using assms by (auto simp: bundleHasDeliberateRuleChange_def split: option.splits)
  obtain r g1 where r: "filterActionGroup X g docSession (fst message) = (r, g1)"
    by (cases "filterActionGroup X g docSession (fst message)")
  have "activeBundle g1 = Some b"
    using filterActionGroup_bundle[of X g docSession "fst message"] r b by simp
  then have flag: "bundleHasDeliberateRuleChange g1"
    using b by (simp add: bundleHasDeliberateRuleChange_def)
  show "fst (filterDocUpdate X (g, h) docSession message) =
       (case fst (filterActionGroup X g docSession (fst message)) of
          Inl e \<Rightarrow> Inl e
        | Inr actionGroup \<Rightarrow> Inl (NEED_RELOAD ''document needs reload, access rules changed''))"
    using b r flag
    by (cases r) (simp_all add: filterDocUpdate_def filterOutgoingDocActions_def)
qed

lemma ruleChangeEngine_flag: "bundleHasDeliberateRuleChange ruleChangeEngine"
  by (simp add: ruleChangeEngine_def getGranularAccessForBundle_def newEngine_def isAclTable_def
      bundleHasDeliberateRuleChange_def js_index_def isContainer_def)

text \<open>
  An owner adds a row to \<open>_grist_ACLRules\<close>: the owner's own session gets \<open>NEED_RELOAD\<close>
  from the filter and from the broadcast callback.
\<close>

theorem C4_deliberate_rule_change_reloads_witness:
  "bundleHasDeliberateRuleChange ruleChangeEngine
   \<and> fst (filterOutgoingDocActions (exampleCollaborators [])
        (ruleChangeEngine, [AddRecord ''_grist_ACLRules'' 1 [(''aclFormula'', CStr ''True'')]])
        ownerSession [0]) = Inl (NEED_RELOAD ''document needs reload, access rules changed'')
   \<and> fst (filterDocUpdate (exampleCollaborators [])
        (ruleChangeEngine, [AddRecord ''_grist_ACLRules'' 1 [(''aclFormula'', CStr ''True'')]])
        ownerSession (\<lparr>ag_actionSummary = [], ag_desc = ''add rule'', ag_rest = []\<rparr>, [0]))
       = Inl (NEED_RELOAD ''document needs reload, access rules changed'')"
proof -
  have ag: "fst (filterActionGroup (exampleCollaborators []) ruleChangeEngine ownerSession
                  \<lparr>ag_actionSummary = [], ag_desc = ''add rule'', ag_rest = []\<rparr>)
            = Inr \<lparr>ag_actionSummary = [], ag_desc = ''add rule'', ag_rest = []\<rparr>"
    by (simp add: filterActionGroup_def canReadEverything_def getNominalAccess_def
        ownerSession_def truthy_def exampleCollaborators_def getAccess_def ruleChangeEngine_def
        getGranularAccessForBundle_def newEngine_def isAclTable_def getUser_def
        js_index_def isContainer_def getUserAttributes_def buildUser_def exampleRules_def setUserAttributes_def
        newUserAttributes_def getFullAccess_def isOwnerInput_def allPerms_def Let_def)
  show ?thesis
    using C4_deliberate_rule_change_reloads [OF ruleChangeEngine_flag,
            of "exampleCollaborators []"
               "[AddRecord ''_grist_ACLRules'' 1 [(''aclFormula'', CStr ''True'')]]"
               ownerSession "[0]"
               "(\<lparr>ag_actionSummary = [], ag_desc = ''add rule'', ag_rest = []\<rparr>, [0])"]
          ruleChangeEngine_flag ag
    by simp
qed

text \<open>
  C5 as stated fails. A session that has no entry in the previous attribute cache is
  not checked: the guard returns without evaluating anything, though the previous cache
  is present and the session's attributes now hold a team.
\<close>

theorem C5_unchecked_attribute_changes:
  "prevUserAttributesMap (attributeEngine None (Some (teamAttributes ''blue''))) \<noteq> None
   \<and> checkUserAttributes (exampleCollaborators [])
      (attributeEngine None (Some (teamAttributes ''blue''))) editorSession
     = (Inr (), attributeEngine None (Some (teamAttributes ''blue'')))"
  by (simp add: checkUserAttributes_def attributeEngine_def)

text \<open>
  \<open>_getUser\<close> stores an attribute for every user-attribute rule whose name is not a
  name of the user object already: after it has returned, and so after a \<open>_getAccess\<close>
  that has returned, the attribute cache of the session holds all these names.
\<close>

lemma inUser_iff: "inUser n user \<longleftrightarrow> builtinName n \<or> n \<in> set (map fst (u_attrs user))"
  by (auto simp: inUser_def builtinName_def)

lemma map_of_in_keys: "map_of xs k = Some v \<Longrightarrow> k \<in> set (map fst xs)"
  by (induction xs) (auto split: if_splits)

lemma attributeLoop_names:
  "attributeLoop X g rules user attrs = (user', attrs') \<Longrightarrow>
   set (map fst (u_attrs user)) \<subseteq> set (map fst (ua_rows attrs)) \<Longrightarrow>
     set (map fst (ua_rows attrs)) \<subseteq> set (map fst (ua_rows attrs'))
   \<and> set (filter (\<lambda>n. \<not> builtinName n) (map uar_name rules)) \<subseteq> set (map fst (ua_rows attrs'))
   \<and> ua_override attrs' = ua_override attrs"
proof (induction rules arbitrary: user attrs)
  case Nil
  then show ?case by simp
next
  case (Cons clause rest)
  show ?case
  proof (cases "inUser (uar_name clause) user")
    case True
    then have run: "attributeLoop X g rest user attrs = (user', attrs')"
      using Cons.prems(1) by simp
    have "builtinName (uar_name clause) \<or> uar_name clause \<in> set (map fst (ua_rows attrs))"
      using True Cons.prems(2) by (auto simp: inUser_iff)
    then show ?thesis using Cons.IH[OF run Cons.prems(2)] by auto
  next
    case False
    show ?thesis
    proof (cases "map_of (ua_rows attrs) (uar_name clause)")
      case (Some r)
      have run: "attributeLoop X g rest
                   (user\<lparr>u_attrs := u_attrs user @ [(uar_name clause, r)]\<rparr>) attrs = (user', attrs')"
        using Cons.prems(1) False Some by simp
      have k: "uar_name clause \<in> set (map fst (ua_rows attrs))"
        using map_of_in_keys[OF Some] .
      have inv: "set (map fst (u_attrs (user\<lparr>u_attrs := u_attrs user @ [(uar_name clause, r)]\<rparr>)))
                   \<subseteq> set (map fst (ua_rows attrs))"
        using Cons.prems(2) k by auto
      show ?thesis using Cons.IH[OF run inv] k by auto
    next
      case None
      define r where "r = (case fetchQueryFromDB g
                    \<lparr>q_tableId = uar_tableId clause,
                     q_filters = [(uar_lookupColId clause, [lodashGet X user (uar_charId clause)])]\<rparr> of
                         Inl e \<Rightarrow> EmptyRecordView
                       | Inr d \<Rightarrow> if length (td_rowIds d) > 0 then RecordView d (Some 0)
                                 else EmptyRecordView)"
      have run: "attributeLoop X g rest
                   (user\<lparr>u_attrs := u_attrs user @ [(uar_name clause, r)]\<rparr>)
                   (attrs\<lparr>ua_rows := ua_rows attrs @ [(uar_name clause, r)]\<rparr>) = (user', attrs')"
        using Cons.prems(1) False None by (simp add: r_def Let_def)
      have inv: "set (map fst (u_attrs (user\<lparr>u_attrs := u_attrs user @ [(uar_name clause, r)]\<rparr>)))
                   \<subseteq> set (map fst (ua_rows (attrs\<lparr>ua_rows := ua_rows attrs @ [(uar_name clause, r)]\<rparr>)))"
        using Cons.prems(2) by auto
      show ?thesis using Cons.IH[OF run inv] by auto
    qed
  qed
qed

lemma buildUser_names:
  assumes "buildUser X g s attrs access fu = (Inr user, g')"
  shows "\<exists>attrs'. userAttributesMap g' s = Some attrs'
           \<and> set (map fst (ua_rows attrs)) \<subseteq> set (map fst (ua_rows attrs'))
           \<and> set (attributeNames (ruleCollection (eng_ruler g))) \<subseteq> set (map fst (ua_rows attrs'))
           \<and> eng_ruler g' = eng_ruler g"
proof -
  define user0 where "user0 =
            \<lparr>u_Access = access,
             u_UserID = (case fu of None \<Rightarrow> None
                         | Some f \<Rightarrow> if fu_id f = 0 then None else Some (fu_id f)),
             u_Email = (case fu of None \<Rightarrow> None
                        | Some f \<Rightarrow> if fu_email f = [] then None else Some (fu_email f)),
             u_Name = (case fu of None \<Rightarrow> None
                       | Some f \<Rightarrow> if fu_name f = [] then None else Some (fu_name f)),
             u_LinkKey = (case linkParameters s of None \<Rightarrow> [] | Some p \<Rightarrow> p),
             u_Origin = (case reqOrigin s of None \<Rightarrow> None
                         | Some p \<Rightarrow> if p = [] then None else Some p),
             u_attrs = []\<rparr>"
  obtain user' attrs' where loop:
    "attributeLoop X g (rc_userAttributeRules (ruleCollection (eng_ruler g))) user0 attrs
       = (user', attrs')"
    by (cases "attributeLoop X g (rc_userAttributeRules (ruleCollection (eng_ruler g))) user0 attrs")
  have g': "g' = setUserAttributes g s attrs'"
    using assms loop
    by (auto simp: buildUser_def Let_def user0_def[symmetric] split: option.splits if_splits)
  have "set (map fst (u_attrs user0)) \<subseteq> set (map fst (ua_rows attrs))"
    by (simp add: user0_def)
  from attributeLoop_names[OF loop this] show ?thesis
    using g' by (simp add: setUserAttributes_def attributeNames_def)
qed

lemma getUser_names:
  assumes "getUser X g s = (Inr user, g')"
  shows "\<exists>attrs'. userAttributesMap g' s = Some attrs'
           \<and> set (attributeNames (ruleCollection (eng_ruler g))) \<subseteq> set (map fst (ua_rows attrs'))
           \<and> eng_ruler g' = eng_ruler g"
proof -
  obtain attrs g1 where ga: "getUserAttributes g s = (attrs, g1)"
    by (cases "getUserAttributes g s")
  have r1: "eng_ruler g1 = eng_ruler g"
    using ga by (auto simp: getUserAttributes_def split: option.splits)
  show ?thesis
    using assms ga r1
    by (auto simp: getUser_def Let_def setUserAttributes_def
             split: if_splits option.splits sum.splits dest!: buildUser_names)
qed

text \<open>After a successful \<open>_getAccess\<close> the attribute cache of the session is complete.\<close>

lemma getAccess_names:
  assumes ok: "getAccess X g s = (Inr permInfo, g')"
    and cached: "permissionInfoMap (eng_ruler g) s \<noteq> None \<longrightarrow>
           (\<exists>attrs. userAttributesMap g s = Some attrs
              \<and> set (attributeNames (ruleCollection (eng_ruler g))) \<subseteq> set (map fst (ua_rows attrs)))"
  shows "\<exists>attrs'. userAttributesMap g' s = Some attrs'
           \<and> set (attributeNames (ruleCollection (eng_ruler g))) \<subseteq> set (map fst (ua_rows attrs'))"
proof (cases "permissionInfoMap (eng_ruler g) s")
  case (Some r)
  then have "g' = g" using ok by (simp add: getAccess_def)
  then show ?thesis using cached Some by simp
next
  case None
  obtain res g1 where gu: "getUser X g s = (res, g1)" by (cases "getUser X g s")
  obtain user where u: "res = Inr user"
    using ok None gu by (cases res) (auto simp: getAccess_def Let_def)
  have g': "userAttributesMap g' = userAttributesMap g1"
    using ok None gu by (auto simp: getAccess_def Let_def)
  show ?thesis using getUser_names[of X g s user g1] gu u g' by auto
qed

lemma attributeChanged_rows:
  "list_ex (attributeChanged X before) rows =
   list_ex (\<lambda>(name, rec).
              case map_of (ua_rows before) name of
                None \<Rightarrow> True
              | Some prev \<Rightarrow> JSON_stringify X (view_toJSON prev)
                             \<noteq> JSON_stringify X (view_toJSON rec)) rows"
  by (induction rows) (auto simp: attributeChanged_def split: option.splits)

text \<open>
  C5, amended. \<open>_checkUserAttributes\<close> does nothing when there is no previous attribute
  cache, and nothing when that cache has no entry for the session. For a session with an
  entry it makes sure the attributes are computed (an exception of that computation is
  passed on) and throws \<open>NEED_RELOAD\<close> exactly when some attribute that the session has
  now is missing from the previous attributes or has another \<open>JSON.stringify\<close> text
  than before. No attribute of before escapes the comparison: when the previous
  attributes were stored under the rules in force, and the permissions of the session
  are cached only together with its attributes (\<open>appliedBundle\<close> clears both), every
  name of the previous attributes is among the attributes compared; an attribute whose
  row is gone is compared as the empty record.
\<close>

theorem C5_checkUserAttributes:
  "(prevUserAttributesMap g = None \<longrightarrow> checkUserAttributes X g docSession = (Inr (), g))
   \<and> (prevUserAttributesMap g = Some prevMap \<and> prevMap docSession = None \<longrightarrow>
        checkUserAttributes X g docSession = (Inr (), g))
   \<and> (prevUserAttributesMap g = Some prevMap \<and> prevMap docSession = Some userAttrBefore \<longrightarrow>
        fst (checkUserAttributes X g docSession) =
          (case fst (getAccess X g docSession) of
             Inl e \<Rightarrow> Inl e
           | Inr permInfo \<Rightarrow>
               if list_ex (\<lambda>(name, rec).
                     case map_of (ua_rows userAttrBefore) name of
                       None \<Rightarrow> True
                     | Some prev \<Rightarrow> JSON_stringify X (view_toJSON prev)
                                    \<noteq> JSON_stringify X (view_toJSON rec))
                    (ua_rows (fst (getUserAttributes (snd (getAccess X g docSession)) docSession)))
               then Inl (NEED_RELOAD ''document needs reload, user attributes changed'')
               else Inr ()))
   \<and> (prevUserAttributesMap g = Some prevMap \<and> prevMap docSession = Some userAttrBefore
        \<and> set (map fst (ua_rows userAttrBefore))
              \<subseteq> set (attributeNames (ruleCollection (eng_ruler g)))
        \<and> (permissionInfoMap (eng_ruler g) docSession \<noteq> None \<longrightarrow>
              (\<exists>attrs. userAttributesMap g docSession = Some attrs
                 \<and> set (attributeNames (ruleCollection (eng_ruler g)))
                       \<subseteq> set (map fst (ua_rows attrs))))
        \<and> fst (getAccess X g docSession) = Inr permInfo \<longrightarrow>
        set (map fst (ua_rows userAttrBefore))
          \<subseteq> set (map fst (ua_rows (fst (getUserAttributes (snd (getAccess X g docSession))
                                            docSession)))))"
proof (intro conjI impI)
  assume h: "prevUserAttributesMap g = Some prevMap \<and> prevMap docSession = Some userAttrBefore
        \<and> set (map fst (ua_rows userAttrBefore))
              \<subseteq> set (attributeNames (ruleCollection (eng_ruler g)))
        \<and> (permissionInfoMap (eng_ruler g) docSession \<noteq> None \<longrightarrow>
              (\<exists>attrs. userAttributesMap g docSession = Some attrs
                 \<and> set (attributeNames (ruleCollection (eng_ruler g)))
                       \<subseteq> set (map fst (ua_rows attrs))))
        \<and> fst (getAccess X g docSession) = Inr permInfo"
  obtain g' where ok: "getAccess X g docSession = (Inr permInfo, g')"
    using h by (cases "getAccess X g docSession") auto
  obtain attrs' where a: "userAttributesMap g' docSession = Some attrs'"
    "set (attributeNames (ruleCollection (eng_ruler g))) \<subseteq> set (map fst (ua_rows attrs'))"
    using getAccess_names[OF ok] h by blast
  have "fst (getUserAttributes (snd (getAccess X g docSession)) docSession) = attrs'"
    using ok a(1) by (simp add: getUserAttributes_def)
  then show "set (map fst (ua_rows userAttrBefore))
          \<subseteq> set (map fst (ua_rows (fst (getUserAttributes (snd (getAccess X g docSession))
                                            docSession))))"
    using h a(2) by auto
qed (auto simp: checkUserAttributes_def attributeChanged_rows split: prod.splits sum.splits)

lemma leftTeam_previous:
  "prevUserAttributesMap (snd (appliedBundle leftTeamEngine))
     = Some (\<lambda>s. if s = editorSession then Some (teamAttributes ''red'') else None)"
  by (simp add: appliedBundle_def leftTeamEngine_def teamEngine_def newEngine_def haveRules_def
      attributeRules_def exampleRules_def attrChange_def exampleBundle_def schemaChange_def
      clearCache_def)

lemma leftTeam_state:
  "set (map fst (ua_rows (teamAttributes ''red'')))
      \<subseteq> set (attributeNames (ruleCollection (eng_ruler (snd (appliedBundle leftTeamEngine)))))
   \<and> permissionInfoMap (eng_ruler (snd (appliedBundle leftTeamEngine))) editorSession = None"
  by (simp add: appliedBundle_def leftTeamEngine_def teamEngine_def newEngine_def haveRules_def
      attributeRules_def exampleRules_def attrChange_def exampleBundle_def schemaChange_def
      clearCache_def teamAttributes_def attributeNames_def builtinName_def
      objectPrototypeNames_def)

lemma leftTeam_attributes:
  "fst (getAccess (exampleCollaborators []) (snd (appliedBundle leftTeamEngine)) editorSession) =
     Inr \<lparr>pi_rules = attributeRules,
          pi_input = \<lparr>in_user = editorUser\<lparr>u_attrs := [(''Team'', EmptyRecordView)]\<rparr>,
                      in_rec = None, in_newRec = None\<rparr>\<rparr>
   \<and> ua_rows (fst (getUserAttributes
        (snd (getAccess (exampleCollaborators []) (snd (appliedBundle leftTeamEngine)) editorSession))
        editorSession))
     = [(''Team'', EmptyRecordView)]"
  by (simp add: appliedBundle_def leftTeamEngine_def teamEngine_def newEngine_def haveRules_def
       attributeRules_def exampleRules_def attrChange_def exampleBundle_def schemaChange_def
       clearCache_def getAccess_def getUser_def getUserAttributes_def editorSession_def
       truthy_def buildUser_def inUser_def objectPrototypeNames_def newUserAttributes_def
       setUserAttributes_def exampleCollaborators_def noTeams_def editorUser_def Let_def)

text \<open>
  The editor's team was \<open>red\<close> when the bundle began and the bundle removed the
  editor's row: the attribute \<open>Team\<close> is now the empty record, and after
  \<open>appliedBundle\<close> the guard throws \<open>NEED_RELOAD\<close> for the editor. Without a previous
  cache, and for the owner, who has no entry in it, the guard does nothing.
\<close>

theorem C5_checkUserAttributes_witness:
  "prevUserAttributesMap (snd (appliedBundle leftTeamEngine))
     = Some (\<lambda>s. if s = editorSession then Some (teamAttributes ''red'') else None)
   \<and> set (map fst (ua_rows (teamAttributes ''red'')))
        \<subseteq> set (attributeNames (ruleCollection (eng_ruler (snd (appliedBundle leftTeamEngine)))))
   \<and> permissionInfoMap (eng_ruler (snd (appliedBundle leftTeamEngine))) editorSession = None
   \<and> ua_rows (teamAttributes ''red'') = [(''Team'', RecordView (teamTable ''red'') (Some 0))]
   \<and> ua_rows (fst (getUserAttributes
        (snd (getAccess (exampleCollaborators []) (snd (appliedBundle leftTeamEngine)) editorSession))
        editorSession))
     = [(''Team'', EmptyRecordView)]
   \<and> fst (checkUserAttributes (exampleCollaborators [])
        (snd (appliedBundle leftTeamEngine)) editorSession)
     = Inl (NEED_RELOAD ''document needs reload, user attributes changed'')
   \<and> prevUserAttributesMap (newEngine noRules) = None
   \<and> checkUserAttributes (exampleCollaborators []) (newEngine noRules) editorSession
     = (Inr (), newEngine noRules)
   \<and> checkUserAttributes (exampleCollaborators [])
        (snd (appliedBundle leftTeamEngine)) ownerSession
     = (Inr (), snd (appliedBundle leftTeamEngine))"
  using C5_checkUserAttributes [where g = "snd (appliedBundle leftTeamEngine)"
          and prevMap = "\<lambda>s. if s = editorSession then Some (teamAttributes ''red'') else None"
          and docSession = editorSession and X = "exampleCollaborators []"
          and userAttrBefore = "teamAttributes ''red''"
          and permInfo = "\<lparr>pi_rules = attributeRules,
            pi_input = \<lparr>in_user = editorUser\<lparr>u_attrs := [(''Team'', EmptyRecordView)]\<rparr>,
                        in_rec = None, in_newRec = None\<rparr>\<rparr>"]
        C5_checkUserAttributes [where g = "newEngine noRules" and docSession = editorSession
          and X = "exampleCollaborators []"]
        C5_checkUserAttributes [where g = "snd (appliedBundle leftTeamEngine)"
          and prevMap = "\<lambda>s. if s = editorSession then Some (teamAttributes ''red'') else None"
          and docSession = ownerSession and X = "exampleCollaborators []"]
        leftTeam_previous leftTeam_state leftTeam_attributes
  by (simp add: newEngine_def teamAttributes_def teamTable_def
      exampleCollaborators_def js_nth_def ownerSession_def editorSession_def)

subsection \<open>Row pruning\<close>


























lemma sameShape_refl: "sameShape a a"
  by (simp add: sameShape_def)

lemma hasCells_name: "actionName a = actionName b \<Longrightarrow> hasCells a = hasCells b"
  by (simp add: hasCells_def)

lemma sameShape_trans: "sameShape a b \<Longrightarrow> sameShape b c \<Longrightarrow> sameShape a c"
  using hasCells_name[of a b] by (auto simp: sameShape_def)

lemma map_fst_censor:
  "map fst (map (\<lambda>(k, vs). if k = colId then (k, f vs) else (k, vs)) c) = map fst c"
  by (induction c) auto

lemma map_fst_obj_set: "map fst (obj_set c colId v) = map fst c"
  by (induction c) (auto simp: obj_set_def)

lemma censorAt_shape: "sameShape a (censorAt a colId idx)"
  by (cases a) (auto simp: sameShape_def map_fst_obj_set hasCells_def split: prod.splits)

lemma censorCells_shape: "sameShape a (snd (censorCells rc ac input t cols idx a))"
proof (induction cols arbitrary: a)
  case Nil
  show ?case by (simp add: sameShape_refl)
next
  case (Cons colId rest)
  show ?case
  proof (cases "AccessCheck_get ac (rc_columnAccess rc input t colId)")
    case (Inl e)
    then show ?thesis by (simp add: sameShape_refl)
  next
    case (Inr p)
    show ?thesis
      using Inr Cons.IH[of "if p = Deny then censorAt a colId idx else a"]
            censorAt_shape[of a colId idx] sameShape_trans
      by (auto simp: sameShape_refl)
  qed
qed

lemma filterRowLoop_shape:
  "sameShape a (fst (snd (filterRowLoop rc ac user rb ra t rows a toRemove)))"
proof (induction rows arbitrary: a toRemove)
  case Nil
  show ?case by (simp add: sameShape_refl)
next
  case (Cons row rest)
  obtain idx rid where row: "row = (idx, rid)" by (cases row)
  define input where "input = \<lparr>in_user = user,
                   in_rec = Some (RecordView rb (rowIndex (td_rowIds rb) rid)),
                   in_newRec = Some (RecordView ra (rowIndex (td_rowIds ra) rid))\<rparr>"
  show ?case
  proof (cases "AccessCheck_get ac (rc_tableAccess rc input t)")
    case (Inl e)
    then show ?thesis using row by (simp add: input_def sameShape_refl)
  next
    case (Inr access)
    obtain err a' where cc: "censorCells rc ac input t (columnKeys a) idx a = (err, a')"
      by (cases "censorCells rc ac input t (columnKeys a) idx a")
    have s1: "sameShape a a'"
      using censorCells_shape[of a rc ac input t "columnKeys a" idx] cc by simp
    show ?thesis
      using row Inr cc s1 Cons.IH[of a "toRemove @ [idx]"] Cons.IH[of a toRemove]
            Cons.IH[of a' toRemove] sameShape_trans[OF s1]
      by (cases err) (auto simp: input_def[symmetric] Let_def sameShape_refl)
  qed
qed

lemma filterRowsAndCells_shape:
  assumes "filterRowsAndCells X (g, h) s r idx rb ra ac = (res, g', h')"
  shows "length h' = length h \<and> (\<forall>k < length h. sameShape (h ! k) (h' ! k))"
proof -
  have upd: "\<forall>k < length h. sameShape (h ! k) (h[r := a'] ! k)"
    if sh: "sameShape (h ! r) a'" for a'
  proof (intro allI impI)
    fix k
    assume k: "k < length h"
    show "sameShape (h ! k) (h[r := a'] ! k)"
    proof (cases "k = r")
      case True
      with k sh show ?thesis by simp
    next
      case False
      then show ?thesis by (simp add: sameShape_refl)
    qed
  qed
  show ?thesis
  proof (cases "getRuler X g idx")
    case (Pair rr g1)
    show ?thesis
    proof (cases rr)
      case (Inl e)
      with Pair assms show ?thesis by (auto simp: filterRowsAndCells_def sameShape_refl)
    next
      case (Inr rc)
      show ?thesis
      proof (cases "isSchemaAction (h ! r)")
        case True
        with Pair Inr assms show ?thesis by (auto simp: filterRowsAndCells_def sameShape_refl)
      next
        case False
        obtain ur g2 where gu: "getUser X g1 s = (ur, g2)" by (cases "getUser X g1 s")
        show ?thesis
        proof (cases ur)
          case (Inl e)
          with Pair Inr False gu assms show ?thesis
            by (auto simp: filterRowsAndCells_def sameShape_refl)
        next
          case (Inr user)
          obtain err a' tr where
            loop: "filterRowLoop rc ac user rb ra (getTableId (h ! r))
                     (zip [0..<length (getRowIdsFromDocAction (h ! r))]
                        (getRowIdsFromDocAction (h ! r))) (h ! r) [] = (err, a', tr)"
            using prod_cases3 by blast
          have sh: "sameShape (h ! r) a'"
            using filterRowLoop_shape[of "h ! r" rc ac user rb ra "getTableId (h ! r)"
                    "zip [0..<length (getRowIdsFromDocAction (h ! r))]
                        (getRowIdsFromDocAction (h ! r))" "[]"] loop by simp
          have "h' = h[r := a']"
            using Pair \<open>rr = Inr rc\<close> False gu Inr loop assms
            by (cases err) (auto simp: filterRowsAndCells_def Let_def split: if_splits)
          then show ?thesis using upd[OF sh] by simp
        qed
      qed
    qed
  qed
qed

lemma filterCellsOfAll_shape:
  "filterCellsOfAll X (g, h) s idx ra refs = (res, g', h') \<Longrightarrow>
     length h' = length h \<and> (\<forall>k < length h. sameShape (h ! k) (h' ! k))"
proof (induction refs arbitrary: g h)
  case Nil
  then show ?case by (simp add: sameShape_refl)
next
  case (Cons r rest)
  obtain res1 g1 h1 where
    one: "filterRowsAndCells X (g, h) s r idx ra ra readAccessCheck = (res1, g1, h1)"
    using prod_cases3 by blast
  have sh1: "length h1 = length h \<and> (\<forall>k < length h. sameShape (h ! k) (h1 ! k))"
    using filterRowsAndCells_shape[OF one] .
  show ?case
  proof (cases res1)
    case (Inl e)
    with one Cons.prems sh1 show ?thesis by simp
  next
    case (Inr u)
    have "filterCellsOfAll X (g1, h1) s idx ra rest = (res, g', h')"
      using one Inr Cons.prems by simp
    from Cons.IH[OF this] sh1 show ?thesis
      using sameShape_trans by (metis (no_types, lifting))
  qed
qed







lemma statusUpdate_store:
  "snd (snd (pruneRows (exampleCollaborators statusUpdateSteps)
          (bundleEngine [statusUpdate], [statusUpdate]) editorSession 0 (Some 0)))
   = [statusUpdate,
      BulkAddRecord ''T'' [5]
        [(''status'', [CStr ''open'']), (''level'', [CStr ''low'']), (''secret'', [CStr ''a''])],
      BulkUpdateRecord ''T'' [] [(''status'', [])],
      BulkRemoveRecord ''T'' [7]]"
  by code_simp


lemma statusUpdate_forbidden:
  "forbiddenRowsOf exampleRules editorUser
     (tableT [(5, ''draft'', ''low'', ''a''), (7, ''open'', ''low'', ''b'')]) [5, 7] = [5]
   \<and> forbiddenRowsOf exampleRules editorUser
     (tableT [(5, ''open'', ''low'', ''a''), (7, ''archived'', ''low'', ''b'')]) [5, 7] = [7]"
  by code_simp





subsection \<open>What the filter leaves unchanged\<close>

text \<open>
  The filter changes the engine only in its caches of steps and of user attributes: the
  ruler, with the permissions cached for a session, stays as it is.
\<close>

lemma getUserAttributes_ruler: "eng_ruler (snd (getUserAttributes g s)) = eng_ruler g"
  by (simp add: getUserAttributes_def split: option.splits)

lemma buildUser_ruler: "eng_ruler (snd (buildUser X g s attrs access fu)) = eng_ruler g"
  by (simp add: buildUser_def setUserAttributes_def Let_def split: option.splits prod.splits)

lemma getUser_ruler: "eng_ruler (snd (getUser X g s)) = eng_ruler g"
  using getUserAttributes_ruler[of g s]
  by (auto simp: getUser_def Let_def buildUser_ruler setUserAttributes_def
      split: option.splits prod.splits sum.splits)

lemma getSteps_ruler: "eng_ruler (snd (getSteps X g)) = eng_ruler g"
  by (simp add: getSteps_def split: option.splits)

lemma getStep_ruler: "eng_ruler (snd (getStep X g idx)) = eng_ruler g"
  using getSteps_ruler[of X g]
  by (auto simp: getStep_def split: option.splits prod.splits sum.splits)

lemma getRuler_ruler: "eng_ruler (snd (getRuler X g idx)) = eng_ruler g"
  using getStep_ruler[of X g idx]
  by (auto simp: getRuler_def split: option.splits prod.splits sum.splits)

lemma getAccess_cached: "cachedFor s p g \<Longrightarrow> getAccess X g s = (Inr p, g)"
  by (simp add: getAccess_def cachedFor_def)

lemma hasAccessRulesPermission_cached:
  "cachedFor s p g \<Longrightarrow>
   hasAccessRulesPermission X g s =
     (Inr (p_read (perms (getColumnAccess p SPECIAL_RULES_TABLE_ID ''AccessRules'')) = Allow), g)"
  by (simp add: hasAccessRulesPermission_def getAccess_cached)

lemma cachedFor_ruler: "eng_ruler g' = eng_ruler g \<Longrightarrow> cachedFor s p g \<Longrightarrow> cachedFor s p g'"
  by (simp add: cachedFor_def)

lemma getStepAccess_ruler:
  "cachedFor s p g \<Longrightarrow> eng_ruler (snd (getStepAccess X g s idx)) = eng_ruler g"
proof -
  assume c: "cachedFor s p g"
  obtain r g1 where st: "getStep X g idx = (r, g1)" by (cases "getStep X g idx")
  have r1: "eng_ruler g1 = eng_ruler g" using getStep_ruler[of X g idx] st by simp
  then have c1: "cachedFor s p g1" using c cachedFor_ruler by blast
  show ?thesis
    using st r1 getAccess_cached[OF c1, of X] getUser_ruler[of X g1 s]
    by (auto simp: getStepAccess_def split: sum.splits option.splits prod.splits)
qed

lemma getRowsBeforeAndAfter_ruler: "eng_ruler (snd (getRowsBeforeAndAfter X g idx)) = eng_ruler g"
  using getStep_ruler[of X g idx]
  by (auto simp: getRowsBeforeAndAfter_def split: option.splits prod.splits sum.splits)

lemma getForbiddenRows_ruler: "eng_ruler (snd (getForbiddenRows X g s idx d ids)) = eng_ruler g"
proof -
  obtain r g1 where a: "getRuler X g idx = (r, g1)" by (cases "getRuler X g idx")
  have "eng_ruler g1 = eng_ruler g" using getRuler_ruler[of X g idx] a by simp
  then show ?thesis using a getUser_ruler[of X g1 s]
    by (auto simp: getForbiddenRows_def split: sum.splits prod.splits)
qed

text \<open>
  The filter allocates new action objects and censors cells of objects it has; no object
  changes its name or its table.
\<close>

lemma grows_refl: "grows h h"
  by (simp add: grows_def)

lemma grows_trans: "grows h h1 \<Longrightarrow> grows h1 h2 \<Longrightarrow> grows h h2"
  by (auto simp: grows_def)

lemma grows_append: "grows h (h @ ext)"
  by (simp add: grows_def nth_append)

lemma grows_fresh: "grows h ((h @ [v])[length h := w])"
  by (simp add: grows_def nth_append)

lemma grows_sameShape:
  "length h' = length h \<Longrightarrow> \<forall>k < length h. sameShape (h ! k) (h' ! k) \<Longrightarrow> grows h h'"
  by (simp add: grows_def sameShape_def)

lemma filterRowsAndCells_ruler:
  "eng_ruler (fst (snd (filterRowsAndCells X (g, h) s r idx rb ra ac))) = eng_ruler g"
proof -
  obtain rr g1 where a: "getRuler X g idx = (rr, g1)" by (cases "getRuler X g idx")
  have r1: "eng_ruler g1 = eng_ruler g" using getRuler_ruler[of X g idx] a by simp
  obtain ur g2 where b: "getUser X g1 s = (ur, g2)" by (cases "getUser X g1 s")
  have r2: "eng_ruler g2 = eng_ruler g" using getUser_ruler[of X g1 s] b r1 by simp
  show ?thesis using a b r1 r2
    by (auto simp: filterRowsAndCells_def Let_def split: sum.splits prod.splits option.splits)
qed

lemma filterCellsOfAll_ruler:
  "eng_ruler (fst (snd (filterCellsOfAll X (g, h) s idx ra refs))) = eng_ruler g"
proof (induction refs arbitrary: g h)
  case Nil
  show ?case by simp
next
  case (Cons r rest)
  obtain res1 g1 h1 where
    one: "filterRowsAndCells X (g, h) s r idx ra ra readAccessCheck = (res1, g1, h1)"
    using prod_cases3 by blast
  have "eng_ruler g1 = eng_ruler g"
    using filterRowsAndCells_ruler[of X g h s r idx ra ra readAccessCheck] one by simp
  then show ?case using one Cons.IH[of g1 h1] by (cases res1) simp_all
qed

lemma makeAdditions_frame:
  "makeAdditions h d ids = (res, h1) \<Longrightarrow>
   grows h h1 \<and> (\<forall>r. res = Some r \<longrightarrow> r < length h1)"
  by (auto simp: makeAdditions_def Let_def alloc_def grows_append grows_refl split: if_splits)

lemma makeRemovals_frame:
  "makeRemovals h d ids = (res, h1) \<Longrightarrow>
   grows h h1 \<and> (\<forall>r. res = Some r \<longrightarrow> r < length h1)"
  by (auto simp: makeRemovals_def alloc_def grows_append grows_refl split: if_splits)

lemma removeRows_frame:
  "removeRows h a rem = (res, h1) \<Longrightarrow> a < length h \<Longrightarrow>
   grows h h1 \<and> (\<forall>r. res = Some r \<longrightarrow> r < length h1)"
  by (auto simp: removeRows_def Let_def cloneDeep_def alloc_def grows_refl grows_append
      split: if_splits option.splits)

lemma grows_valid: "grows h h' \<Longrightarrow> r < length h \<Longrightarrow> r < length h'"
  by (simp add: grows_def)

lemma nonNull_set: "r \<in> set (nonNull xs) \<longleftrightarrow> Some r \<in> set xs"
  by (induction xs) (auto simp: nonNull_def split: option.splits)

lemma pruneRows_frame:
  assumes "pruneRows X (g, h) s a idx = (res, g', h')" and "a < length h"
  shows "eng_ruler g' = eng_ruler g \<and> grows h h'
         \<and> (\<forall>refs. res = Inr refs \<longrightarrow> list_all (\<lambda>r. r < length h') refs)"
proof (cases "isDataAction (h ! a)")
  case False
  then show ?thesis using assms by (auto simp: pruneRows_def grows_refl)
next
  case data: True
  define ids where "ids = new_Set (getRowIdsFromDocAction (h ! a))"
  obtain r0 g1 where r0: "getRowsBeforeAndAfter X g idx = (r0, g1)"
    by (cases "getRowsBeforeAndAfter X g idx")
  have e1: "eng_ruler g1 = eng_ruler g" using getRowsBeforeAndAfter_ruler[of X g idx] r0 by simp
  show ?thesis
  proof (cases r0)
    case (Inl e)
    then show ?thesis using assms data r0 e1 by (auto simp: pruneRows_def grows_refl)
  next
    case (Inr rows)
    obtain rowsBefore rowsAfter where rows: "rows = (rowsBefore, rowsAfter)" by (cases rows)
    obtain r1 g2 where r1: "getForbiddenRows X g1 s idx rowsBefore ids = (r1, g2)"
      by (cases "getForbiddenRows X g1 s idx rowsBefore ids")
    have e2: "eng_ruler g2 = eng_ruler g"
      using getForbiddenRows_ruler[of X g1 s idx rowsBefore ids] r1 e1 by simp
    show ?thesis
    proof (cases r1)
      case (Inl e)
      then show ?thesis using assms data r0 Inr rows r1 e2
        by (auto simp: pruneRows_def ids_def Let_def grows_refl)
    next
      case before: (Inr before)
      obtain r2 g3 where r2: "getForbiddenRows X g2 s idx rowsAfter ids = (r2, g3)"
        by (cases "getForbiddenRows X g2 s idx rowsAfter ids")
      have e3: "eng_ruler g3 = eng_ruler g"
        using getForbiddenRows_ruler[of X g2 s idx rowsAfter ids] r2 e2 by simp
      show ?thesis
      proof (cases r2)
        case (Inl e)
        then show ?thesis using assms data r0 Inr rows r1 before r2 e3
          by (auto simp: pruneRows_def ids_def Let_def grows_refl)
      next
        case after: (Inr after)
        define p where "p = planRows (h ! a) (new_Set before) (new_Set after) ids"
        obtain adds h1 where ma: "makeAdditions h rowsAfter (forceAdds p) = (adds, h1)"
          by (cases "makeAdditions h rowsAfter (forceAdds p)")
        obtain pruned h2 where rr: "removeRows h1 a (removals p) = (pruned, h2)"
          by (cases "removeRows h1 a (removals p)")
        obtain rems h3 where mr: "makeRemovals h2 rowsAfter (forceRemoves p) = (rems, h3)"
          by (cases "makeRemovals h2 rowsAfter (forceRemoves p)")
        obtain r3 g4 h4 where cells:
          "filterCellsOfAll X (g3, h3) s idx rowsAfter (nonNull [adds, pruned, rems])
             = (r3, g4, h4)"
          using prod_cases3 by blast
        have unfolded: "pruneRows X (g, h) s a idx =
            (case r3 of Inl e \<Rightarrow> (Inl e, g4, h4)
             | Inr u \<Rightarrow> (Inr (nonNull [adds, pruned, rems]), g4, h4))"
          using data r0 Inr rows r1 before r2 after ma rr mr cells
          by (simp add: pruneRows_def ids_def[symmetric] p_def[symmetric] Let_def)
        have gh: "g' = g4" "h' = h4" using assms(1) unfolded by (cases r3; simp)+
        have e4: "eng_ruler g4 = eng_ruler g"
          using filterCellsOfAll_ruler[of X g3 h3 s idx rowsAfter "nonNull [adds, pruned, rems]"]
            cells e3 by simp
        have f1: "grows h h1" "\<forall>r. adds = Some r \<longrightarrow> r < length h1"
          using makeAdditions_frame[OF ma] by simp_all
        have a1: "a < length h1" using grows_valid[OF f1(1) assms(2)] .
        have f2: "grows h1 h2" "\<forall>r. pruned = Some r \<longrightarrow> r < length h2"
          using removeRows_frame[OF rr a1] by simp_all
        have f3: "grows h2 h3" "\<forall>r. rems = Some r \<longrightarrow> r < length h3"
          using makeRemovals_frame[OF mr] by simp_all
        have f4: "length h4 = length h3" "grows h3 h4"
          using filterCellsOfAll_shape[OF cells] grows_sameShape by auto
        have g: "grows h h4" using f1(1) f2(1) f3(1) f4(2) grows_trans by blast
        have valid: "list_all (\<lambda>r. r < length h4) (nonNull [adds, pruned, rems])"
          using f1(2) f2(2) f3(2) f4(1) grows_valid[OF f2(1)] grows_valid[OF f3(1)]
          by (auto simp: list_all_iff nonNull_set)
        show ?thesis
          using gh e4 g valid assms(1) unfolded by (cases r3) auto
      qed
    qed
  qed
qed


lemma pruneColumns_frame:
  "pruneColumns h a p t ac = (res, h') \<Longrightarrow> a < length h \<Longrightarrow>
   grows h h' \<and> (\<forall>r. res = Inr (Some r) \<longrightarrow> r < length h')"
  by (auto simp: pruneColumns_def cloneDeep_def alloc_def grows_refl grows_append
      split: if_splits option.splits sum.splits)

lemma pruneColumnsOfAll_frame:
  "pruneColumnsOfAll h p t acts results = (res, h') \<Longrightarrow>
   list_all (\<lambda>r. r < length h) acts \<Longrightarrow> list_all (\<lambda>r. r < length h) results \<Longrightarrow>
   grows h h' \<and> (\<forall>out. res = Inr out \<longrightarrow> list_all (\<lambda>r. r < length h') out)"
proof (induction acts arbitrary: h results)
  case Nil
  then show ?case by (auto simp: grows_refl)
next
  case (Cons act rest)
  obtain r1 h1 where one: "pruneColumns h act p t readAccessCheck = (r1, h1)"
    by (cases "pruneColumns h act p t readAccessCheck")
  have act: "act < length h" using Cons.prems(2) by simp
  have f: "grows h h1" "\<forall>r. r1 = Inr (Some r) \<longrightarrow> r < length h1"
    using pruneColumns_frame[OF one act] by simp_all
  have rest: "list_all (\<lambda>r. r < length h1) rest"
    using Cons.prems(2) grows_valid[OF f(1)] by (auto simp: list_all_iff)
  have results: "list_all (\<lambda>r. r < length h1) results"
    using Cons.prems(3) grows_valid[OF f(1)] by (auto simp: list_all_iff)
  show ?case
  proof (cases r1)
    case (Inl e)
    then show ?thesis using one Cons.prems(1) f(1) by auto
  next
    case (Inr x)
    show ?thesis
    proof (cases x)
      case None
      then have "pruneColumnsOfAll h1 p t rest results = (res, h')"
        using one Inr Cons.prems(1) by simp
      from Cons.IH[OF this rest results] show ?thesis using f(1) grows_trans by blast
    next
      case (Some q)
      then have run: "pruneColumnsOfAll h1 p t rest (results @ [q]) = (res, h')"
        using one Inr Cons.prems(1) by simp
      have "list_all (\<lambda>r. r < length h1) (results @ [q])"
        using results f(2) Inr Some by simp
      from Cons.IH[OF run rest this] show ?thesis using f(1) grows_trans by blast
    qed
  qed
qed

lemma clean_grows: "clean h refs \<Longrightarrow> grows h h' \<Longrightarrow> clean h' refs"
  by (auto simp: clean_def grows_def list_all_iff aclData_def isDataAction_def)

lemma clean_append: "clean h (xs @ ys) \<longleftrightarrow> clean h xs \<and> clean h ys"
  by (auto simp: clean_def)

lemma pushAll_frame:
  "pushAll h results vs = (results', h') \<Longrightarrow> clean h results \<Longrightarrow>
   list_all (\<lambda>v. \<not> aclData v) vs \<Longrightarrow> grows h h' \<and> clean h' results'"
proof (induction vs arbitrary: h results)
  case Nil
  then show ?case by (simp add: grows_refl)
next
  case (Cons v vs)
  have run: "pushAll (h @ [v]) (results @ [length h]) vs = (results', h')"
    using Cons.prems(1) by (simp add: alloc_def)
  have c: "clean (h @ [v]) (results @ [length h])"
    using clean_grows[OF Cons.prems(2) grows_append[of h "[v]"]] Cons.prems(3)
    by (simp add: clean_append) (simp add: clean_def)
  from Cons.IH[OF run c] Cons.prems(3) show ?case
    using grows_trans[OF grows_append[of h "[v]"]] by auto
qed

lemma exposedViews_table:
  "exposedViews metaAfter now before = Inr vs \<Longrightarrow> list_all (\<lambda>v. \<not> aclData v) vs"
proof (induction before arbitrary: vs)
  case Nil
  then show ?case by simp
next
  case (Cons v rest)
  then show ?case
    by (auto simp: aclData_def isAclTable_def split: if_splits option.splits sum.splits)
qed

lemma hiddenViews_table: "list_all (\<lambda>v. \<not> aclData v) (hiddenViews before now)"
  by (simp add: hiddenViews_def list_all_iff aclData_def isAclTable_def)

lemma viewUpdates_frame:
  assumes "viewUpdates X (g, h) s p step metaAfter censor results = (res, g', h')"
    and "cachedFor s q g" and "clean h results"
  shows "eng_ruler g' = eng_ruler g \<and> grows h h'
         \<and> (\<forall>out. res = Inr out \<longrightarrow> clean h' out)"
proof (cases "st_metaBefore step")
  case None
  then show ?thesis using assms by (auto simp: viewUpdates_def grows_refl)
next
  case (Some metaBefore)
  note perm = hasAccessRulesPermission_cached[OF assms(2), of X]
  show ?thesis
  proof (cases "newCensorshipInfo p metaBefore
                  (p_read (perms (getColumnAccess q SPECIAL_RULES_TABLE_ID ''AccessRules'')) = Allow)")
    case (Inl e)
    then show ?thesis using assms Some perm by (auto simp: viewUpdates_def grows_refl)
  next
    case (Inr censorBefore)
    show ?thesis
    proof (cases "exposedViews metaAfter (censoredViews censor) (censoredViews censorBefore)")
      case (Inl e)
      then show ?thesis using assms Some perm Inr by (auto simp: viewUpdates_def grows_refl)
    next
      case exposed: (Inr exposed)
      obtain results' h1 where push:
        "pushAll h results (exposed @ hiddenViews (censoredViews censorBefore) (censoredViews censor))
           = (results', h1)"
        by (cases "pushAll h results
                     (exposed @ hiddenViews (censoredViews censorBefore) (censoredViews censor))")
      have vs: "list_all (\<lambda>v. \<not> aclData v)
                  (exposed @ hiddenViews (censoredViews censorBefore) (censoredViews censor))"
        using exposedViews_table[OF exposed] hiddenViews_table by simp
      have "res = Inr results'" "g' = g" "h' = h1"
        using assms(1) Some perm Inr exposed push by (auto simp: viewUpdates_def)
      then show ?thesis using pushAll_frame[OF push assms(3) vs] by simp
    qed
  qed
qed

lemma editorSet_table:
  "getTableId (editorSet a i c v) = getTableId a \<and> actionName (editorSet a i c v) = actionName a"
  by (cases a) simp_all

lemma applyCensorMethod_table:
  "getTableId (applyCensorMethod m a i) = getTableId a
   \<and> actionName (applyCensorMethod m a i) = actionName a"
  unfolding applyCensorMethod_def
  by (induction m arbitrary: a) (auto simp: editorSet_table)

lemma censorRows_table:
  "getTableId (foldl (censorRow m rows) a xs) = getTableId a
   \<and> actionName (foldl (censorRow m rows) a xs) = actionName a"
  by (induction xs arbitrary: a) (auto simp: censorRow_def applyCensorMethod_table)

lemma apply_censor_kept:
  assumes "apply_censor ci a = Inr (keep, v)" and "\<not> canViewACLs ci"
  shows "getTableId v = getTableId a \<and> (keep \<longrightarrow> \<not> isAclTable (getTableId a))"
proof (cases "getTableId a \<in> set STRUCTURAL_TABLES")
  case False
  then show ?thesis using assms
    by (auto simp: apply_censor_def Let_def isAclTable_def STRUCTURAL_TABLES_def)
next
  case True
  show ?thesis
  proof (cases "censoredOf ci (getTableId a)")
    case None
    then show ?thesis using assms True
      by (auto simp: apply_censor_def Let_def split: if_splits)
  next
    case (Some rows)
    then have "\<not> isAclTable (getTableId a)"
      by (auto simp: censoredOf_def isAclTable_def split: if_splits)
    then show ?thesis using assms True Some censorRows_table
      by (auto simp: apply_censor_def Let_def split: sum.splits)
  qed
qed


lemma structuralTables_frame:
  assumes run: "filterOutgoingStructuralTables X (g, h) s idx act results = (res, g', h')"
    and c: "cachedFor s q g"
    and blind: "p_read (perms (getColumnAccess q SPECIAL_RULES_TABLE_ID ''AccessRules'')) \<noteq> Allow"
    and act: "act < length h" and cl: "clean h results"
  shows "eng_ruler g' = eng_ruler g \<and> grows h h' \<and> (\<forall>out. res = Inr out \<longrightarrow> clean h' out)"
proof -
  obtain r1 g1 where a1: "getStepAccess X g s idx = (r1, g1)" by (cases "getStepAccess X g s idx")
  have e1: "eng_ruler g1 = eng_ruler g" using getStepAccess_ruler[OF c, of X idx] a1 by simp
  show ?thesis
  proof (cases r1)
    case (Inl e)
    then show ?thesis using run a1 e1 by (auto simp: filterOutgoingStructuralTables_def grows_refl)
  next
    case (Inr permissionInfo)
    obtain r2 g2 where a2: "getStep X g1 idx = (r2, g2)" by (cases "getStep X g1 idx")
    have e2: "eng_ruler g2 = eng_ruler g" using getStep_ruler[of X g1 idx] a2 e1 by simp
    show ?thesis
    proof (cases r2)
      case (Inl e)
      then show ?thesis using run a1 Inr a2 e2
        by (auto simp: filterOutgoingStructuralTables_def grows_refl)
    next
      case step: (Inr so)
      show ?thesis
      proof (cases so)
        case None
        then show ?thesis using run a1 Inr a2 step e2
          by (auto simp: filterOutgoingStructuralTables_def grows_refl)
      next
        case (Some step')
        show ?thesis
        proof (cases "st_metaAfter step'")
          case None
          then show ?thesis using run a1 Inr a2 step Some e2
            by (auto simp: filterOutgoingStructuralTables_def grows_refl)
        next
          case meta: (Some metaAfter)
          define h1 where "h1 = h @ [h ! act]"
          have clone: "cloneDeep h act = (length h, h1)"
            by (simp add: cloneDeep_def alloc_def h1_def)
          have gr1: "grows h h1" by (simp add: h1_def grows_append)
          obtain r3 g3 where a3: "getRuler X g2 idx = (r3, g3)" by (cases "getRuler X g2 idx")
          have e3: "eng_ruler g3 = eng_ruler g" using getRuler_ruler[of X g2 idx] a3 e2 by simp
          have c3: "cachedFor s q g3" using cachedFor_ruler[OF e3 c] .
          note perm = hasAccessRulesPermission_cached[OF c3, of X]
          show ?thesis
          proof (cases r3)
            case (Inl e)
            then show ?thesis using run a1 Inr a2 step Some meta clone a3 e3 gr1
              by (auto simp: filterOutgoingStructuralTables_def)
          next
            case rc: (Inr rc)
            show ?thesis
            proof (cases "newCensorshipInfo permissionInfo metaAfter False")
              case (Inl e)
              then show ?thesis
                using run a1 Inr a2 step Some meta clone a3 rc perm blind e3 gr1
                by (auto simp: filterOutgoingStructuralTables_def)
            next
              case censor: (Inr censor)
              have blindCensor: "\<not> canViewACLs censor"
                using censor
                by (auto simp: newCensorshipInfo_def Let_def split: option.splits prod.splits sum.splits)
              show ?thesis
              proof (cases "apply_censor censor (h1 ! length h)")
                case (Inl e)
                then show ?thesis
                  using run a1 Inr a2 step Some meta clone a3 rc perm blind censor e3 gr1
                  by (auto simp: filterOutgoingStructuralTables_def)
              next
                case kv: (Inr kv)
                obtain keep v where kvp: "kv = (keep, v)" by (cases kv)
                define h2 where "h2 = h1[length h := v]"
                define results1 where "results1 = (if keep then results @ [length h] else results)"
                have val: "h1 ! length h = h ! act" by (simp add: h1_def)
                have kept: "getTableId v = getTableId (h ! act)"
                  "keep \<longrightarrow> \<not> isAclTable (getTableId (h ! act))"
                  using apply_censor_kept[of censor "h ! act" keep v] kv kvp val blindCensor by auto
                have gr2: "grows h h2" by (simp add: h2_def h1_def grows_def nth_append)
                have cl2: "clean h2 results1"
                  using clean_grows[OF cl gr2] kept
                  by (auto simp: results1_def clean_append) (simp add: clean_def h2_def h1_def aclData_def)
                have unfolded: "filterOutgoingStructuralTables X (g, h) s idx act results =
                    (if getTableId v = ''_grist_Views_section''
                     then viewUpdates X (g3, h2) s permissionInfo step' metaAfter censor results1
                     else (Inr results1, g3, h2))"
                  using a1 Inr a2 step Some meta clone a3 rc perm blind censor kv kvp
                  by (simp add: filterOutgoingStructuralTables_def Let_def h2_def results1_def)
                show ?thesis
                proof (cases "getTableId v = ''_grist_Views_section''")
                  case False
                  then show ?thesis using run unfolded e3 gr2 cl2 by auto
                next
                  case True
                  then have vu: "viewUpdates X (g3, h2) s permissionInfo step' metaAfter censor results1
                                   = (res, g', h')"
                    using run unfolded by simp
                  from viewUpdates_frame[OF vu c3 cl2] show ?thesis
                    using e3 gr2 grows_trans by auto
                qed
              qed
            qed
          qed
        qed
      qed
    qed
  qed
qed

lemma secondPassLoop_frame:
  assumes blind: "p_read (perms (getColumnAccess q SPECIAL_RULES_TABLE_ID ''AccessRules'')) \<noteq> Allow"
  shows "secondPassLoop X (g, h) s idx acts secondPass = (res, g', h') \<Longrightarrow>
     cachedFor s q g \<Longrightarrow>
     list_all (\<lambda>r. r < length h) acts \<Longrightarrow> clean h secondPass \<Longrightarrow>
     eng_ruler g' = eng_ruler g \<and> grows h h' \<and> (\<forall>out. res = Inr out \<longrightarrow> clean h' out)"
proof (induction acts arbitrary: g h secondPass)
  case Nil
  then show ?case by (auto simp: grows_refl)
next
  case (Cons act rest)
  have act: "act < length h" using Cons.prems(3) by simp
  show ?case
  proof (cases "getTableId (h ! act) \<in> set STRUCTURAL_TABLES \<and> isDataAction (h ! act)")
    case True
    obtain r1 g1 h1 where one:
      "filterOutgoingStructuralTables X (g, h) s idx act secondPass = (r1, g1, h1)"
      using prod_cases3 by blast
    have f: "eng_ruler g1 = eng_ruler g" "grows h h1" "\<forall>out. r1 = Inr out \<longrightarrow> clean h1 out"
      using structuralTables_frame[OF one Cons.prems(2) blind act Cons.prems(4)] by simp_all
    show ?thesis
    proof (cases r1)
      case (Inl e)
      then show ?thesis using Cons.prems(1) True one f by auto
    next
      case (Inr secondPass')
      then have run: "secondPassLoop X (g1, h1) s idx rest secondPass' = (res, g', h')"
        using Cons.prems(1) True one by simp
      have rest: "list_all (\<lambda>r. r < length h1) rest"
        using Cons.prems(3) grows_valid[OF f(2)] by (auto simp: list_all_iff)
      have c1: "cachedFor s q g1" using cachedFor_ruler[OF f(1) Cons.prems(2)] .
      from Cons.IH[OF run c1 rest] f Inr show ?thesis using grows_trans by auto
    qed
  next
    case False
    then have run: "secondPassLoop X (g, h) s idx rest (secondPass @ [act]) = (res, g', h')"
      using Cons.prems(1) by auto
    have "\<not> aclData (h ! act)"
      using False by (auto simp: aclData_def isAclTable_def STRUCTURAL_TABLES_def)
    then have cl: "clean h (secondPass @ [act])"
      using Cons.prems(4) act by (simp add: clean_def)
    have rest: "list_all (\<lambda>r. r < length h) rest" using Cons.prems(3) by simp
    from Cons.IH[OF run Cons.prems(2) rest cl] show ?thesis .
  qed
qed

lemma filterOutgoingDocAction_frame:
  assumes run: "filterOutgoingDocAction X (g, h) s a idx = (res, g', h')"
    and c: "cachedFor s q g"
    and blind: "p_read (perms (getColumnAccess q SPECIAL_RULES_TABLE_ID ''AccessRules'')) \<noteq> Allow"
    and a: "a < length h"
  shows "eng_ruler g' = eng_ruler g \<and> grows h h' \<and> (\<forall>out. res = Inr out \<longrightarrow> clean h' out)"
proof -
  obtain r1 g1 where a1: "getStepAccess X g s idx = (r1, g1)" by (cases "getStepAccess X g s idx")
  have e1: "eng_ruler g1 = eng_ruler g" using getStepAccess_ruler[OF c, of X idx] a1 by simp
  show ?thesis
  proof (cases r1)
    case (Inl e)
    then show ?thesis using run a1 e1 by (auto simp: filterOutgoingDocAction_def grows_refl)
  next
    case (Inr permInfo)
    define access where "access = p_read (perms (getTableAccess permInfo (getTableId (h ! a))))"
    define first where "first =
      (if access = Deny then (Inr [], g1, h)
       else if access = Allow then (Inr [a], g1, h)
       else if access = MixedColumns then
         (case pruneColumns h a permInfo (getTableId (h ! a)) readAccessCheck of
            (Inl e, h1) \<Rightarrow> (Inl e, g1, h1)
          | (Inr None, h1) \<Rightarrow> (Inr [], g1, h1)
          | (Inr (Some act), h1) \<Rightarrow> (Inr [act], g1, h1))
       else
         (case pruneRows X (g1, h) s a idx of
            (Inl e, w1) \<Rightarrow> (Inl e, w1)
          | (Inr acts, g2, h2) \<Rightarrow>
              (case pruneColumnsOfAll h2 permInfo (getTableId (h ! a)) acts [] of
                 (Inl e, h3) \<Rightarrow> (Inl e, g2, h3)
               | (Inr results, h3) \<Rightarrow> (Inr results, g2, h3))))"
    obtain rf gf hf where first: "first = (rf, gf, hf)" using prod_cases3 by blast
    have unfolded: "filterOutgoingDocAction X (g, h) s a idx =
        (case rf of Inl e \<Rightarrow> (Inl e, gf, hf)
         | Inr results \<Rightarrow> secondPassLoop X (gf, hf) s idx results [])"
      using a1 Inr first unfolding first_def access_def
      by (simp add: filterOutgoingDocAction_def Let_def)
    have ff: "eng_ruler gf = eng_ruler g \<and> grows h hf
              \<and> (\<forall>results. rf = Inr results \<longrightarrow> list_all (\<lambda>r. r < length hf) results)"
    proof (cases "access = Deny \<or> access = Allow")
      case True
      then show ?thesis using first e1 a unfolding first_def by (auto simp: grows_refl)
    next
      case notWhole: False
      show ?thesis
      proof (cases "access = MixedColumns")
        case True
        obtain rc hc where pc: "pruneColumns h a permInfo (getTableId (h ! a)) readAccessCheck = (rc, hc)"
          by (cases "pruneColumns h a permInfo (getTableId (h ! a)) readAccessCheck")
        from pruneColumns_frame[OF pc a] show ?thesis
          using first True notWhole pc e1 unfolding first_def
          by (auto split: sum.splits option.splits)
      next
        case False
        obtain rp gp hp where pr: "pruneRows X (g1, h) s a idx = (rp, gp, hp)"
          using prod_cases3 by blast
        have fp: "eng_ruler gp = eng_ruler g1" "grows h hp"
          "\<forall>refs. rp = Inr refs \<longrightarrow> list_all (\<lambda>r. r < length hp) refs"
          using pruneRows_frame[OF pr a] by simp_all
        show ?thesis
        proof (cases rp)
          case (Inl e)
          then show ?thesis using first False notWhole pr fp e1 unfolding first_def by auto
        next
          case (Inr acts)
          obtain rc hc where pc:
            "pruneColumnsOfAll hp permInfo (getTableId (h ! a)) acts [] = (rc, hc)"
            by (cases "pruneColumnsOfAll hp permInfo (getTableId (h ! a)) acts []")
          have "list_all (\<lambda>r. r < length hp) acts" using fp(3) Inr by simp
          from pruneColumnsOfAll_frame[OF pc this] have
            fc: "grows hp hc" "\<forall>out. rc = Inr out \<longrightarrow> list_all (\<lambda>r. r < length hc) out"
            by simp_all
          show ?thesis
            using first False notWhole pr Inr pc fp fc e1 grows_trans[OF fp(2) fc(1)]
            unfolding first_def by (auto split: sum.splits)
        qed
      qed
    qed
    show ?thesis
    proof (cases rf)
      case (Inl e)
      then show ?thesis using run unfolded ff by auto
    next
      case (Inr results)
      then have sp: "secondPassLoop X (gf, hf) s idx results [] = (res, g', h')"
        using run unfolded by simp
      have cf: "cachedFor s q gf" using ff c by (simp add: cachedFor_def)
      have "clean hf []" by (simp add: clean_def)
      from secondPassLoop_frame[OF blind sp cf _ this] ff Inr
      show ?thesis using grows_trans by auto
    qed
  qed
qed

lemma runFilters_frame:
  assumes blind: "p_read (perms (getColumnAccess q SPECIAL_RULES_TABLE_ID ''AccessRules'')) \<noteq> Allow"
  shows "runFilters X (g, h) s pairs = (rs, g', h') \<Longrightarrow> cachedFor s q g \<Longrightarrow>
     list_all (\<lambda>r. r < length h) (map fst pairs) \<Longrightarrow>
     eng_ruler g' = eng_ruler g \<and> grows h h'
     \<and> (\<forall>out. Inr out \<in> set rs \<longrightarrow> clean h' out)"
proof (induction pairs arbitrary: g h rs g' h')
  case Nil
  then show ?case by (auto simp: grows_refl)
next
  case (Cons pair rest)
  obtain a i where pair: "pair = (a, i)" by (cases pair)
  obtain r1 g1 h1 where one: "filterOutgoingDocAction X (g, h) s a (Some i) = (r1, g1, h1)"
    using prod_cases3 by blast
  have a: "a < length h" using Cons.prems(3) pair by simp
  have f: "eng_ruler g1 = eng_ruler g" "grows h h1" "\<forall>out. r1 = Inr out \<longrightarrow> clean h1 out"
    using filterOutgoingDocAction_frame[OF one Cons.prems(2) blind a] by simp_all
  obtain rs2 g2 h2 where two: "runFilters X (g1, h1) s rest = (rs2, g2, h2)"
    using prod_cases3 by blast
  have c1: "cachedFor s q g1" using f(1) Cons.prems(2) by (simp add: cachedFor_def)
  have rest: "list_all (\<lambda>r. r < length h1) (map fst rest)"
    using Cons.prems(3) grows_valid[OF f(2)] by (auto simp: list_all_iff)
  have ih: "eng_ruler g2 = eng_ruler g1" "grows h1 h2" "\<forall>out. Inr out \<in> set rs2 \<longrightarrow> clean h2 out"
    using Cons.IH[OF two c1 rest] by simp_all
  have res: "rs = r1 # rs2" "g' = g2" "h' = h2"
    using Cons.prems(1) pair one two by simp_all
  show ?case
    using res f ih clean_grows[OF _ ih(2)] grows_trans[OF f(2) ih(2)] by auto
qed

lemma rejections_empty: "rejections rs = [] \<Longrightarrow> rs = map Inr (fulfilled rs)"
proof (induction rs)
  case Nil
  show ?case by (simp add: fulfilled_def)
next
  case (Cons r rs)
  have "rejections rs = []" using Cons.prems by (simp add: rejections_def)
  then have "rs = map Inr (fulfilled rs)" using Cons.IH by simp
  moreover obtain v where "r = Inr v" using Cons.prems by (cases r) (simp_all add: rejections_def)
  ultimately show ?case by (simp add: fulfilled_def)
qed

lemma Promise_all_Inr: "Promise_all X rs = Inr parts \<Longrightarrow> rs = map Inr parts"
proof -
  assume a: "Promise_all X rs = Inr parts"
  have none: "rejections rs = []"
    using a by (auto simp: Promise_all_def split: list.splits)
  then have "parts = fulfilled rs" using a by (simp add: Promise_all_def)
  then show ?thesis using rejections_empty[OF none] by simp
qed

lemma checkUserAttributes_ruler:
  "cachedFor s q g \<Longrightarrow> eng_ruler (snd (checkUserAttributes X g s)) = eng_ruler g"
  using getUserAttributes_ruler[of g s]
  by (auto simp: checkUserAttributes_def getAccess_cached split: option.splits prod.splits)

lemma filter_sends_no_acl_data:
  assumes rules: "haveRules g"
    and c: "permissionInfoMap (eng_ruler g) docSession = Some (Inr permInfo)"
    and blind: "p_read (perms (getColumnAccess permInfo SPECIAL_RULES_TABLE_ID ''AccessRules'')) \<noteq> Allow"
    and refs: "list_all (\<lambda>r. r < length h) docActions"
    and run: "filterOutgoingDocActions X (g, h) docSession docActions = (Inr out, g', h')"
  shows "list_all (\<lambda>r. r < length h'
            \<and> \<not> (isAclTable (getTableId (h' ! r)) \<and> isDataAction (h' ! r))) out"
proof -
  have cg: "cachedFor docSession permInfo g" using c by (simp add: cachedFor_def)
  have nf: "\<not> bundleHasDeliberateRuleChange g"
    using run by (auto simp: filterOutgoingDocActions_def)
  obtain r0 g1 where ck: "checkUserAttributes X g docSession = (r0, g1)"
    by (cases "checkUserAttributes X g docSession")
  have e1: "eng_ruler g1 = eng_ruler g" using checkUserAttributes_ruler[OF cg, of X] ck by simp
  have c1: "cachedFor docSession permInfo g1" using cachedFor_ruler[OF e1 cg] .
  obtain u where u: "r0 = Inr u"
    using run rules nf ck by (cases r0) (auto simp: filterOutgoingDocActions_def)
  obtain rs g2 h2 where rf:
    "runFilters X (g1, h) docSession (zip docActions [0..<length docActions]) = (rs, g2, h2)"
    using prod_cases3 by blast
  obtain parts where pa: "Promise_all X rs = Inr parts" and out: "out = concat parts" "h' = h2"
    using run rules nf ck u rf
    by (cases "Promise_all X rs") (auto simp: filterOutgoingDocActions_def)
  have rs: "rs = map Inr parts" using Promise_all_Inr[OF pa] .
  have "list_all (\<lambda>r. r < length h) (map fst (zip docActions [0..<length docActions]))"
    using refs by simp
  from runFilters_frame[OF blind rf c1 this] have "\<forall>out. Inr out \<in> set rs \<longrightarrow> clean h2 out"
    by simp
  then have "\<forall>p \<in> set parts. clean h2 p" using rs by auto
  then have "clean h2 (concat parts)" by (auto simp: clean_def list_all_iff)
  then show ?thesis using out by (simp add: clean_def aclData_def)
qed

subsection \<open>Censoring the ACL tables\<close>

text \<open>
  C2 as stated fails. For a viewer who may not view the access rules, \<open>apply\<close> on an
  action of \<open>_grist_ACLRules\<close> answers false, not true, and it empties a \<open>TableData\<close>
  only: a \<open>BulkAddRecord\<close> keeps its rows and cells. And a viewer who is not an owner
  can receive rows of these tables: in a document without rules the filter returns the
  actions it is given, and in a document with rules an editor who is granted
  \<open>AccessRules\<close> is sent the two actions on the tables of access rules with their cells.
\<close>

theorem C2_apply_answers_false:
  "apply_censor blindCensor (TableData ''_grist_ACLRules'' [1] [(''aclFormula'', [CStr ''True''])])
     = Inr (False, TableData ''_grist_ACLRules'' [] [])
   \<and> apply_censor blindCensor
        (BulkAddRecord ''_grist_ACLRules'' [1] [(''aclFormula'', [CStr ''True''])])
     = Inr (False, BulkAddRecord ''_grist_ACLRules'' [1] [(''aclFormula'', [CStr ''True''])])
   \<and> sessAccess editorSession \<noteq> Owners
   \<and> fst (filterOutgoingDocActions (exampleCollaborators [])
        ((newEngine noRules)
           \<lparr>activeBundle := Some (exampleBundle
              [BulkAddRecord ''_grist_ACLRules'' [1] [(''aclFormula'', [CStr ''True''])]]
              True False)\<rparr>,
         [BulkAddRecord ''_grist_ACLRules'' [1] [(''aclFormula'', [CStr ''True''])]])
        editorSession [0]) = Inr [0]
   \<and> map ((!) (snd (snd (filterOutgoingDocActions (exampleCollaborators resourceSteps)
                 (warmEngine exampleRules resourceActions resourceSteps, resourceActions)
                 editorSession [0, 1, 2]))))
       (case fst (filterOutgoingDocActions (exampleCollaborators resourceSteps)
                 (warmEngine exampleRules resourceActions resourceSteps, resourceActions)
                 editorSession [0, 1, 2]) of Inl e \<Rightarrow> [] | Inr out \<Rightarrow> out)
     = [UpdateRecord ''_grist_ACLResources'' 2 [(''colIds'', CStr ''*'')],
        TableData ''_grist_ACLRules'' [1] [(''aclFormula'', [CStr ''True''])],
        UpdateRecord ''Other'' 2 [(''y'', CStr ''2'')]]"
proof -
  have "map ((!) (snd (snd (filterOutgoingDocActions (exampleCollaborators resourceSteps)
                 (warmEngine exampleRules resourceActions resourceSteps, resourceActions)
                 editorSession [0, 1, 2]))))
       (case fst (filterOutgoingDocActions (exampleCollaborators resourceSteps)
                 (warmEngine exampleRules resourceActions resourceSteps, resourceActions)
                 editorSession [0, 1, 2]) of Inl e \<Rightarrow> [] | Inr out \<Rightarrow> out)
     = [UpdateRecord ''_grist_ACLResources'' 2 [(''colIds'', CStr ''*'')],
        TableData ''_grist_ACLRules'' [1] [(''aclFormula'', [CStr ''True''])],
        UpdateRecord ''Other'' 2 [(''y'', CStr ''2'')]]"
    by code_simp
  then show ?thesis
    by (simp add: apply_censor_def blindCensor_def STRUCTURAL_TABLES_def censoredOf_def
        filterOutgoingDocActions_def bundleHasDeliberateRuleChange_def exampleBundle_def
        haveRules_def newEngine_def noRules_def editorSession_def)
qed

text \<open>
  C2, amended. For an action on \<open>_grist_ACLRules\<close> or \<open>_grist_ACLResources\<close> and a
  viewer without the \<open>AccessRules\<close> permission, \<open>CensorshipInfo.apply\<close> answers false
  and leaves the action as it is unless it is a \<open>TableData\<close>, whose row ids and columns
  are emptied. Consequently, in a document that has rules and for a session whose cached
  permissions lack \<open>AccessRules\<close>, whatever \<open>filterOutgoingDocActions\<close> returns for a
  list of actions holds no data action on either table, empty or not.
\<close>

theorem C2_acl_tables_without_permission:
  "(isAclTable (getTableId a) \<and> \<not> canViewACLs ci \<longrightarrow>
      apply_censor ci a =
        Inr (False, if actionName a = ''TableData'' then TableData (getTableId a) [] [] else a))
   \<and> (haveRules g
      \<and> permissionInfoMap (eng_ruler g) docSession = Some (Inr permInfo)
      \<and> p_read (perms (getColumnAccess permInfo SPECIAL_RULES_TABLE_ID ''AccessRules'')) \<noteq> Allow
      \<and> list_all (\<lambda>r. r < length h) docActions
      \<and> filterOutgoingDocActions X (g, h) docSession docActions = (Inr out, g', h') \<longrightarrow>
      list_all (\<lambda>r. r < length h'
                  \<and> \<not> (isAclTable (getTableId (h' ! r)) \<and> isDataAction (h' ! r))) out)"
proof (intro conjI impI)
  assume "isAclTable (getTableId a) \<and> \<not> canViewACLs ci"
  then show "apply_censor ci a =
        Inr (False, if actionName a = ''TableData'' then TableData (getTableId a) [] [] else a)"
    by (auto simp: apply_censor_def isAclTable_def STRUCTURAL_TABLES_def censoredOf_def Let_def)
next
  assume "haveRules g
      \<and> permissionInfoMap (eng_ruler g) docSession = Some (Inr permInfo)
      \<and> p_read (perms (getColumnAccess permInfo SPECIAL_RULES_TABLE_ID ''AccessRules'')) \<noteq> Allow
      \<and> list_all (\<lambda>r. r < length h) docActions
      \<and> filterOutgoingDocActions X (g, h) docSession docActions = (Inr out, g', h')"
  then show "list_all (\<lambda>r. r < length h'
                  \<and> \<not> (isAclTable (getTableId (h' ! r)) \<and> isDataAction (h' ! r))) out"
    using filter_sends_no_acl_data[of g docSession permInfo h docActions X out g' h'] by blast
qed

lemma resource_facts:
  "haveRules (warmEngine guardedRules resourceActions resourceSteps)
   \<and> permissionInfoMap (eng_ruler (warmEngine guardedRules resourceActions resourceSteps))
        editorSession = Some (Inr (editorPermissionInfo guardedRules))"
  by (simp add: warmEngine_def bundleEngine_def newEngine_def exampleBundle_def haveRules_def
      guardedRules_def exampleRules_def)

lemma resource_blind:
  "isAclTable (getTableId (UpdateRecord ''_grist_ACLResources'' 2 [(''colIds'', CStr ''*'')]))
   \<and> \<not> canViewACLs blindCensor
   \<and> p_read (perms (getColumnAccess (editorPermissionInfo guardedRules)
                      SPECIAL_RULES_TABLE_ID ''AccessRules'')) \<noteq> Allow
   \<and> list_all (\<lambda>r. r < length resourceActions) [0, 1, 2]"
  by code_simp

lemma resource_run:
  "fst (filterOutgoingDocActions (exampleCollaborators resourceSteps)
          (warmEngine guardedRules resourceActions resourceSteps, resourceActions)
          editorSession [0, 1, 2]) = Inr [2]
  \<and> snd (snd (filterOutgoingDocActions (exampleCollaborators resourceSteps)
          (warmEngine guardedRules resourceActions resourceSteps, resourceActions)
          editorSession [0, 1, 2]))
      = (resourceActions @
              [UpdateRecord ''_grist_ACLResources'' 2 [(''colIds'', CStr ''*'')],
               TableData ''_grist_ACLRules'' [] []])"
  by code_simp

text \<open>
  An \<open>UpdateRecord\<close> on \<open>_grist_ACLResources\<close> is answered false and left alone; of a
  bundle with that action, a \<open>TableData\<close> of \<open>_grist_ACLRules\<close> and an update of table
  \<open>Other\<close>, the editor is sent the last one only.
\<close>

theorem C2_acl_tables_without_permission_witness:
  "isAclTable (getTableId (UpdateRecord ''_grist_ACLResources'' 2 [(''colIds'', CStr ''*'')]))
   \<and> \<not> canViewACLs blindCensor
   \<and> apply_censor blindCensor (UpdateRecord ''_grist_ACLResources'' 2 [(''colIds'', CStr ''*'')])
       = Inr (False, UpdateRecord ''_grist_ACLResources'' 2 [(''colIds'', CStr ''*'')])
   \<and> haveRules (warmEngine guardedRules resourceActions resourceSteps)
   \<and> permissionInfoMap (eng_ruler (warmEngine guardedRules resourceActions resourceSteps))
        editorSession = Some (Inr (editorPermissionInfo guardedRules))
   \<and> p_read (perms (getColumnAccess (editorPermissionInfo guardedRules)
                      SPECIAL_RULES_TABLE_ID ''AccessRules'')) \<noteq> Allow
   \<and> list_all (\<lambda>r. r < length resourceActions) [0, 1, 2]
   \<and> fst (filterOutgoingDocActions (exampleCollaborators resourceSteps)
          (warmEngine guardedRules resourceActions resourceSteps, resourceActions)
          editorSession [0, 1, 2]) = Inr [2]
   \<and> map ((!) (snd (snd (filterOutgoingDocActions (exampleCollaborators resourceSteps)
          (warmEngine guardedRules resourceActions resourceSteps, resourceActions)
          editorSession [0, 1, 2])))) [2] = [UpdateRecord ''Other'' 2 [(''y'', CStr ''2'')]]"
  using C2_acl_tables_without_permission
          [where a = "UpdateRecord ''_grist_ACLResources'' 2 [(''colIds'', CStr ''*'')]"
             and ci = blindCensor
             and g = "warmEngine guardedRules resourceActions resourceSteps"
             and docSession = editorSession
             and permInfo = "editorPermissionInfo guardedRules"
             and h = resourceActions and docActions = "[0, 1, 2]"
             and X = "exampleCollaborators resourceSteps" and out = "[2]"
             and g' = "fst (snd (filterOutgoingDocActions (exampleCollaborators resourceSteps)
          (warmEngine guardedRules resourceActions resourceSteps, resourceActions)
          editorSession [0, 1, 2]))"
             and h' = "resourceActions @
              [UpdateRecord ''_grist_ACLResources'' 2 [(''colIds'', CStr ''*'')],
               TableData ''_grist_ACLRules'' [] []]"]
        resource_facts resource_blind resource_run
  by (simp add: prod_eq_iff resourceActions_def)

subsection \<open>The filter and the objects it is given\<close>

text \<open>
  C10. \<open>filterOutgoingDocActions\<close> should leave the action objects it is given as they
  are. It does not: a single-row action that keeps its row is returned by \<open>_removeRows\<close>
  as the same object, and the cell pass of \<open>_pruneRows\<close> then writes \<open>'CENSORED'\<close> into
  it. After the filter ran for the editor, the \<open>UpdateRecord\<close> at reference 0, the input
  object, holds \<open>'CENSORED'\<close> in place of \<open>'x'\<close>; the owner, filtered next on the
  same objects, is sent that object.
\<close>

theorem C10_input_action_censored_in_place:
  "[secretUpdate] ! 0 = UpdateRecord ''T'' 1 [(''secret'', CStr ''x'')]
   \<and> fst (filterOutgoingDocActions (exampleCollaborators secretUpdateSteps)
        (bundleEngine [secretUpdate], [secretUpdate]) editorSession [0]) = Inr [1]
   \<and> snd (snd (filterOutgoingDocActions (exampleCollaborators secretUpdateSteps)
        (bundleEngine [secretUpdate], [secretUpdate]) editorSession [0])) ! 0
      = UpdateRecord ''T'' 1 [(''secret'', CStr ''CENSORED'')]
   \<and> fst (filterOutgoingDocActions (exampleCollaborators secretUpdateSteps)
        (snd (filterOutgoingDocActions (exampleCollaborators secretUpdateSteps)
           (bundleEngine [secretUpdate], [secretUpdate]) editorSession [0]))
        ownerSession [0]) = Inr [0]"
  by code_simp












lemma secondPassLoop_plain:
  "list_all (\<lambda>a. \<not> structuralData h a) acts \<Longrightarrow>
   secondPassLoop X (g, h) docSession actionIdx acts seen = (Inr (seen @ acts), g, h)"
  by (induction acts arbitrary: seen) (auto simp: structuralData_def)













lemma staffActions_run:
  "fst (filterOutgoingDocActions (exampleCollaborators staffSteps)
        (warmEngine columnRules staffActions staffSteps, staffActions) editorSession
        [0, 1, 2, 3, 4, 5]) = Inr [1, 6, 8]
   \<and> snd (snd (filterOutgoingDocActions (exampleCollaborators staffSteps)
        (warmEngine columnRules staffActions staffSteps, staffActions) editorSession
        [0, 1, 2, 3, 4, 5]))
      = staffActions @
        [UpdateRecord ''Staff'' 3 [(''name'', CStr ''n'')],
         UpdateRecord ''Staff'' 4 [(''pay'', CNum 7)],
         BulkAddRecord ''Staff'' [5, 6] [(''name'', [CStr ''a'', CStr ''b''])]]"
  by code_simp


end
